(* ===== verification/Prelude.thy ===== *)
theory Prelude
  imports Main "HOL-Library.Char_ord" "HOL-Library.List_Lexorder" "HOL-Library.Product_Lexorder"
    "HOL-Library.AList" "HOL-Library.Sublist" "HOL-Library.Multiset"
begin

text \<open>
  Shared vocabulary of the development. Python's containers and string operations as the
  compiler uses them: strings are byte lists (UTF-8), ordered bytewise, which is Python's
  code point order; a \<open>dict\<close> is an association list in insertion order, whose update keeps
  the position of an existing key; \<open>sorted(set(xs))\<close> is \<open>usort\<close>. The locale
  \<open>keyed_store\<close> is the contract of every keyed container of the program (dictionaries here,
  the packet registry's table later).
\<close>

named_theorems store_simps \<open>laws of keyed containers\<close>
named_theorems usort_simps \<open>laws of sorted duplicate-free tuples\<close>

type_synonym ident = string
type_synonym ('k, 'v) dict = "('k \<times> 'v) list"

subsection \<open>Sorted tuples without duplicates\<close>

definition usort :: "'a::linorder list \<Rightarrow> 'a list" where
  "usort xs = sort (remdups xs)"

lemma set_usort [simp, usort_simps]: "set (usort xs) = set xs"
  by (simp add: usort_def)

lemma sorted_usort [simp, usort_simps]: "sorted (usort xs)"
  by (simp add: usort_def)

lemma distinct_usort [simp, usort_simps]: "distinct (usort xs)"
  by (simp add: usort_def)

lemma usort_Nil_iff [simp, usort_simps]: "usort xs = [] \<longleftrightarrow> xs = []"
  by (metis set_empty set_usort)

lemma usort_Nil [simp]: "usort [] = []"
  by simp

lemma usort_cong: "set xs = set ys \<Longrightarrow> usort xs = usort ys"
  by (metis distinct_usort set_usort sorted_distinct_set_unique sorted_usort)

lemma usort_usort [simp]: "usort (usort xs) = usort xs"
  by (rule usort_cong) simp

lemma length_usort: "length (usort xs) = card (set xs)"
  using distinct_card [OF distinct_usort, of xs] by simp

lemma usort_eq_iff: "usort xs = usort ys \<longleftrightarrow> set xs = set ys"
  by (metis set_usort usort_cong)

subsection \<open>Keyed containers\<close>

lemma find_snoc:
  "find P (ys @ [y]) =
    (case find P ys of Some z \<Rightarrow> Some z | None \<Rightarrow> if P y then Some y else None)"
  by (induction ys) auto

lemma find_SomeD: "find P xs = Some x \<Longrightarrow> x \<in> set xs \<and> P x"
  by (induction xs) (auto split: if_splits)

lemma find_exists: "x \<in> set xs \<Longrightarrow> P x \<Longrightarrow> \<exists>y. find P xs = Some y"
  by (induction xs) auto

lemma map_filter_set: "set (List.map_filter f xs) = {y. \<exists>x \<in> set xs. f x = Some y}"
  by (induction xs) (auto simp: map_filter_simps split: option.splits)

locale keyed_store =
  fixes lookup :: "'m \<Rightarrow> 'k \<Rightarrow> 'v option"
    and put :: "'k \<Rightarrow> 'v \<Rightarrow> 'm \<Rightarrow> 'm"
    and keys_of :: "'m \<Rightarrow> 'k set"
  assumes lookup_put: "lookup (put k v m) k' = (if k = k' then Some v else lookup m k')"
    and keys_lookup: "k \<in> keys_of m \<longleftrightarrow> lookup m k \<noteq> None"
begin

lemma lookup_put_same: "lookup (put k v m) k = Some v"
  by (simp add: lookup_put)

lemma lookup_put_other: "k \<noteq> k' \<Longrightarrow> lookup (put k v m) k' = lookup m k'"
  by (simp add: lookup_put)

lemma keys_put: "keys_of (put k v m) = insert k (keys_of m)"
  by (auto simp: keys_lookup lookup_put split: if_splits)

lemma put_put_same: "lookup (put k v (put k w m)) k' = lookup (put k v m) k'"
  by (simp add: lookup_put)

lemma put_commute:
  "k \<noteq> l \<Longrightarrow> lookup (put k v (put l w m)) k' = lookup (put l w (put k v m)) k'"
  by (auto simp: lookup_put)

text \<open>Filling a container from a list of records: the last record of a key wins.\<close>

lemma lookup_fill:
  "lookup (fold (\<lambda>x. put (key x) (val x)) xs m) k =
     (case find (\<lambda>x. key x = k) (rev xs) of Some x \<Rightarrow> Some (val x) | None \<Rightarrow> lookup m k)"
proof (induction xs arbitrary: m)
  case (Cons x xs)
  then show ?case by (simp add: lookup_put find_snoc split: option.split)
qed simp

lemma keys_fill: "keys_of (fold (\<lambda>x. put (key x) (val x)) xs m) = keys_of m \<union> key ` set xs"
  by (induction xs arbitrary: m) (auto simp: keys_put)

lemma lookup_fill_member:
  "lookup (fold (\<lambda>x. put (key x) (val x)) xs m) k = Some v \<Longrightarrow>
     lookup m k = Some v \<or> (\<exists>x \<in> set xs. key x = k \<and> val x = v)"
  using find_SomeD [of "\<lambda>x. key x = k" "rev xs"]
  by (cases "find (\<lambda>x. key x = k) (rev xs)") (auto simp: lookup_fill)

lemma lookup_fill_distinct:
  assumes "distinct (map key xs)" and "x \<in> set xs"
  shows "lookup (fold (\<lambda>x. put (key x) (val x)) xs m) (key x) = Some (val x)"
proof -
  obtain y where y: "find (\<lambda>y. key y = key x) (rev xs) = Some y"
    using find_exists [of x "rev xs" "\<lambda>y. key y = key x"] assms(2) by auto
  have "y \<in> set xs" and "key y = key x"
    using find_SomeD [OF y] by simp_all
  then have "y = x"
    using assms by (simp add: distinct_map inj_on_def)
  with y show ?thesis by (simp add: lookup_fill)
qed

end

subsection \<open>Python dictionaries\<close>

abbreviation dget :: "('k, 'v) dict \<Rightarrow> 'k \<Rightarrow> 'v option" where
  "dget d k \<equiv> map_of d k"

abbreviation dput :: "'k \<Rightarrow> 'v \<Rightarrow> ('k, 'v) dict \<Rightarrow> ('k, 'v) dict" where
  "dput k v d \<equiv> AList.update k v d"

abbreviation dkeys :: "('k, 'v) dict \<Rightarrow> 'k list" where
  "dkeys d \<equiv> map fst d"

abbreviation dvalues :: "('k, 'v) dict \<Rightarrow> 'v list" where
  "dvalues d \<equiv> map snd d"

definition dget_default :: "'v \<Rightarrow> ('k, 'v) dict \<Rightarrow> 'k \<Rightarrow> 'v" where
  "dget_default v d k = (case dget d k of Some w \<Rightarrow> w | None \<Rightarrow> v)"

definition dsetdefault :: "'k \<Rightarrow> 'v \<Rightarrow> ('k, 'v) dict \<Rightarrow> ('k, 'v) dict" where
  "dsetdefault k v d = (if dget d k = None then dput k v d else d)"

definition dappend :: "'k \<Rightarrow> 'v \<Rightarrow> ('k, 'v list) dict \<Rightarrow> ('k, 'v list) dict" where
  "dappend k v d = dput k (dget_default [] d k @ [v]) d"

interpretation dict: keyed_store "map_of" "AList.update" "\<lambda>d. fst ` set d"
  by unfold_locales (auto simp: update_conv' domIff map_of_eq_None_iff)

lemmas [store_simps] = dict.lookup_put dict.keys_put dict.lookup_fill dict.keys_fill

lemma distinct_dput: "distinct (dkeys d) \<Longrightarrow> distinct (dkeys (dput k v d))"
  by (rule distinct_update)

lemma distinct_fill:
  "distinct (dkeys d) \<Longrightarrow> distinct (dkeys (fold (\<lambda>x. dput (key x) (val x)) xs d))"
  by (induction xs arbitrary: d) (auto simp: distinct_update)

lemma set_dict_iff: "distinct (dkeys d) \<Longrightarrow> (k, v) \<in> set d \<longleftrightarrow> dget d k = Some v"
  by simp

subsection \<open>Keeping the first entry\<close>

lemma dsetdefault_lookup:
  "dget (dsetdefault k v d) k' =
     (if k = k' then (case dget d k of None \<Rightarrow> Some v | Some w \<Rightarrow> Some w) else dget d k')"
  by (auto simp: dsetdefault_def update_conv' split: option.split)

lemma dsetdefault_fold:
  "dget (fold (\<lambda>x. dsetdefault (key x) (val x)) xs d) k =
     (case dget d k of Some w \<Rightarrow> Some w | None \<Rightarrow> map_option val (find (\<lambda>x. key x = k) xs))"
  by (induction xs arbitrary: d) (auto simp: dsetdefault_lookup split: option.splits)

lemma keys_dsetdefault: "fst ` set (dsetdefault k v d) = insert k (fst ` set d)"
  by (auto simp: dsetdefault_def dict.keys_put map_of_eq_None_iff insert_absorb)

lemma keys_dsetdefault_fold:
  "fst ` set (fold (\<lambda>x. dsetdefault (key x) (val x)) xs d) = fst ` set d \<union> key ` set xs"
  by (induction xs arbitrary: d) (simp_all add: keys_dsetdefault)

lemma distinct_dsetdefault_fold:
  "distinct (dkeys d) \<Longrightarrow> distinct (dkeys (fold (\<lambda>x. dsetdefault (key x) (val x)) xs d))"
  by (induction xs arbitrary: d) (auto simp: dsetdefault_def distinct_update)

subsection \<open>Grouping: a defaultdict of lists\<close>

definition group_map :: "('a \<Rightarrow> 'k) \<Rightarrow> ('a \<Rightarrow> 'v) \<Rightarrow> 'a list \<Rightarrow> ('k, 'v list) dict" where
  "group_map key val xs = fold (\<lambda>x. dappend (key x) (val x)) xs []"

definition group_by :: "('a \<Rightarrow> 'k) \<Rightarrow> 'a list \<Rightarrow> ('k, 'a list) dict" where
  "group_by key xs = fold (\<lambda>x. dappend (key x) x) xs []"

lemma group_by_map: "group_by key xs = group_map key (\<lambda>x. x) xs"
  by (simp add: group_by_def group_map_def)

lemma dget_dappend:
  "dget_default [] (dappend k v d) k' = dget_default [] d k' @ (if k = k' then [v] else [])"
  by (auto simp: dappend_def dget_default_def update_conv')

lemma dget_dappend_fold:
  "dget_default [] (fold (\<lambda>x. dappend (k x) (v x)) xs d) c =
     dget_default [] d c @ map v (filter (\<lambda>x. k x = c) xs)"
  by (induction xs arbitrary: d) (auto simp: dget_dappend)

lemma keys_dappend: "fst ` set (dappend k v d) = insert k (fst ` set d)"
  by (simp add: dappend_def dict.keys_put)

lemma keys_dappend_fold:
  "fst ` set (fold (\<lambda>x. dappend (k x) (v x)) xs d) = fst ` set d \<union> k ` set xs"
  by (induction xs arbitrary: d) (auto simp: keys_dappend)

lemma distinct_dappend_fold:
  "distinct (dkeys d) \<Longrightarrow> distinct (dkeys (fold (\<lambda>x. dappend (k x) (v x)) xs d))"
  by (induction xs arbitrary: d) (auto simp: dappend_def distinct_update)

lemma dget_group_map: "dget_default [] (group_map k v xs) c = map v (filter (\<lambda>x. k x = c) xs)"
  by (simp add: group_map_def dget_dappend_fold) (simp add: dget_default_def)

lemma keys_group_map: "fst ` set (group_map k v xs) = k ` set xs"
  by (simp add: group_map_def keys_dappend_fold)

lemma distinct_group_map: "distinct (dkeys (group_map k v xs))"
  by (simp add: group_map_def distinct_dappend_fold)

lemma group_map_entry:
  assumes "(c, g) \<in> set (group_map k v xs)"
  shows "g = map v (filter (\<lambda>x. k x = c) xs)" and "c \<in> k ` set xs"
proof -
  have "dget (group_map k v xs) c = Some g"
    using assms distinct_group_map set_dict_iff by metis
  then show "g = map v (filter (\<lambda>x. k x = c) xs)"
    using dget_group_map [of k v xs c] by (simp add: dget_default_def)
  show "c \<in> k ` set xs"
    using assms keys_group_map [of k v xs] by force
qed

lemma set_group_map:
  "set (group_map k v xs) = (\<lambda>c. (c, map v (filter (\<lambda>x. k x = c) xs))) ` k ` set xs"
proof (intro equalityI subsetI)
  fix q assume "q \<in> (\<lambda>c. (c, map v (filter (\<lambda>x. k x = c) xs))) ` k ` set xs"
  then obtain c where q: "q = (c, map v (filter (\<lambda>x. k x = c) xs))" and "c \<in> k ` set xs" by blast
  then obtain g where "(c, g) \<in> set (group_map k v xs)" using keys_group_map [of k v xs] by force
  with group_map_entry(1) [OF this] q show "q \<in> set (group_map k v xs)" by simp
qed (use group_map_entry in \<open>fastforce simp: image_iff\<close>)

lemma dget_group_by: "dget_default [] (group_by key xs) k = filter (\<lambda>x. key x = k) xs"
  by (simp add: group_by_map dget_group_map)

lemma keys_group_by: "fst ` set (group_by key xs) = key ` set xs"
  by (simp add: group_by_map keys_group_map)

lemma distinct_group_by: "distinct (dkeys (group_by key xs))"
  by (simp add: group_by_map distinct_group_map)

lemma group_by_entry:
  assumes "(k, g) \<in> set (group_by key xs)"
  shows "g = filter (\<lambda>x. key x = k) xs" and "k \<in> key ` set xs"
  using group_map_entry [OF assms [unfolded group_by_map]] by simp_all

subsection \<open>Indexing records by a key\<close>

text \<open>\<open>{key(x): x for x in xs}\<close>, and its values in key order.\<close>

definition index_by :: "('a \<Rightarrow> 'k) \<Rightarrow> 'a list \<Rightarrow> ('k, 'a) dict" where
  "index_by key xs = fold (\<lambda>x. dput (key x) x) xs []"

lemma dget_index_by: "dget (index_by key xs) k = find (\<lambda>x. key x = k) (rev xs)"
  unfolding index_by_def
  by (subst dict.lookup_fill [where val = "\<lambda>x. x"]) (simp split: option.split)

lemma distinct_index_by: "distinct (dkeys (index_by key xs))"
  unfolding index_by_def by (rule distinct_fill) simp

lemma keys_index_by: "fst ` set (index_by key xs) = key ` set xs"
  unfolding index_by_def by (subst dict.keys_fill) simp

lemma index_by_entry:
  assumes "(k, x) \<in> set (index_by key xs)"
  shows "x \<in> set xs" and "key x = k"
proof -
  have "find (\<lambda>x. key x = k) (rev xs) = Some x"
    using assms distinct_index_by [of key xs] by (simp add: dget_index_by [symmetric])
  from find_SomeD [OF this] show "x \<in> set xs" and "key x = k" by simp_all
qed

lemma map_key_index_by: "map key (dvalues (index_by key xs)) = dkeys (index_by key xs)"
  using index_by_entry(2) [of _ _ key xs] by (auto simp: comp_def intro!: map_cong)

lemma keys_sorted_index_by:
  "map key (sort_key key (dvalues (index_by key xs))) = usort (map key xs)"
proof (rule sorted_distinct_set_unique)
  show "distinct (map key (sort_key key (dvalues (index_by key xs))))"
  proof -
    have "mset (map key (sort_key key (dvalues (index_by key xs)))) =
        mset (map key (dvalues (index_by key xs)))"
      by (simp only: mset_map mset_sort)
    then show ?thesis
      using mset_eq_imp_distinct_iff distinct_index_by [of key xs] map_key_index_by [of key xs]
      by metis
  qed
  have "key ` set (dvalues (index_by key xs)) = set (dkeys (index_by key xs))"
    by (simp only: set_map [symmetric] map_key_index_by)
  then show "set (map key (sort_key key (dvalues (index_by key xs)))) = set (usort (map key xs))"
    using keys_index_by [of key xs] by simp
qed simp_all

lemma values_index_by_subset: "set (dvalues (index_by key xs)) \<subseteq> set xs"
  using index_by_entry(1) by fastforce

lemma values_index_by_iff:
  "x \<in> set (dvalues (index_by key xs)) \<longleftrightarrow> dget (index_by key xs) (key x) = Some x"
proof
  assume "x \<in> set (dvalues (index_by key xs))"
  then obtain k where "(k, x) \<in> set (index_by key xs)" by auto
  then show "dget (index_by key xs) (key x) = Some x"
    using index_by_entry(2) distinct_index_by [of key xs] by fastforce
qed (force dest: map_of_SomeD)

end
