(* ===== verification/Canonical.thy ===== *)
theory Canonical
  imports Prelude
begin

text \<open>
  Canonical serialization, semantic hashing and stable identities: the first part of
  \<open>run/evidence.py\<close>. Python values are \<open>pyval\<close>, JSON data is \<open>json\<close>; \<open>dumps\<close> is the
  \<open>json.dumps\<close> call of \<open>canonical_json\<close> (sorted keys, compact separators, no ASCII
  escaping). The digest function of \<open>hashlib\<close> is the parameter \<open>sha\<close>, from the UTF-8 bytes
  to the hexadecimal digest: nothing in the repository depends on how it is computed.
  \<open>dumps_inj\<close> shows that the serialization separates distinct canonical data, so two values
  share a semantic hash only when their stripped data agree or the digest collides.
  Floating point numbers and NaN refusal are not modelled.
\<close>

datatype json =
    JNull
  | JBool bool
  | JInt int
  | JStr string
  | JArr "json list"
  | JObj "(string \<times> json) list"

text \<open>
  \<open>PSeq\<close> is a list or tuple, \<open>PSet\<close> a set in iteration order, \<open>PModel\<close> a pydantic model
  by its fields, \<open>PPath\<close> a path by its POSIX text, \<open>PDatetime\<close> a date by its UTC
  \<open>isoformat\<close> text.
\<close>

datatype pyval =
    PNone
  | PBool bool
  | PInt int
  | PStr string
  | PSeq "pyval list"
  | PSet "pyval list"
  | PDict "(string \<times> pyval) list"
  | PModel "(string \<times> pyval) list"
  | PPath string
  | PDatetime string

subsection \<open>Strings\<close>

definition startswith :: "string \<Rightarrow> string \<Rightarrow> bool" where
  "startswith s p = prefix p s"

definition removeprefix :: "string \<Rightarrow> string \<Rightarrow> string" where
  "removeprefix s p = (if prefix p s then drop (length p) s else s)"

fun str_replace :: "string \<Rightarrow> string \<Rightarrow> string \<Rightarrow> string" where
  "str_replace s old new = (case s of [] \<Rightarrow> [] | c # cs \<Rightarrow>
     if old \<noteq> [] \<and> prefix old s then new @ str_replace (drop (length old) s) old new
     else c # str_replace cs old new)"

declare str_replace.simps [simp del]

fun join :: "string \<Rightarrow> string list \<Rightarrow> string" where
  "join sep [] = []"
| "join sep [x] = x"
| "join sep (x # y # ys) = x @ sep @ join sep (y # ys)"

lemma removeprefix_append [simp]: "removeprefix (p @ s) p = s"
  by (simp add: removeprefix_def)

lemma startswith_append [simp]: "startswith (p @ s) p"
  by (simp add: startswith_def)

subsection \<open>Numbers and string literals\<close>

definition digit :: "nat \<Rightarrow> char" where
  "digit n = char_of (48 + n)"

fun show_nat :: "nat \<Rightarrow> string" where
  "show_nat n = (if n < 10 then [digit n] else show_nat (n div 10) @ [digit (n mod 10)])"

declare show_nat.simps [simp del]

definition show_int :: "int \<Rightarrow> string" where
  "show_int i = (if i < 0 then CHR ''-'' # show_nat (nat (- i)) else show_nat (nat i))"

definition hexdigit :: "nat \<Rightarrow> char" where
  "hexdigit n = (if n < 10 then char_of (48 + n) else char_of (87 + n))"

definition escape_char :: "char \<Rightarrow> string" where
  "escape_char c =
     (if c = CHR 0x22 then [CHR 0x5C, CHR 0x22]
      else if c = CHR 0x5C then [CHR 0x5C, CHR 0x5C]
      else if c = CHR 0x0A then [CHR 0x5C, CHR ''n'']
      else if c = CHR 0x0D then [CHR 0x5C, CHR ''r'']
      else if c = CHR 0x09 then [CHR 0x5C, CHR ''t'']
      else if c = CHR 0x0C then [CHR 0x5C, CHR ''f'']
      else if c = CHR 0x08 then [CHR 0x5C, CHR ''b'']
      else if of_char c < (32::nat)
        then [CHR 0x5C, CHR ''u'', CHR ''0'', CHR ''0'',
              hexdigit (of_char c div 16), hexdigit (of_char c mod 16)]
      else [c])"

definition quote :: "string \<Rightarrow> string" where
  "quote s = CHR 0x22 # concat (map escape_char s) @ [CHR 0x22]"

subsection \<open>Serialization\<close>

fun dumps :: "json \<Rightarrow> string" where
  "dumps JNull = ''null''"
| "dumps (JBool b) = (if b then ''true'' else ''false'')"
| "dumps (JInt i) = show_int i"
| "dumps (JStr s) = quote s"
| "dumps (JArr xs) = ''['' @ join '','' (map dumps xs) @ '']''"
| "dumps (JObj kvs) = ''{'' @
     join '','' (map (\<lambda>(k, s). quote k @ '':'' @ s)
       (sort_key fst (map (\<lambda>(k, v). (k, dumps v)) kvs))) @ ''}''"

text \<open>
  \<open>canonical_data\<close>. A model is first dumped with its \<open>None\<close> fields left out, nested models
  included, and its fields are then treated as a dictionary.
\<close>

fun canonical_data :: "pyval \<Rightarrow> json" where
  "canonical_data PNone = JNull"
| "canonical_data (PBool b) = JBool b"
| "canonical_data (PInt i) = JInt i"
| "canonical_data (PStr s) = JStr s"
| "canonical_data (PSeq xs) = JArr (map canonical_data xs)"
| "canonical_data (PSet xs) = JArr (sort_key dumps (map canonical_data xs))"
| "canonical_data (PDict kvs) =
     JObj (sort_key fst (map (\<lambda>(k, v). (k, canonical_data v)) kvs))"
| "canonical_data (PModel kvs) =
     JObj (sort_key fst
       (map (\<lambda>(k, v). (k, canonical_data v)) (filter (\<lambda>(k, v). v \<noteq> PNone) kvs)))"
| "canonical_data (PPath s) = JStr s"
| "canonical_data (PDatetime s) = JStr (str_replace s ''+00:00'' ''Z'')"

definition canonical_json :: "pyval \<Rightarrow> string" where
  "canonical_json v = dumps (canonical_data v)"

subsection \<open>Semantic hashes and stable identities\<close>

definition sha_prefix :: string where
  "sha_prefix = ''sha256:''"

definition sha256_bytes :: "(string \<Rightarrow> string) \<Rightarrow> string \<Rightarrow> string" where
  "sha256_bytes sha b = sha_prefix @ sha b"

definition default_excluded :: "string list" where
  "default_excluded =
     [''created_at'', ''checked_at'', ''generated_at'', ''committed_at'', ''frozen_at'',
      ''run_id'', ''stage_id'', ''trace_id'', ''workflow_id'', ''artifact_hash'',
      ''semantic_hash'', ''packet_id'', ''receipt_id'']"

text \<open>\<open>excluded_fields or {...}\<close>: no set and the empty set both select the default.\<close>

definition excluded_or_default :: "string list option \<Rightarrow> string list" where
  "excluded_or_default ex = (case ex of Some (k # ks) \<Rightarrow> k # ks | _ \<Rightarrow> default_excluded)"

fun strip_data :: "string list \<Rightarrow> json \<Rightarrow> json" where
  "strip_data ex (JObj kvs) =
     JObj (map (\<lambda>(k, v). (k, strip_data ex v)) (filter (\<lambda>(k, v). k \<notin> set ex) kvs))"
| "strip_data ex (JArr xs) = JArr (map (strip_data ex) xs)"
| "strip_data ex v = v"

definition semantic_hash_excluding ::
  "(string \<Rightarrow> string) \<Rightarrow> string list option \<Rightarrow> pyval \<Rightarrow> string" where
  "semantic_hash_excluding sha ex v =
     sha256_bytes sha (dumps (strip_data (excluded_or_default ex) (canonical_data v)))"

abbreviation semantic_hash :: "(string \<Rightarrow> string) \<Rightarrow> pyval \<Rightarrow> string" where
  "semantic_hash sha v \<equiv> semantic_hash_excluding sha None v"

definition artifact_hash :: "(string \<Rightarrow> string) \<Rightarrow> string \<Rightarrow> string" where
  "artifact_hash sha content = sha256_bytes sha content"

definition stable_id :: "(string \<Rightarrow> string) \<Rightarrow> string \<Rightarrow> pyval \<Rightarrow> ident" where
  "stable_id sha pre v = pre @ '':'' @ removeprefix (semantic_hash sha v) sha_prefix"

subsection \<open>The serialization separates canonical data\<close>

text \<open>Reading a number back.\<close>

definition read_digits :: "string \<Rightarrow> nat" where
  "read_digits s = foldl (\<lambda>a c. 10 * a + (of_char c - 48)) 0 s"

definition is_digit :: "char \<Rightarrow> bool" where
  "is_digit c \<longleftrightarrow> 48 \<le> (of_char c :: nat) \<and> (of_char c :: nat) < 58"

lemma of_char_digit: "n < 10 \<Longrightarrow> of_char (digit n) = 48 + n"
  by (simp add: digit_def)

lemma is_digit_digit: "n < 10 \<Longrightarrow> is_digit (digit n)"
  by (simp add: is_digit_def of_char_digit)

lemma show_nat_digits: "list_all is_digit (show_nat n)"
proof (induction n rule: show_nat.induct)
  case (1 n)
  then show ?case
    by (cases "n < 10") (auto simp: show_nat.simps [of n] is_digit_digit)
qed

lemma show_nat_nonempty: "show_nat n \<noteq> []"
  by (subst show_nat.simps) simp

lemma read_show_nat: "read_digits (show_nat n) = n"
proof (induction n rule: show_nat.induct)
  case (1 n)
  show ?case
  proof (cases "n < 10")
    case True
    then show ?thesis
      by (simp add: show_nat.simps [of n] read_digits_def of_char_digit)
  next
    case False
    with 1 have "read_digits (show_nat (n div 10)) = n div 10" by simp
    with False show ?thesis
      by (simp add: show_nat.simps [of n] read_digits_def of_char_digit)
  qed
qed

lemma show_nat_inj: "show_nat m = show_nat n \<longleftrightarrow> m = n"
  by (metis read_show_nat)

text \<open>What may follow a value inside a serialization.\<close>

definition delimited :: "string \<Rightarrow> bool" where
  "delimited x \<longleftrightarrow> x = [] \<or> hd x \<in> {CHR '','', CHR '']'', CHR ''}''}"

lemma delimited_simps [simp]:
  "delimited []" "delimited (CHR '','' # x)" "delimited (CHR '']'' # x)" "delimited (CHR ''}'' # x)"
  by (simp_all add: delimited_def)

lemma digits_split:
  assumes "list_all is_digit s" "list_all is_digit t" "delimited x" "delimited y"
    and "s @ x = t @ y"
  shows "s = t \<and> x = y"
proof -
  have nd: "takeWhile is_digit z = []" if "delimited z" for z
    using that by (cases z) (auto simp: delimited_def is_digit_def)
  have "takeWhile is_digit (u @ z) = u" if "list_all is_digit u" "delimited z" for u z
    using that nd [of z] by (simp add: takeWhile_append2 list_all_iff)
  then have "s = t"
    using assms by metis
  with assms(5) show ?thesis by simp
qed

lemma show_int_sep:
  assumes "delimited x" "delimited y" "show_int i @ x = show_int j @ y"
  shows "i = j \<and> x = y"
proof -
  have nm: "hd (show_nat n) \<noteq> CHR ''-''" for n
    using show_nat_digits [of n] show_nat_nonempty [of n]
    by (cases "show_nat n") (auto simp: is_digit_def)
  have split: "m = n \<and> x = y" if "show_nat m @ x = show_nat n @ y" for m n
    using digits_split [OF show_nat_digits show_nat_digits assms(1,2) that]
    by (simp add: show_nat_inj)
  show ?thesis
  proof (cases "i < 0"; cases "j < 0")
    assume "i < 0" "j < 0"
    with assms(3) split [of "nat (- i)" "nat (- j)"] show ?thesis
      by (auto simp: show_int_def)
  next
    assume "\<not> i < 0" "\<not> j < 0"
    with assms(3) split [of "nat i" "nat j"] show ?thesis
      by (auto simp: show_int_def)
  next
    assume "i < 0" "\<not> j < 0"
    with assms(3) nm [of "nat j"] show_nat_nonempty [of "nat j"] show ?thesis
      by (cases "show_nat (nat j)") (simp_all add: show_int_def)
  next
    assume "\<not> i < 0" "j < 0"
    with assms(3) nm [of "nat i"] show_nat_nonempty [of "nat i"] show ?thesis
      by (cases "show_nat (nat i)") (simp_all add: show_int_def)
  qed
qed

lemma of_char_hexdigit:
  "n < 16 \<Longrightarrow> (of_char (hexdigit n) :: nat) = (if n < 10 then 48 + n else 87 + n)"
  by (simp add: hexdigit_def)

lemma hexdigit_inj:
  assumes "m < 16" "n < 16"
  shows "hexdigit m = hexdigit n \<longleftrightarrow> m = n"
proof
  assume "hexdigit m = hexdigit n"
  then have "(of_char (hexdigit m) :: nat) = of_char (hexdigit n)" by simp
  with assms show "m = n"
    by (simp only: of_char_hexdigit) (auto split: if_splits)
qed simp

lemma escape_char_sep:
  assumes "escape_char c @ u = escape_char d @ v"
  shows "c = d \<and> u = v"
proof -
  have ctl: "c = d" if "(of_char c :: nat) < 32" "(of_char d :: nat) < 32"
    "hexdigit (of_char c div 16) = hexdigit (of_char d div 16)"
    "hexdigit (of_char c mod 16) = hexdigit (of_char d mod 16)"
  proof -
    have "(of_char c :: nat) div 16 = of_char d div 16" "(of_char c :: nat) mod 16 = of_char d mod 16"
      using that by (simp_all add: hexdigit_inj)
    then have "(of_char c :: nat) = of_char d"
      by (metis div_mult_mod_eq)
    then show ?thesis by simp
  qed
  show ?thesis
    using assms ctl by (simp add: escape_char_def split: if_splits)
qed

lemma escape_char_hd: "escape_char c \<noteq> [] \<and> hd (escape_char c) \<noteq> CHR 0x22"
  by (simp add: escape_char_def)

lemma escape_string_sep:
  "concat (map escape_char s) @ CHR 0x22 # x = concat (map escape_char t) @ CHR 0x22 # y
     \<Longrightarrow> s = t \<and> x = y"
proof (induction s arbitrary: t)
  case Nil
  then show ?case
    using escape_char_hd by (cases t) (auto, metis append_Cons append_eq_Cons_conv hd_append list.sel(1))
next
  case (Cons c s)
  show ?case
  proof (cases t)
    case Nil
    with Cons.prems escape_char_hd [of c] show ?thesis
      by (cases "escape_char c") auto
  next
    case (Cons d t')
    with Cons.prems have "escape_char c @ concat (map escape_char s) @ CHR 0x22 # x =
        escape_char d @ concat (map escape_char t') @ CHR 0x22 # y"
      by simp
    from escape_char_sep [OF this] Cons.IH [of t'] Cons show ?thesis by auto
  qed
qed

lemma quote_sep: "quote s @ x = quote t @ y \<Longrightarrow> s = t \<and> x = y"
  using escape_string_sep [of s x t y] by (simp add: quote_def)

text \<open>Canonical data: every object lists its keys in strictly increasing order.\<close>

fun canonical :: "json \<Rightarrow> bool" where
  "canonical (JArr xs) \<longleftrightarrow> list_all canonical xs"
| "canonical (JObj kvs) \<longleftrightarrow>
     sorted_wrt (<) (map fst kvs) \<and> list_all (\<lambda>(k, v). canonical v) kvs"
| "canonical _ \<longleftrightarrow> True"

definition field :: "string \<times> string \<Rightarrow> string" where
  "field kv = quote (fst kv) @ '':'' @ snd kv"

lemma sort_key_fst_sorted:
  "sorted_wrt (<) (map fst kvs) \<Longrightarrow> sort_key fst (map (\<lambda>(k, v). (k, f v)) kvs) = map (\<lambda>(k, v). (k, f v)) kvs"
  by (rule sort_key_id_if_sorted)
    (auto simp: comp_def case_prod_beta strict_sorted_imp_sorted)

lemma dumps_canonical_obj:
  "canonical (JObj kvs) \<Longrightarrow>
     dumps (JObj kvs) = ''{'' @ join '','' (map (\<lambda>(k, v). field (k, dumps v)) kvs) @ ''}''"
  by (simp add: sort_key_fst_sorted field_def comp_def) (simp add: case_prod_unfold)

text \<open>A delimited list of delimited items is separated from what follows it.\<close>

lemma join_Cons: "join sep (x # xs) = x @ (if xs = [] then [] else sep @ join sep xs)"
  by (cases xs) auto

lemma join_sep:
  assumes "\<And>a b u v. a \<in> set xs \<Longrightarrow> delimited u \<Longrightarrow> delimited v \<Longrightarrow>
      f a @ u = f b @ v \<Longrightarrow> P b \<Longrightarrow> a = b \<and> u = v"
    and ne: "\<And>a. f a \<noteq> [] \<and> hd (f a) \<noteq> c"
    and c: "c = CHR '']'' \<or> c = CHR ''}''"
    and "list_all P ys"
    and "join '','' (map f xs) @ c # x = join '','' (map f ys) @ c # y"
  shows "xs = ys \<and> x = y"
  using assms(1,4,5)
proof (induction xs arbitrary: ys)
  case Nil
  show ?case
  proof (cases ys)
    case Nil
    with Nil.prems show ?thesis by simp
  next
    case (Cons b zs)
    with Nil.prems(3) ne [of b] show ?thesis
      by (cases "f b") (auto simp: join_Cons)
  qed
next
  case (Cons a as)
  show ?case
  proof (cases ys)
    case Nil
    with Cons.prems(3) ne [of a] show ?thesis
      by (cases "f a") (auto simp: join_Cons)
  next
    case (Cons b bs)
    define u where "u = (if as = [] then [] else '','' @ join '','' (map f as)) @ c # x"
    define v where "v = (if bs = [] then [] else '','' @ join '','' (map f bs)) @ c # y"
    have uv: "delimited u" "delimited v"
      using c by (auto simp: u_def v_def)
    have eq: "f a @ u = f b @ v"
      using Cons.prems(3) Cons by (simp add: join_Cons u_def v_def)
    have ab: "a = b \<and> u = v"
      using Cons.prems(1) [OF _ uv eq] Cons.prems(2) Cons by simp
    have "as = bs \<and> x = y"
    proof (cases "as = [] \<or> bs = []")
      case True
      with ab c show ?thesis by (auto simp: u_def v_def split: if_splits)
    next
      case False
      with ab have eq: "join '','' (map f as) @ c # x = join '','' (map f bs) @ c # y"
        by (simp add: u_def v_def)
      have all: "list_all P bs" using Cons.prems(2) Cons by simp
      show ?thesis
      proof (rule Cons.IH)
        show "a' = b' \<and> u' = v'" if "a' \<in> set as" "delimited u'" "delimited v'"
          "f a' @ u' = f b' @ v'" "P b'" for a' b' u' v'
          using that by (intro Cons.prems(1)) simp_all
      qed (use eq all in simp_all)
    qed
    with ab Cons show ?thesis by simp
  qed
qed

lemma dumps_hd:
  "dumps v \<noteq> [] \<and> hd (dumps v) \<noteq> CHR '']'' \<and> hd (dumps v) \<noteq> CHR ''}''"
proof (cases v)
  case (JInt i)
  have "show_nat n \<noteq> [] \<and> hd (show_nat n) \<noteq> CHR '']'' \<and> hd (show_nat n) \<noteq> CHR ''}''" for n
    using show_nat_digits [of n] show_nat_nonempty [of n]
    by (cases "show_nat n") (auto simp: is_digit_def)
  with JInt show ?thesis by (simp add: show_int_def)
qed (auto simp: quote_def)

lemma field_hd: "field kv \<noteq> [] \<and> hd (field kv) \<noteq> CHR ''}''"
  by (simp add: field_def quote_def)

text \<open>The first character of a serialization says which kind of value it is.\<close>

fun kind_char :: "json \<Rightarrow> char" where
  "kind_char JNull = CHR ''n''"
| "kind_char (JBool b) = (if b then CHR ''t'' else CHR ''f'')"
| "kind_char (JInt i) = CHR ''0''"
| "kind_char (JStr s) = CHR 0x22"
| "kind_char (JArr xs) = CHR ''[''"
| "kind_char (JObj kvs) = CHR ''{''"

definition char_kind :: "char \<Rightarrow> char" where
  "char_kind c = (if is_digit c \<or> c = CHR ''-'' then CHR ''0'' else c)"

lemma char_kind_dumps: "char_kind (hd (dumps v)) = kind_char v"
proof (cases v)
  case (JInt i)
  have "show_nat n \<noteq> [] \<and> is_digit (hd (show_nat n))" for n
    using show_nat_digits [of n] show_nat_nonempty [of n] by (cases "show_nat n") auto
  with JInt show ?thesis by (simp add: show_int_def char_kind_def)
qed (auto simp: quote_def char_kind_def is_digit_def)

lemma kind_sep: "dumps a @ x = dumps b @ y \<Longrightarrow> kind_char a = kind_char b"
  by (metis char_kind_dumps dumps_hd hd_append)

lemma dumps_sep:
  "dumps a @ x = dumps b @ y \<Longrightarrow> delimited x \<Longrightarrow> delimited y \<Longrightarrow>
     canonical a \<Longrightarrow> canonical b \<Longrightarrow> a = b \<and> x = y"
proof (induction a arbitrary: b x y rule: dumps.induct)
  case 1
  with kind_sep [OF 1(1)] show ?case by (cases b) (auto split: if_splits)
next
  case (2 p)
  with kind_sep [OF 2(1)] show ?case by (cases b) (auto split: if_splits)
next
  case (3 i)
  from kind_sep [OF 3(1)] obtain j where b: "b = JInt j" by (cases b) (auto split: if_splits)
  with 3 show_int_sep [of x y i j] show ?case by simp
next
  case (4 s)
  from kind_sep [OF 4(1)] obtain t where b: "b = JStr t" by (cases b) (auto split: if_splits)
  with 4 quote_sep [of s x t y] show ?case by simp
next
  case (5 xs)
  from kind_sep [OF 5(2)] obtain ys where b: "b = JArr ys" by (cases b) (auto split: if_splits)
  have "xs = ys \<and> x = y"
  proof (rule join_sep [where f = dumps and P = canonical])
    show "list_all canonical ys" using 5(6) b by simp
    show "join '','' (map dumps xs) @ CHR '']'' # x = join '','' (map dumps ys) @ CHR '']'' # y"
      using 5(2) b by simp
    show "v = w \<and> p = q" if "v \<in> set xs" "delimited p" "delimited q"
      "dumps v @ p = dumps w @ q" "canonical w" for v w p q
      using 5(1) [OF that(1,4,2,3)] 5(5) that by (simp add: list_all_iff)
  qed (use dumps_hd in auto)
  with b show ?case by simp
next
  case (6 kvs)
  from kind_sep [OF 6(2)] obtain lvs where b: "b = JObj lvs" by (cases b) (auto split: if_splits)
  have "kvs = lvs \<and> x = y"
  proof (rule join_sep [where f = "\<lambda>(k, v). field (k, dumps v)" and P = "\<lambda>(k, v). canonical v"])
    show "list_all (\<lambda>(k, v). canonical v) lvs" using 6(6) b by simp
    show "join '','' (map (\<lambda>(k, v). field (k, dumps v)) kvs) @ CHR ''}'' # x =
        join '','' (map (\<lambda>(k, v). field (k, dumps v)) lvs) @ CHR ''}'' # y"
      using 6(2) dumps_canonical_obj [OF 6(5)] dumps_canonical_obj [of lvs] 6(6) b
      by (simp del: dumps.simps)
    show "kv = lw \<and> p = q" if "kv \<in> set kvs" "delimited p" "delimited q"
      "(case kv of (k, v) \<Rightarrow> field (k, dumps v)) @ p = (case lw of (k, v) \<Rightarrow> field (k, dumps v)) @ q"
      "case lw of (k, v) \<Rightarrow> canonical v" for kv lw p q
    proof -
      obtain k v l w where kl: "kv = (k, v)" "lw = (l, w)" by (cases kv; cases lw) auto
      with that(4) have "quote k @ CHR '':'' # dumps v @ p = quote l @ CHR '':'' # dumps w @ q"
        by (simp add: field_def)
      from quote_sep [OF this] have "k = l" and d: "dumps v @ p = dumps w @ q" by auto
      moreover have "canonical v" using 6(5) that(1) kl by (auto simp: list_all_iff)
      ultimately show ?thesis
        using 6(1) [OF that(1) _ d that(2,3)] that(5) kl by simp
    qed
  qed (use field_hd in auto)
  with b show ?case by simp
qed

lemma dumps_inj: "canonical a \<Longrightarrow> canonical b \<Longrightarrow> dumps a = dumps b \<longleftrightarrow> a = b"
  using dumps_sep [of a "[]" b "[]"] by auto

subsection \<open>Canonical data of a value\<close>

text \<open>A Python value whose dictionaries and models have no repeated key, which every one has.\<close>

fun wf_py :: "pyval \<Rightarrow> bool" where
  "wf_py (PSeq xs) \<longleftrightarrow> list_all wf_py xs"
| "wf_py (PSet xs) \<longleftrightarrow> list_all wf_py xs"
| "wf_py (PDict kvs) \<longleftrightarrow> distinct (map fst kvs) \<and> list_all (\<lambda>(k, v). wf_py v) kvs"
| "wf_py (PModel kvs) \<longleftrightarrow> distinct (map fst kvs) \<and> list_all (\<lambda>(k, v). wf_py v) kvs"
| "wf_py _ \<longleftrightarrow> True"

lemma sorted_wrt_sort_key:
  "distinct (map fst kvs) \<Longrightarrow> sorted_wrt (<) (map fst (sort_key fst kvs))"
  by (simp add: strict_sorted_iff distinct_map inj_on_def)

lemma keys_map_snd: "map fst (map (\<lambda>(k, v). (k, f v)) kvs) = map fst kvs"
  by (simp add: comp_def case_prod_beta)

lemma canonical_object:
  assumes "distinct (map fst kvs)" and "\<And>k v. (k, v) \<in> set kvs \<Longrightarrow> canonical (f v)"
  shows "canonical (JObj (sort_key fst (map (\<lambda>(k, v). (k, f v)) kvs)))"
  using assms sorted_wrt_sort_key [of "map (\<lambda>(k, v). (k, f v)) kvs"]
  by (auto simp: keys_map_snd list_all_iff simp del: map_map)

lemma distinct_keys_filter: "distinct (map fst kvs) \<Longrightarrow> distinct (map fst (filter P kvs))"
  by (simp add: distinct_map inj_on_def)

lemma canonical_canonical_data: "wf_py v \<Longrightarrow> canonical (canonical_data v)"
proof (induction v rule: canonical_data.induct)
  case (7 kvs)
  then show ?case
    unfolding canonical_data.simps
    by (intro canonical_object) (auto simp: list_all_iff)
next
  case (8 kvs)
  then show ?case
    unfolding canonical_data.simps
    by (intro canonical_object) (auto simp: list_all_iff distinct_keys_filter)
qed (auto simp: list_all_iff)

lemma canonical_strip: "canonical j \<Longrightarrow> canonical (strip_data ex j)"
proof (induction ex j rule: strip_data.induct)
  case (1 ex kvs)
  have "sorted_wrt (<) (map fst (filter P kvs))" for P
    using 1(2) by (simp add: sorted_wrt_map sorted_wrt_filter)
  with 1 show ?case
    by (auto simp: list_all_iff keys_map_snd simp del: map_map)
qed (auto simp: list_all_iff)

text \<open>Dictionaries with the same items serialize alike, in whatever order they were built.\<close>

lemma sort_key_fst_cong:
  assumes "distinct (map fst kvs)" "distinct (map fst lvs)" "set kvs = set lvs"
  shows "sort_key fst kvs = sort_key fst lvs"
proof (rule map_sorted_distinct_set_unique [where f = fst])
  show "inj_on fst (set (sort_key fst kvs) \<union> set (sort_key fst lvs))"
    using assms by (simp add: distinct_map)
  show "distinct (map fst (sort_key fst kvs))" "distinct (map fst (sort_key fst lvs))"
    using assms(1,2) by (simp_all add: distinct_map)
qed (use assms(3) in simp_all)

lemma canonical_data_dict_cong:
  assumes "distinct (map fst kvs)" "distinct (map fst lvs)" "set kvs = set lvs"
  shows "canonical_data (PDict kvs) = canonical_data (PDict lvs)"
  using assms sort_key_fst_cong [of "map (\<lambda>(k, v). (k, canonical_data v)) kvs"
      "map (\<lambda>(k, v). (k, canonical_data v)) lvs"]
  by (simp add: keys_map_snd del: map_map)

subsection \<open>What a semantic hash identifies\<close>

definition semantic_bytes :: "string list option \<Rightarrow> pyval \<Rightarrow> string" where
  "semantic_bytes ex v = dumps (strip_data (excluded_or_default ex) (canonical_data v))"

lemma semantic_hash_bytes:
  "semantic_hash_excluding sha ex v = sha256_bytes sha (semantic_bytes ex v)"
  by (simp add: semantic_hash_excluding_def semantic_bytes_def)

lemma semantic_bytes_eq_iff:
  assumes "wf_py v" "wf_py w"
  shows "semantic_bytes ex v = semantic_bytes ex w \<longleftrightarrow>
    strip_data (excluded_or_default ex) (canonical_data v) =
    strip_data (excluded_or_default ex) (canonical_data w)"
  using assms by (simp add: semantic_bytes_def dumps_inj canonical_strip canonical_canonical_data)

text \<open>
  C15: Under a digest that does not collide on the two serializations, two values have the
  same semantic hash exactly when their canonical data agree after the excluded fields are
  removed: the serialization itself never merges different data.
\<close>
theorem semantic_hash_eq_iff:
  assumes "wf_py v" and "wf_py w"
    and "sha (semantic_bytes ex v) = sha (semantic_bytes ex w) \<Longrightarrow>
      semantic_bytes ex v = semantic_bytes ex w"
  shows "semantic_hash_excluding sha ex v = semantic_hash_excluding sha ex w \<longleftrightarrow>
    strip_data (excluded_or_default ex) (canonical_data v) =
    strip_data (excluded_or_default ex) (canonical_data w)"
  using assms semantic_bytes_eq_iff [OF assms(1,2), of ex]
  by (auto simp: semantic_hash_bytes sha256_bytes_def semantic_bytes_def)

theorem semantic_hash_eq_iff_witness:
  "semantic_hash id (PDict [(''b'', PInt 1), (''a'', PStr ''x''), (''run_id'', PInt 7)]) =
     semantic_hash id (PDict [(''a'', PStr ''x''), (''b'', PInt 1)])
   \<and> semantic_hash id (PDict [(''a'', PInt 1)]) \<noteq> semantic_hash id (PDict [(''a'', PInt 2)])"
  using semantic_hash_eq_iff [of "PDict [(''b'', PInt 1), (''a'', PStr ''x''), (''run_id'', PInt 7)]"
      "PDict [(''a'', PStr ''x''), (''b'', PInt 1)]" id None]
    semantic_hash_eq_iff [of "PDict [(''a'', PInt 1)]" "PDict [(''a'', PInt 2)]" id None]
  by (simp add: excluded_or_default_def default_excluded_def)

lemma strip_data_dict_filter:
  "strip_data ex (canonical_data (PDict kvs)) =
   strip_data ex (canonical_data (PDict (filter (\<lambda>(k, v). k \<notin> set ex) kvs)))"
proof -
  let ?cd = "map (\<lambda>(k, v). (k, canonical_data v))"
  have "filter (\<lambda>(k, v). k \<notin> set ex) (sort_key fst (?cd xs)) =
      sort_key fst (?cd (filter (\<lambda>(k, v). k \<notin> set ex) xs))" for xs
    by (simp add: filter_sort filter_map comp_def case_prod_unfold)
  from this [of kvs] this [of "filter (\<lambda>(k, v). k \<notin> set ex) kvs"] show ?thesis
    by simp
qed

text \<open>
  An identity does not depend on the order a dictionary was built in, and does not
  change when a volatile field (\<open>created_at\<close>, \<open>packet_id\<close> and the others of the default
  exclusion set) is added, changed or removed at its top level.
\<close>
theorem stable_id_ignores_order_and_volatile:
  assumes "distinct (map fst kvs)" and "distinct (map fst lvs)"
    and "set (filter (\<lambda>(k, v). k \<notin> set default_excluded) kvs) =
      set (filter (\<lambda>(k, v). k \<notin> set default_excluded) lvs)"
  shows "stable_id sha pre (PDict kvs) = stable_id sha pre (PDict lvs)"
proof -
  let ?keep = "filter (\<lambda>(k, v). k \<notin> set default_excluded)"
  have "strip_data default_excluded (canonical_data (PDict kvs)) =
      strip_data default_excluded (canonical_data (PDict lvs))"
    using canonical_data_dict_cong [of "?keep kvs" "?keep lvs"] assms
    by (metis distinct_keys_filter strip_data_dict_filter)
  then show ?thesis
    by (simp add: stable_id_def semantic_hash_excluding_def excluded_or_default_def)
qed

theorem stable_id_ignores_order_and_volatile_witness:
  "stable_id id ''edge'' (PDict [(''b'', PInt 1), (''a'', PInt 2), (''run_id'', PInt 3)]) =
   stable_id id ''edge'' (PDict [(''a'', PInt 2), (''b'', PInt 1), (''packet_id'', PStr ''p'')])"
  by (rule stable_id_ignores_order_and_volatile) (simp_all add: default_excluded_def insert_commute)

end
