(* ===== verification/Confidence.thy ===== *)
theory Confidence
  imports Prelude
begin

text \<open>
  The decomposed confidence model of \<open>domain/confidence.py\<close>: the enumerations in their
  declaration order, the assessment record and its named constructors. The two ranked
  enumerations are instances of \<open>linorder\<close>, weakest first, which is the order
  \<open>_CONFIDENCE_ORDER\<close> of \<open>topology/impact.py\<close> and \<open>_LEVEL_ORDER\<close>,
  \<open>_AUTHORITY_ORDER\<close> of \<open>stages/reconcile_assertions.py\<close> declare.
\<close>

datatype confidence_level = level_low | level_medium | level_high

datatype evidence_strength =
  strength_none | strength_weak | strength_corroborated | strength_direct

datatype derivation_method =
  method_declared | method_deterministic | method_cross_record | method_heuristic
  | method_model_assisted | method_unknown

datatype authority =
  auth_source | auth_validated_machine | auth_derived | auth_candidate | auth_unknown

datatype completeness = comp_partial | comp_sufficient | comp_complete

datatype conflict_status = conflict_none | conflict_possible | conflict_confirmed

record confidence_assessment =
  level :: confidence_level
  evidence_strength :: evidence_strength
  derivation_method :: derivation_method
  conf_authority :: authority
  completeness :: completeness
  conf_conflict_status :: conflict_status

subsection \<open>The values of the enumerations\<close>

fun level_value :: "confidence_level \<Rightarrow> string" where
  "level_value level_low = ''low''"
| "level_value level_medium = ''medium''"
| "level_value level_high = ''high''"

fun strength_value :: "evidence_strength \<Rightarrow> string" where
  "strength_value strength_none = ''none''"
| "strength_value strength_weak = ''weak''"
| "strength_value strength_corroborated = ''corroborated''"
| "strength_value strength_direct = ''direct''"

fun method_value :: "derivation_method \<Rightarrow> string" where
  "method_value method_declared = ''declared''"
| "method_value method_deterministic = ''deterministic''"
| "method_value method_cross_record = ''cross-record''"
| "method_value method_heuristic = ''heuristic''"
| "method_value method_model_assisted = ''model-assisted''"
| "method_value method_unknown = ''unknown''"

fun authority_value :: "authority \<Rightarrow> string" where
  "authority_value auth_source = ''source''"
| "authority_value auth_validated_machine = ''validated-machine''"
| "authority_value auth_derived = ''derived''"
| "authority_value auth_candidate = ''candidate''"
| "authority_value auth_unknown = ''unknown''"

fun completeness_value :: "completeness \<Rightarrow> string" where
  "completeness_value comp_partial = ''partial''"
| "completeness_value comp_sufficient = ''sufficient''"
| "completeness_value comp_complete = ''complete''"

fun conflict_status_value :: "conflict_status \<Rightarrow> string" where
  "conflict_status_value conflict_none = ''none''"
| "conflict_status_value conflict_possible = ''possible''"
| "conflict_status_value conflict_confirmed = ''confirmed''"

subsection \<open>The ranked enumerations\<close>

fun level_rank :: "confidence_level \<Rightarrow> nat" where
  "level_rank level_low = 0"
| "level_rank level_medium = 1"
| "level_rank level_high = 2"

fun authority_rank :: "authority \<Rightarrow> nat" where
  "authority_rank auth_unknown = 0"
| "authority_rank auth_candidate = 1"
| "authority_rank auth_derived = 2"
| "authority_rank auth_validated_machine = 3"
| "authority_rank auth_source = 4"

lemma level_rank_inj: "level_rank a = level_rank b \<longleftrightarrow> a = b"
  by (cases a; cases b) auto

lemma authority_rank_inj: "authority_rank a = authority_rank b \<longleftrightarrow> a = b"
  by (cases a; cases b) auto

instantiation confidence_level :: linorder
begin
definition less_eq_confidence_level :: "confidence_level \<Rightarrow> confidence_level \<Rightarrow> bool" where
  "less_eq_confidence_level a b \<longleftrightarrow> level_rank a \<le> level_rank b"
definition less_confidence_level :: "confidence_level \<Rightarrow> confidence_level \<Rightarrow> bool" where
  "less_confidence_level a b \<longleftrightarrow> level_rank a < level_rank b"
instance
  by standard
    (auto simp: less_eq_confidence_level_def less_confidence_level_def level_rank_inj)
end

instantiation authority :: linorder
begin
definition less_eq_authority :: "authority \<Rightarrow> authority \<Rightarrow> bool" where
  "less_eq_authority a b \<longleftrightarrow> authority_rank a \<le> authority_rank b"
definition less_authority :: "authority \<Rightarrow> authority \<Rightarrow> bool" where
  "less_authority a b \<longleftrightarrow> authority_rank a < authority_rank b"
instance
  by standard (auto simp: less_eq_authority_def less_authority_def authority_rank_inj)
end

lemmas rank_defs = less_eq_confidence_level_def less_confidence_level_def
  less_eq_authority_def less_authority_def

lemma level_bounds: "level_low \<le> l" "l \<le> level_high"
  by (cases l; simp add: rank_defs)+

lemma authority_bounds: "auth_unknown \<le> a" "a \<le> auth_source"
  by (cases a; simp add: rank_defs)+

subsection \<open>Named assessments\<close>

definition confidence_direct :: "bool \<Rightarrow> confidence_assessment" where
  "confidence_direct complete =
     \<lparr>level = level_high, evidence_strength = strength_direct,
      derivation_method = method_declared, conf_authority = auth_source,
      completeness = (if complete then comp_complete else comp_sufficient),
      conf_conflict_status = conflict_none\<rparr>"

definition confidence_deterministic :: "bool \<Rightarrow> confidence_assessment" where
  "confidence_deterministic corroborated =
     \<lparr>level = (if corroborated then level_high else level_medium),
      evidence_strength = (if corroborated then strength_corroborated else strength_direct),
      derivation_method = method_deterministic, conf_authority = auth_validated_machine,
      completeness = comp_sufficient, conf_conflict_status = conflict_none\<rparr>"

definition confidence_candidate :: confidence_assessment where
  "confidence_candidate =
     \<lparr>level = level_low, evidence_strength = strength_weak,
      derivation_method = method_heuristic, conf_authority = auth_candidate,
      completeness = comp_partial, conf_conflict_status = conflict_none\<rparr>"

definition confidence_unknown :: confidence_assessment where
  "confidence_unknown =
     \<lparr>level = level_low, evidence_strength = strength_none,
      derivation_method = method_unknown, conf_authority = auth_unknown,
      completeness = comp_partial, conf_conflict_status = conflict_none\<rparr>"

subsection \<open>The weakest of several grades\<close>

text \<open>
  \<open>min(..., key=ORDER.index, default=d)\<close> over a ranked enumeration: the default for no
  grade, else the least.
\<close>

definition weakest :: "'a::linorder \<Rightarrow> 'a list \<Rightarrow> 'a" where
  "weakest d xs = (case xs of [] \<Rightarrow> d | y # ys \<Rightarrow> fold min ys y)"

lemma weakest_Min: "xs \<noteq> [] \<Longrightarrow> weakest d xs = Min (set xs)"
  by (cases xs) (simp_all add: weakest_def Min.set_eq_fold [symmetric] del: list.set)

lemma weakest_le: "x \<in> set xs \<Longrightarrow> weakest d xs \<le> x"
  by (cases "xs = []") (auto simp: weakest_Min)

lemma weakest_mem: "xs \<noteq> [] \<Longrightarrow> weakest d xs \<in> set xs"
  by (simp add: weakest_Min)

lemma weakest_cong: "set xs = set ys \<Longrightarrow> weakest d xs = weakest d ys"
  by (cases "xs = []"; cases "ys = []") (auto simp: weakest_Min)

end
