(* ===== verification/Evidence.thy ===== *)
theory Evidence
  imports Canonical Confidence
begin

text \<open>
  Evidence value objects, the second part of \<open>run/evidence.py\<close>: portable source paths,
  structured locators, source references with their validators, and evidence records whose
  identity is the semantic hash of what they state. A pydantic validator that raises is a
  constructor returning \<open>Inl\<close> of the error.
\<close>

subsection \<open>Portable source paths\<close>

datatype path_error = AbsolutePath string | EscapesRoot string

fun split_on :: "char \<Rightarrow> string \<Rightarrow> string list" where
  "split_on c [] = [[]]"
| "split_on c (x # xs) =
     (if x = c then [] # split_on c xs
      else (case split_on c xs of [] \<Rightarrow> [[x]] | p # ps \<Rightarrow> (x # p) # ps))"

text \<open>\<open>PurePosixPath(raw).as_posix()\<close> for a relative \<open>raw\<close>.\<close>

definition posix_parts :: "string \<Rightarrow> string list" where
  "posix_parts raw = filter (\<lambda>p. p \<noteq> [] \<and> p \<noteq> ''.'') (split_on CHR ''/'' raw)"

definition posix_path :: "string \<Rightarrow> string" where
  "posix_path raw = (let ps = posix_parts raw in if ps = [] then ''.'' else join ''/'' ps)"

definition ascii_letter :: "char \<Rightarrow> bool" where
  "ascii_letter c \<longleftrightarrow>
     (65 \<le> (of_char c :: nat) \<and> (of_char c :: nat) \<le> 90) \<or>
     (97 \<le> (of_char c :: nat) \<and> (of_char c :: nat) \<le> 122)"

text \<open>The pattern \<open>^[A-Za-z]:[\\/]\<close>.\<close>

fun windows_absolute :: "string \<Rightarrow> bool" where
  "windows_absolute (a # b # c # rest) \<longleftrightarrow>
     ascii_letter a \<and> b = CHR '':'' \<and> (c = CHR 0x5C \<or> c = CHR ''/'')"
| "windows_absolute _ \<longleftrightarrow> False"

text \<open>
  The parameter \<open>relativize\<close> is \<open>None\<close> when no repository root is given; otherwise it stands
  for \<open>candidate.resolve().relative_to(root.resolve()).as_posix()\<close>, which reads the file
  system, with \<open>None\<close> for the \<open>ValueError\<close> of a path outside the root.
\<close>

definition normalize_source_path ::
  "(string \<Rightarrow> string option) option \<Rightarrow> string \<Rightarrow> path_error + string" where
  "normalize_source_path relativize path =
     (let raw0 = map (\<lambda>c. if c = CHR 0x5C then CHR ''/'' else c) path;
          raw = (case relativize of
              None \<Rightarrow> Inr raw0
            | Some rel \<Rightarrow>
                if startswith path ''/''
                then (case rel path of None \<Rightarrow> Inl (EscapesRoot path) | Some r \<Rightarrow> Inr r)
                else Inr raw0)
      in case raw of
           Inl e \<Rightarrow> Inl e
         | Inr raw \<Rightarrow>
             if startswith raw ''/'' \<or> windows_absolute raw then Inl (AbsolutePath path)
             else (let normalized = posix_path raw in
               if normalized = '''' \<or> normalized = ''.'' then Inr ''.''
               else if normalized = ''..'' \<or> startswith normalized ''../''
                 then Inl (EscapesRoot path)
               else Inr normalized))"

subsection \<open>Locators\<close>

datatype source_locator =
    LineLocator (start_line: int) (end_line: int)
  | PdfLocator (page_number: int) (pdf_block_index: int)
  | DocxLocator (docx_block_index: int) (block_kind: string) (docx_part: string)
  | PptxLocator (slide_number: int) (shape_index: int) (pptx_part: string)
  | SpreadsheetLocator (sheet: string) (cell_or_range: string)
  | NotebookLocator (cell_index: int) (cell_type: string)
      (cell_start_line: "int option") (cell_end_line: "int option")
  | CsvLocator (csv_row: int) (csv_column: "string option")
  | HtmlLocator (stable_node_index: int) (node_path: string)

fun locator_kind :: "source_locator \<Rightarrow> string" where
  "locator_kind (LineLocator _ _) = ''line''"
| "locator_kind (PdfLocator _ _) = ''pdf''"
| "locator_kind (DocxLocator _ _ _) = ''docx''"
| "locator_kind (PptxLocator _ _ _) = ''pptx''"
| "locator_kind (SpreadsheetLocator _ _) = ''spreadsheet''"
| "locator_kind (NotebookLocator _ _ _ _) = ''notebook''"
| "locator_kind (CsvLocator _ _) = ''csv''"
| "locator_kind (HtmlLocator _ _) = ''html''"

text \<open>The field bounds the models declare.\<close>

fun locator_valid :: "source_locator \<Rightarrow> bool" where
  "locator_valid (LineLocator s e) \<longleftrightarrow> 1 \<le> s \<and> 1 \<le> e"
| "locator_valid (PdfLocator p b) \<longleftrightarrow> 1 \<le> p \<and> 0 \<le> b"
| "locator_valid (DocxLocator b _ _) \<longleftrightarrow> 0 \<le> b"
| "locator_valid (PptxLocator s i _) \<longleftrightarrow> 1 \<le> s \<and> 0 \<le> i"
| "locator_valid (SpreadsheetLocator _ _) \<longleftrightarrow> True"
| "locator_valid (NotebookLocator c _ s e) \<longleftrightarrow> 0 \<le> c \<and> pred_option ((\<le>) 1) s \<and> pred_option ((\<le>) 1) e"
| "locator_valid (CsvLocator r _) \<longleftrightarrow> 1 \<le> r"
| "locator_valid (HtmlLocator i _) \<longleftrightarrow> 0 \<le> i"

definition line_locator_kinds :: "string list" where
  "line_locator_kinds = [''line'']"

definition py_opt :: "('a \<Rightarrow> pyval) \<Rightarrow> 'a option \<Rightarrow> pyval" where
  "py_opt f v = (case v of None \<Rightarrow> PNone | Some x \<Rightarrow> f x)"

fun py_locator :: "source_locator \<Rightarrow> pyval" where
  "py_locator (LineLocator s e) =
     PModel [(''kind'', PStr ''line''), (''start_line'', PInt s), (''end_line'', PInt e)]"
| "py_locator (PdfLocator p b) =
     PModel [(''kind'', PStr ''pdf''), (''page_number'', PInt p), (''block_index'', PInt b)]"
| "py_locator (DocxLocator b k p) =
     PModel [(''kind'', PStr ''docx''), (''block_index'', PInt b), (''block_kind'', PStr k),
       (''part'', PStr p)]"
| "py_locator (PptxLocator s i p) =
     PModel [(''kind'', PStr ''pptx''), (''slide_number'', PInt s), (''shape_index'', PInt i),
       (''part'', PStr p)]"
| "py_locator (SpreadsheetLocator s c) =
     PModel [(''kind'', PStr ''spreadsheet''), (''sheet'', PStr s), (''cell_or_range'', PStr c)]"
| "py_locator (NotebookLocator c t s e) =
     PModel [(''kind'', PStr ''notebook''), (''cell_index'', PInt c), (''cell_type'', PStr t),
       (''start_line'', py_opt PInt s), (''end_line'', py_opt PInt e)]"
| "py_locator (CsvLocator r c) =
     PModel [(''kind'', PStr ''csv''), (''row'', PInt r), (''column'', py_opt PStr c)]"
| "py_locator (HtmlLocator i p) =
     PModel [(''kind'', PStr ''html''), (''stable_node_index'', PInt i), (''node_path'', PStr p)]"

subsection \<open>Source references and evidence records\<close>

record evidence_source_ref =
  uri :: "string option"
  source_path :: "string option"
  line_number :: "int option"
  content_hash :: "string option"
  ref_packet_id :: "string option"
  ref_source_revision :: "string option"
  locator :: "source_locator option"

datatype source_ref_error =
    BadSourcePath path_error
  | LineNumberBelowOne
  | LocatorOutOfBounds
  | LineNumberOnStructuredLocator string
  | LineNumberDisagrees int int

definition line_number_agrees_with_locator ::
  "evidence_source_ref \<Rightarrow> source_ref_error + evidence_source_ref" where
  "line_number_agrees_with_locator r = (case locator r of
       None \<Rightarrow> Inr r
     | Some (LineLocator s e) \<Rightarrow>
         (case line_number r of
            Some n \<Rightarrow> if n \<noteq> s then Inl (LineNumberDisagrees n s) else Inr r
          | None \<Rightarrow> Inr r)
     | Some l \<Rightarrow>
         (if line_number r \<noteq> None then Inl (LineNumberOnStructuredLocator (locator_kind l))
          else Inr r))"

text \<open>Constructing a reference runs the field constraints, then the model validator.\<close>

definition make_source_ref ::
  "evidence_source_ref \<Rightarrow> source_ref_error + evidence_source_ref" where
  "make_source_ref r =
     (if \<not> pred_option ((\<le>) 1) (line_number r) then Inl LineNumberBelowOne
      else if \<not> pred_option locator_valid (locator r) then Inl LocatorOutOfBounds
      else (case source_path r of
          None \<Rightarrow> line_number_agrees_with_locator r
        | Some p \<Rightarrow> (case normalize_source_path None p of
              Inl e \<Rightarrow> Inl (BadSourcePath e)
            | Inr q \<Rightarrow> line_number_agrees_with_locator (r\<lparr>source_path := Some q\<rparr>))))"

definition py_source_ref :: "evidence_source_ref \<Rightarrow> pyval" where
  "py_source_ref r = PModel
     [(''uri'', py_opt PStr (uri r)), (''source_path'', py_opt PStr (source_path r)),
      (''line_number'', py_opt PInt (line_number r)),
      (''content_hash'', py_opt PStr (content_hash r)),
      (''packet_id'', py_opt PStr (ref_packet_id r)),
      (''source_revision'', py_opt PStr (ref_source_revision r)),
      (''locator'', py_opt py_locator (locator r))]"

datatype evidence_class =
    class_observed | class_declared | class_derived | class_assisted | class_projected
  | class_validated | class_committed

datatype evidence_source_type =
    type_file | type_packet | type_inference | type_validation | type_unknown

fun evidence_class_value :: "evidence_class \<Rightarrow> string" where
  "evidence_class_value class_observed = ''observed''"
| "evidence_class_value class_declared = ''declared''"
| "evidence_class_value class_derived = ''derived''"
| "evidence_class_value class_assisted = ''assisted''"
| "evidence_class_value class_projected = ''projected''"
| "evidence_class_value class_validated = ''validated''"
| "evidence_class_value class_committed = ''committed''"

fun source_type_value :: "evidence_source_type \<Rightarrow> string" where
  "source_type_value type_file = ''file''"
| "source_type_value type_packet = ''packet''"
| "source_type_value type_inference = ''inference''"
| "source_type_value type_validation = ''validation''"
| "source_type_value type_unknown = ''unknown''"

record evidence_record =
  evidence_id :: ident
  ev_subject_id :: ident
  ev_field :: "string option"
  stage :: string
  evidence_class :: evidence_class
  source_type :: evidence_source_type
  source_ref :: evidence_source_ref
  ev_value :: pyval
  ev_confidence :: confidence_assessment
  producer :: string
  producer_version :: string
  created_at :: string

text \<open>
  \<open>make_evidence_record\<close>: the identity names everything the record states except its
  confidence and its time; \<open>now\<close> is the clock, read when no time is given.
\<close>

definition evidence_identity ::
  "ident \<Rightarrow> string option \<Rightarrow> string \<Rightarrow> evidence_class \<Rightarrow> evidence_source_type \<Rightarrow>
   evidence_source_ref \<Rightarrow> pyval \<Rightarrow> string \<Rightarrow> string \<Rightarrow> pyval" where
  "evidence_identity subject fld stg cls typ ref val prdc ver = PDict
     [(''subject_id'', PStr subject), (''field'', py_opt PStr fld), (''stage'', PStr stg),
      (''evidence_class'', PStr (evidence_class_value cls)),
      (''source_type'', PStr (source_type_value typ)),
      (''source_ref'', py_source_ref ref), (''value'', val),
      (''producer'', PStr prdc), (''producer_version'', PStr ver)]"

definition make_evidence_record ::
  "(string \<Rightarrow> string) \<Rightarrow> string \<Rightarrow> ident \<Rightarrow> string option \<Rightarrow> string \<Rightarrow> evidence_class \<Rightarrow>
   evidence_source_type \<Rightarrow> evidence_source_ref \<Rightarrow> pyval \<Rightarrow> confidence_assessment \<Rightarrow>
   string \<Rightarrow> string \<Rightarrow> string option \<Rightarrow> evidence_record" where
  "make_evidence_record sha now subject fld stg cls typ ref val conf prdc ver at =
     \<lparr>evidence_id = stable_id sha ''evidence''
        (evidence_identity subject fld stg cls typ ref val prdc ver),
      ev_subject_id = subject, ev_field = fld, stage = stg, evidence_class = cls,
      source_type = typ, source_ref = ref, ev_value = val, ev_confidence = conf,
      producer = prdc, producer_version = ver,
      created_at = (case at of Some t \<Rightarrow> t | None \<Rightarrow> now)\<rparr>"

text \<open>The JSON view of an assessment.\<close>

definition confidence_view :: "confidence_assessment \<Rightarrow> pyval" where
  "confidence_view c = PModel
     [(''level'', PStr (level_value (level c))),
      (''evidence_strength'', PStr (strength_value (evidence_strength c))),
      (''derivation_method'', PStr (method_value (derivation_method c))),
      (''authority'', PStr (authority_value (conf_authority c))),
      (''completeness'', PStr (completeness_value (completeness c))),
      (''conflict_status'', PStr (conflict_status_value (conf_conflict_status c)))]"

subsection \<open>Normal form of source paths\<close>

lemma split_on_nonempty: "split_on c s \<noteq> []"
  by (induction c s rule: split_on.induct) (auto split: list.splits)

lemma split_on_parts: "p \<in> set (split_on c s) \<Longrightarrow> c \<notin> set p \<and> set p \<subseteq> set s"
  by (induction c s arbitrary: p rule: split_on.induct) (fastforce split: list.splits if_splits)+

lemma split_on_single: "c \<notin> set s \<Longrightarrow> split_on c s = [s]"
  by (induction c s rule: split_on.induct) auto

lemma split_on_append: "c \<notin> set s \<Longrightarrow> split_on c (s @ c # t) = s # split_on c t"
  by (induction s) (auto split: list.splits)

lemma split_on_join:
  "ps \<noteq> [] \<Longrightarrow> list_all (\<lambda>p. c \<notin> set p) ps \<Longrightarrow> split_on c (join [c] ps) = ps"
  by (induction "[c]" ps rule: join.induct) (auto simp: split_on_single split_on_append)

lemma set_join: "set (join sep ps) \<subseteq> set sep \<union> \<Union> (set ` set ps)"
  by (induction sep ps rule: join.induct) auto

definition normal_parts :: "string list \<Rightarrow> bool" where
  "normal_parts ps \<longleftrightarrow> list_all (\<lambda>p. p \<noteq> [] \<and> p \<noteq> ''.'' \<and> CHR ''/'' \<notin> set p) ps"

lemma normal_posix_parts: "normal_parts (posix_parts raw)"
  by (auto simp: normal_parts_def posix_parts_def list_all_iff dest: split_on_parts)

lemma posix_parts_join:
  "ps \<noteq> [] \<Longrightarrow> normal_parts ps \<Longrightarrow> posix_parts (join ''/'' ps) = ps"
  using split_on_join [of ps "CHR ''/''"]
  by (simp add: posix_parts_def normal_parts_def list_all_iff filter_id_conv)

lemma join_relative:
  assumes "ps \<noteq> []" "normal_parts ps"
  shows "join ''/'' ps \<noteq> []" "\<not> startswith (join ''/'' ps) ''/''" "join ''/'' ps \<noteq> ''.''"
proof -
  obtain p qs where ps: "ps = p # qs" using assms(1) by (cases ps) auto
  with assms(2) have p: "p \<noteq> []" "CHR ''/'' \<notin> set p" "p \<noteq> ''.''"
    by (auto simp: normal_parts_def)
  then obtain c cs where c: "p = c # cs" by (cases p) auto
  show "join ''/'' ps \<noteq> []" "\<not> startswith (join ''/'' ps) ''/''"
    using p c ps by (cases qs; auto simp: startswith_def)+
  show "join ''/'' ps \<noteq> ''.''"
    using posix_parts_join [OF assms] assms by (auto simp: posix_parts_def)
qed

lemma join_dotdot:
  assumes "ps \<noteq> []" "normal_parts ps"
  shows "join ''/'' ps = ''..'' \<or> startswith (join ''/'' ps) ''../'' \<longleftrightarrow> hd ps = ''..''"
proof -
  obtain p qs where ps: "ps = p # qs" using assms(1) by (cases ps) auto
  have np: "CHR ''/'' \<notin> set p" using assms(2) ps by (simp add: normal_parts_def)
  show ?thesis
  proof
    assume "join ''/'' ps = ''..'' \<or> startswith (join ''/'' ps) ''../''"
    then obtain t where "join ''/'' ps = ''..'' \<or> join ''/'' ps = ''..'' @ CHR ''/'' # t"
      by (auto simp: startswith_def prefix_def)
    then have "hd (split_on CHR ''/'' (join ''/'' ps)) = ''..''"
      by (auto simp: split_on_append split: list.splits)
    moreover have "split_on CHR ''/'' (join ''/'' ps) = ps"
      using assms by (intro split_on_join) (auto simp: normal_parts_def list_all_iff)
    ultimately show "hd ps = ''..''" by simp
  next
    assume "hd ps = ''..''"
    with ps show "join ''/'' ps = ''..'' \<or> startswith (join ''/'' ps) ''../''"
      by (cases qs) (auto simp: startswith_def)
  qed
qed

lemma normalize_Inr:
  assumes "normalize_source_path None path = Inr q"
  defines "raw \<equiv> map (\<lambda>c. if c = CHR 0x5C then CHR ''/'' else c) path"
  shows "\<not> startswith raw ''/''" "\<not> windows_absolute raw"
    "q = posix_path raw" "posix_parts raw = [] \<or> hd (posix_parts raw) \<noteq> ''..''"
  using assms join_dotdot [OF _ normal_posix_parts, of raw] join_relative [OF _ normal_posix_parts, of raw]
  by (auto simp: normalize_source_path_def posix_path_def Let_def split: if_splits)

lemma backslash_free: "CHR 0x5C \<notin> set q \<Longrightarrow> map (\<lambda>c. if c = CHR 0x5C then CHR ''/'' else c) q = q"
  by (rule map_idI) auto

lemma normalize_normal_form:
  assumes "normalize_source_path None path = Inr q"
  shows "\<not> startswith q ''/''" and "CHR 0x5C \<notin> set q"
    and "q = ''.'' \<or> (q = join ''/'' (posix_parts q) \<and> posix_parts q \<noteq> [] \<and>
           ''..'' \<noteq> hd (posix_parts q))"
    and "\<not> windows_absolute q \<Longrightarrow> normalize_source_path None q = Inr q"
proof -
  define raw where "raw = map (\<lambda>c. if c = CHR 0x5C then CHR ''/'' else c) path"
  note n = normalize_Inr [OF assms, folded raw_def]
  have raw_bs: "CHR 0x5C \<notin> set raw" by (auto simp: raw_def)
  have parts: "set p \<subseteq> set raw" if "p \<in> set (posix_parts raw)" for p
    using that split_on_parts by (fastforce simp: posix_parts_def)
  show bs: "CHR 0x5C \<notin> set q"
    using n(3) raw_bs parts set_join [of "''/''" "posix_parts raw"]
    by (auto simp: posix_path_def Let_def split: if_splits)
  show rel: "\<not> startswith q ''/''"
    using n(3) join_relative(2) [OF _ normal_posix_parts, of raw]
    by (auto simp: posix_path_def startswith_def Let_def)
  show form: "q = ''.'' \<or> (q = join ''/'' (posix_parts q) \<and> posix_parts q \<noteq> [] \<and>
      ''..'' \<noteq> hd (posix_parts q))"
    using n(3,4) posix_parts_join [OF _ normal_posix_parts, of raw]
    by (auto simp: posix_path_def Let_def split: if_splits)
  show "normalize_source_path None q = Inr q" if "\<not> windows_absolute q"
  proof (cases "q = ''.''")
    case True
    then show ?thesis
      by (simp add: normalize_source_path_def startswith_def posix_path_def posix_parts_def)
  next
    case False
    with form have q: "q = join ''/'' (posix_parts q)" "posix_parts q \<noteq> []" "hd (posix_parts q) \<noteq> ''..''"
      by auto
    then have p: "posix_path q = q" by (simp add: posix_path_def)
    have "\<not> (q = ''..'' \<or> startswith q ''../'')"
      using join_dotdot [OF q(2) normal_posix_parts] q by metis
    moreover have "q \<noteq> ''''" using join_relative(1) [OF q(2) normal_posix_parts] q(1) by metis
    ultimately show ?thesis
      using that rel False backslash_free [OF bs] p
      by (simp add: normalize_source_path_def)
  qed
qed
text \<open>
  C35: An accepted source path is in portable normal form: relative, without backslashes,
  with no empty or \<open>.\<close> segment unless it is \<open>.\<close> itself, and not beginning with \<open>..\<close>;
  normalizing it again returns it unchanged unless a leading \<open>./\<close> hid a drive letter.
\<close>
theorem source_path_normal_form:
  assumes "normalize_source_path None path = Inr q"
  shows "\<not> startswith q ''/'' \<and> CHR 0x5C \<notin> set q \<and>
    (q = ''.'' \<or> (q = join ''/'' (posix_parts q) \<and> posix_parts q \<noteq> [] \<and>
       hd (posix_parts q) \<noteq> ''..'')) \<and>
    (\<not> windows_absolute q \<longrightarrow> normalize_source_path None q = Inr q)"
  using normalize_normal_form [OF assms] by metis

theorem source_path_normal_form_witness:
  "normalize_source_path None ''./src//a/./b.py'' = Inr ''src/a/b.py'' \<and>
   normalize_source_path None ''src/a/b.py'' = Inr ''src/a/b.py'' \<and>
   \<not> startswith ''src/a/b.py'' ''/''"
proof -
  have h: "normalize_source_path None ''./src//a/./b.py'' = Inr ''src/a/b.py''"
    by (simp add: normalize_source_path_def posix_path_def posix_parts_def startswith_def)
  from source_path_normal_form [OF h] h show ?thesis by (simp add: ascii_letter_def)
qed


subsection \<open>Source references\<close>

text \<open>
  A constructed source reference never carries a line number beside a structured
  locator, never one that differs from its line locator, its line number is 1-based and its
  path is the normal form of the one given.
\<close>
theorem source_ref_sound:
  assumes "make_source_ref r = Inr r'"
  shows "(case line_number r' of
      None \<Rightarrow> True
    | Some n \<Rightarrow> 1 \<le> n \<and>
        (case locator r' of None \<Rightarrow> True | Some l \<Rightarrow> \<exists>e. l = LineLocator n e \<and> 1 \<le> e)) \<and>
    (case source_path r of
       None \<Rightarrow> r' = r
     | Some p \<Rightarrow> \<exists>q. normalize_source_path None p = Inr q \<and> r' = r\<lparr>source_path := Some q\<rparr>)"
  using assms
  by (auto simp: make_source_ref_def line_number_agrees_with_locator_def
      split: option.splits if_splits source_locator.splits sum.splits)

definition sample_source_ref :: evidence_source_ref where
  "sample_source_ref = \<lparr>uri = None, source_path = Some ''docs//plan.md'', line_number = Some 7,
     content_hash = None, ref_packet_id = Some ''packet:1'', ref_source_revision = None,
     locator = Some (LineLocator 7 9)\<rparr>"

theorem source_ref_sound_witness:
  "\<exists>r'. make_source_ref sample_source_ref = Inr r' \<and> source_path r' = Some ''docs/plan.md'' \<and>
     line_number r' = Some 7"
proof -
  have h: "make_source_ref sample_source_ref =
      Inr (sample_source_ref\<lparr>source_path := Some ''docs/plan.md''\<rparr>)"
    by (simp add: sample_source_ref_def make_source_ref_def line_number_agrees_with_locator_def
        normalize_source_path_def posix_path_def posix_parts_def startswith_def)
  from source_ref_sound [OF h] h show ?thesis by (simp add: sample_source_ref_def)
qed

subsection \<open>Identity of evidence\<close>

lemma wf_py_opt [simp]: "wf_py (py_opt f v) \<longleftrightarrow> pred_option (\<lambda>x. wf_py (f x)) v"
  by (cases v) (auto simp: py_opt_def)

lemma wf_py_locator [simp]: "wf_py (py_locator l)"
  by (cases l) (auto simp: pred_option_def)

lemma wf_py_source_ref [simp]: "wf_py (py_source_ref r)"
  by (simp add: py_source_ref_def pred_option_def)

lemma wf_evidence_identity:
  "wf_py val \<Longrightarrow> wf_py (evidence_identity subject fld stg cls typ ref val prdc ver)"
  by (simp add: evidence_identity_def pred_option_def)

lemma evidence_class_value_inj: "evidence_class_value c = evidence_class_value d \<longleftrightarrow> c = d"
  by (cases c; cases d) auto

lemma source_type_value_inj: "source_type_value c = source_type_value d \<longleftrightarrow> c = d"
  by (cases c; cases d) auto

lemma strip_py_opt_str:
  "strip_data ex (canonical_data (py_opt PStr a)) = strip_data ex (canonical_data (py_opt PStr b))
     \<longleftrightarrow> a = b"
  by (cases a; cases b) (auto simp: py_opt_def)

lemma strip_model_filter:
  "strip_data ex (canonical_data (PModel kvs)) =
   strip_data ex (canonical_data (PModel (filter (\<lambda>(k, v). k \<notin> set ex) kvs)))"
proof -
  have "filter (\<lambda>(k, v). v \<noteq> PNone) (filter (\<lambda>(k, v). k \<notin> set ex) kvs) =
      filter (\<lambda>(k, v). k \<notin> set ex) (filter (\<lambda>(k, v). v \<noteq> PNone) kvs)"
    by (simp add: conj_commute case_prod_unfold)
  with strip_data_dict_filter [of ex "filter (\<lambda>(k, v). v \<noteq> PNone) kvs"] show ?thesis
    by simp
qed

lemma strip_source_ref_packet:
  "strip_data default_excluded (canonical_data (py_source_ref (r\<lparr>ref_packet_id := x\<rparr>))) =
   strip_data default_excluded (canonical_data (py_source_ref r))"
proof -
  obtain pre post where split: "\<And>x. py_source_ref (r\<lparr>ref_packet_id := x\<rparr>) =
      PModel (pre @ (''packet_id'', py_opt PStr x) # post)"
    by (rule that [of "[(''uri'', py_opt PStr (uri r)), (''source_path'', py_opt PStr (source_path r)),
        (''line_number'', py_opt PInt (line_number r)),
        (''content_hash'', py_opt PStr (content_hash r))]"
        "[(''source_revision'', py_opt PStr (ref_source_revision r)),
          (''locator'', py_opt py_locator (locator r))]"]) (simp add: py_source_ref_def)
  have d: "''packet_id'' \<in> set default_excluded" by (simp add: default_excluded_def)
  let ?keep = "filter (\<lambda>(k, v). k \<notin> set default_excluded)"
  have keep: "?keep (pre @ (''packet_id'', v) # post) = ?keep (pre @ post)" for v
    by (simp add: d)
  have "strip_data default_excluded (canonical_data (py_source_ref (r\<lparr>ref_packet_id := y\<rparr>))) =
      strip_data default_excluded (canonical_data (PModel (?keep (pre @ post))))" for y
    unfolding split by (subst strip_model_filter) (simp only: keep)
  from this [of x] this [of "ref_packet_id r"] show ?thesis by simp
qed

definition stripped :: "pyval \<Rightarrow> json" where
  "stripped v = strip_data default_excluded (canonical_data v)"

lemma stripped_evidence_identity:
  "stripped (evidence_identity subject fld stg cls typ ref val prdc ver) = JObj
     [(''evidence_class'', JStr (evidence_class_value cls)), (''field'', stripped (py_opt PStr fld)),
      (''producer'', JStr prdc), (''producer_version'', JStr ver),
      (''source_ref'', stripped (py_source_ref ref)),
      (''source_type'', JStr (source_type_value typ)), (''stage'', JStr stg),
      (''subject_id'', JStr subject), (''value'', stripped val)]"
  by (simp add: stripped_def evidence_identity_def default_excluded_def)

text \<open>
  The identity of an evidence record is a function of what it states. The confidence, the
  time and the packet that carried it do not change it.
\<close>
lemma evidence_id_ignores_carrier:
  "evidence_id (make_evidence_record sha now subject fld stg cls typ
     (ref\<lparr>ref_packet_id := p\<rparr>) val conf prdc ver at) =
   evidence_id (make_evidence_record sha now' subject fld stg cls typ
     (ref\<lparr>ref_packet_id := p'\<rparr>) val conf' prdc ver at')"
proof -
  have "stripped (evidence_identity subject fld stg cls typ (ref\<lparr>ref_packet_id := p\<rparr>) val prdc ver) =
      stripped (evidence_identity subject fld stg cls typ (ref\<lparr>ref_packet_id := p'\<rparr>) val prdc ver)"
    unfolding stripped_evidence_identity by (simp add: stripped_def strip_source_ref_packet)
  then show ?thesis
    by (simp add: make_evidence_record_def stable_id_def semantic_hash_excluding_def
        excluded_or_default_def stripped_def)
qed

lemma stable_id_eq_stripped:
  assumes "wf_py v" "wf_py w"
    and "sha (semantic_bytes None v) = sha (semantic_bytes None w) \<Longrightarrow>
      semantic_bytes None v = semantic_bytes None w"
  shows "stable_id sha pre v = stable_id sha pre w \<longleftrightarrow> stripped v = stripped w"
  using semantic_bytes_eq_iff [OF assms(1,2), of None] assms(3)
  by (auto simp: stable_id_def semantic_hash_bytes sha256_bytes_def stripped_def
      excluded_or_default_def)

text \<open>
  Under a digest that does not collide on the two identities, evidence records with one
  identity state the same thing: subject, field, stage, class, source type, producer and
  version agree, and so do the source reference and the value up to volatile fields.
\<close>
theorem evidence_id_separates:
  fixes sha
  defines "bytes \<equiv> \<lambda>subject fld stg cls typ ref val prdc ver.
    semantic_bytes None (evidence_identity subject fld stg cls typ ref val prdc ver)"
  assumes "wf_py val" and "wf_py val'"
    and "sha (bytes subject fld stg cls typ ref val prdc ver) =
         sha (bytes subject' fld' stg' cls' typ' ref' val' prdc' ver') \<Longrightarrow>
      bytes subject fld stg cls typ ref val prdc ver =
      bytes subject' fld' stg' cls' typ' ref' val' prdc' ver'"
    and "evidence_id (make_evidence_record sha now subject fld stg cls typ ref val conf prdc ver at) =
      evidence_id (make_evidence_record sha now' subject' fld' stg' cls' typ' ref' val' conf' prdc' ver' at')"
  shows "subject = subject' \<and> fld = fld' \<and> stg = stg' \<and> cls = cls' \<and> typ = typ' \<and>
    prdc = prdc' \<and> ver = ver' \<and> stripped val = stripped val' \<and>
    stripped (py_source_ref ref) = stripped (py_source_ref ref')"
proof -
  have "stripped (evidence_identity subject fld stg cls typ ref val prdc ver) =
      stripped (evidence_identity subject' fld' stg' cls' typ' ref' val' prdc' ver')"
    using stable_id_eq_stripped [OF wf_evidence_identity [OF assms(2)]
        wf_evidence_identity [OF assms(3)], of sha subject fld stg cls "typ" ref prdc ver
        subject' fld' stg' cls' typ' ref' prdc' ver' "''evidence''"] assms(4,5)
    by (auto simp: make_evidence_record_def bytes_def)
  then show ?thesis
    by (simp add: stripped_evidence_identity evidence_class_value_inj source_type_value_inj)
      (simp add: stripped_def strip_py_opt_str)
qed

theorem evidence_id_separates_witness:
  "make_evidence_record id ''t'' ''repo:a'' None ''s'' class_declared type_file
     sample_source_ref (PStr ''v'') confidence_unknown ''p'' ''1'' None \<noteq>
   make_evidence_record id ''t'' ''repo:b'' None ''s'' class_declared type_file
     sample_source_ref (PStr ''v'') confidence_unknown ''p'' ''1'' None"
  using evidence_id_separates [of "PStr ''v''" "PStr ''v''" id "''repo:a''" None "''s''" class_declared
      type_file sample_source_ref "''p''" "''1''" "''repo:b''" None "''s''" class_declared type_file
      sample_source_ref "''p''" "''1''" "''t''" confidence_unknown None "''t''" confidence_unknown None]
  by auto

end
