(* ===== verification/Domain.thy ===== *)
theory Domain
  imports Evidence
begin

text \<open>
  The canonical records of \<open>domain/\<close>: repositories, artifacts, capabilities, edges and graph
  records, flows, claims, assessments, and diagnostics. Field
  names carry a short prefix of their record, because record fields share one name space in
  HOL; properties of edges and nodes are dictionaries of Python values.
\<close>

type_synonym properties = "(string, pyval) dict"

subsection \<open>Repositories, artifacts, capabilities\<close>

record repository_record =
  repo_id :: ident
  repo_name :: string
  repo_source_revision :: string
  repo_packet_ref :: string
  primary_role :: string
  secondary_roles :: "string list"
  languages :: "string list"
  package_managers :: "string list"
  entrypoints :: "string list"
  workflows :: "string list"
  adr_refs :: "string list"
  governance_refs :: "string list"
  repo_capability_ids :: "ident list"
  repo_artifact_ids :: "ident list"
  upstream_ids :: "ident list"
  downstream_ids :: "ident list"
  unresolved_dependencies :: "string list"
  owner_ids :: "ident list"
  repo_evidence_refs :: "ident list"
  repo_confidence :: confidence_assessment

record artifact_record =
  art_id :: ident
  art_repository_id :: ident
  art_source_path :: string
  art_type :: string
  art_family :: "string option"
  art_content_hash :: string
  art_body_hash :: "string option"
  art_capabilities :: "ident list"
  art_dependencies :: "string list"
  art_evidence_refs :: "ident list"
  art_packet_ref :: string
  art_confidence :: confidence_assessment

record capability_record =
  cap_id :: ident
  cap_name :: string
  cap_description :: string
  implemented_by :: "ident list"
  exposed_by :: "ident list"
  validated_by :: "ident list"
  governed_by :: "ident list"
  cap_evidence_refs :: "ident list"
  cap_confidence :: confidence_assessment

subsection \<open>Edges and graph records\<close>

datatype edge_type =
    CONTAINS | DEPENDS_ON | IMPLEMENTS | EXPOSES | VALIDATED_BY | GOVERNED_BY | OWNED_BY
  | DOCUMENTED_BY | PRODUCES | CONSUMES | DERIVED_FROM | SUPERSEDES | ROUTES_TO | PUBLISHES_TO
  | MEMBER_OF | DUPLICATE_OF | BLOCKED_BY | REFERENCES

fun edge_type_value :: "edge_type \<Rightarrow> string" where
  "edge_type_value CONTAINS = ''CONTAINS''"
| "edge_type_value DEPENDS_ON = ''DEPENDS_ON''"
| "edge_type_value IMPLEMENTS = ''IMPLEMENTS''"
| "edge_type_value EXPOSES = ''EXPOSES''"
| "edge_type_value VALIDATED_BY = ''VALIDATED_BY''"
| "edge_type_value GOVERNED_BY = ''GOVERNED_BY''"
| "edge_type_value OWNED_BY = ''OWNED_BY''"
| "edge_type_value DOCUMENTED_BY = ''DOCUMENTED_BY''"
| "edge_type_value PRODUCES = ''PRODUCES''"
| "edge_type_value CONSUMES = ''CONSUMES''"
| "edge_type_value DERIVED_FROM = ''DERIVED_FROM''"
| "edge_type_value SUPERSEDES = ''SUPERSEDES''"
| "edge_type_value ROUTES_TO = ''ROUTES_TO''"
| "edge_type_value PUBLISHES_TO = ''PUBLISHES_TO''"
| "edge_type_value MEMBER_OF = ''MEMBER_OF''"
| "edge_type_value DUPLICATE_OF = ''DUPLICATE_OF''"
| "edge_type_value BLOCKED_BY = ''BLOCKED_BY''"
| "edge_type_value REFERENCES = ''REFERENCES''"

definition all_edge_types :: "edge_type list" where
  "all_edge_types =
     [CONTAINS, DEPENDS_ON, IMPLEMENTS, EXPOSES, VALIDATED_BY, GOVERNED_BY, OWNED_BY,
      DOCUMENTED_BY, PRODUCES, CONSUMES, DERIVED_FROM, SUPERSEDES, ROUTES_TO, PUBLISHES_TO,
      MEMBER_OF, DUPLICATE_OF, BLOCKED_BY, REFERENCES]"

definition non_traversable_edge_types :: "edge_type list" where
  "non_traversable_edge_types = [DUPLICATE_OF, REFERENCES]"

definition traversable_edge_types :: "edge_type list" where
  "traversable_edge_types =
     filter (\<lambda>t. t \<notin> set non_traversable_edge_types) all_edge_types"

lemma set_all_edge_types: "set all_edge_types = UNIV"
  by (auto simp: all_edge_types_def) (metis edge_type.exhaust)

lemma edge_type_value_inj: "edge_type_value s = edge_type_value t \<longleftrightarrow> s = t"
  by (cases s; cases t) simp_all

lemma traversable_iff: "t \<in> set traversable_edge_types \<longleftrightarrow> t \<noteq> DUPLICATE_OF \<and> t \<noteq> REFERENCES"
  by (simp add: traversable_edge_types_def set_all_edge_types non_traversable_edge_types_def)

datatype direction = outbound | inbound | bidirectional

fun direction_value :: "direction \<Rightarrow> string" where
  "direction_value outbound = ''outbound''"
| "direction_value inbound = ''inbound''"
| "direction_value bidirectional = ''bidirectional''"

record edge_record =
  edge_id :: ident
  edge_source :: ident
  edge_target :: ident
  edge_type_of :: edge_type
  edge_direction :: direction
  edge_properties :: properties
  edge_evidence_refs :: "ident list"
  edge_confidence :: confidence_assessment

datatype record_type = rt_node | rt_edge

record graph_record =
  g_record_type :: record_type
  g_label :: string
  g_entity_id :: ident
  g_properties :: properties
  g_evidence_refs :: "ident list"
  g_confidence :: confidence_assessment

definition edge_taxonomy_view :: pyval where
  "edge_taxonomy_view = PDict
     [(''id'', PStr ''l9-topology-edge-taxonomy''), (''version'', PStr ''2.0.0''),
      (''edge_types'', PSeq (map PStr (sort (map edge_type_value all_edge_types)))),
      (''non_traversable_edge_types'',
         PSeq (map PStr (sort (map edge_type_value non_traversable_edge_types))))]"

definition edge_taxonomy_hash :: "(string \<Rightarrow> string) \<Rightarrow> string" where
  "edge_taxonomy_hash sha = semantic_hash sha edge_taxonomy_view"

definition canonical_pair :: "string \<Rightarrow> string \<Rightarrow> string \<times> string" where
  "canonical_pair l r = (if l \<le> r then (l, r) else (r, l))"

definition exact_duplicate_method :: string where
  "exact_duplicate_method = ''content-hash-equality/v1''"

definition duplicate_confidence :: confidence_assessment where
  "duplicate_confidence =
     \<lparr>level = level_high, evidence_strength = strength_direct,
      derivation_method = method_deterministic, conf_authority = auth_validated_machine,
      completeness = comp_complete, conf_conflict_status = conflict_none\<rparr>"

lemma canonical_pair_sym: "canonical_pair l r = canonical_pair r l"
  by (auto simp: canonical_pair_def)

subsection \<open>Flows, assessments, unknowns and conflicts\<close>

record flow_record =
  flow_id :: ident
  flow_name :: string
  flow_source :: ident
  flow_target :: ident
  flow_type :: string
  flow_packet_type :: "string option"
  flow_description :: string
  stage_sequence :: "ident list"
  flow_evidence_refs :: "ident list"
  flow_confidence :: confidence_assessment

datatype risk_severity = sev_low | sev_medium | sev_high | sev_critical

datatype risk_status = risk_open | risk_accepted | risk_mitigated | risk_resolved

record risk_record =
  risk_id :: ident
  risk_subject :: ident
  severity :: risk_severity
  risk_category :: string
  risk_description :: string
  risk_rule_id :: string
  risk_rule_version :: string
  risk_evidence_refs :: "ident list"
  remediation :: "string option"
  risk_status :: risk_status

record maturity_assessment =
  mat_subject :: ident
  mat_profile_id :: string
  mat_profile_version :: string
  mat_score :: int
  mat_maximum :: int
  mat_band :: string
  mat_dimensions :: "(string, int) dict"
  mat_evidence_refs :: "ident list"

datatype impact_direction = upstream | downstream | both

record impact_index =
  imp_subject :: ident
  imp_direction :: impact_direction
  imp_maximum_depth :: int
  affected_entity_ids :: "ident list"
  imp_paths :: "ident list list"
  unresolved_edge_ids :: "ident list"
  affected_repository_ids :: "ident list"
  affected_capability_ids :: "ident list"

record unknown_record =
  unknown_id :: ident
  unk_subject :: ident
  unk_field :: "string option"
  unk_reason :: string
  unk_evidence_refs :: "ident list"

record conflict_record =
  conflict_id :: ident
  conf_subject :: ident
  conf_field :: string
  conf_values :: "string list"
  conf_evidence_refs :: "ident list"
  blocking :: bool
  resolution :: "string option"

datatype diagnostic_severity = diag_info | diag_warning | diag_error

datatype disposition = preserved | translated | suppressed | rejected

record diagnostic_record =
  diagnostic_id :: ident
  diag_source_packet :: ident
  diag_stage :: string
  diag_severity :: diagnostic_severity
  diag_code :: string
  diag_message :: string
  diag_category :: string
  diag_subject :: "ident option"
  diag_evidence_refs :: "ident list"
  disposition :: disposition
  diag_details :: pyval

subsection \<open>Semantic claims\<close>

datatype claim_cardinality = card_single | card_set | card_unknown

datatype claim_support = support_set | support_single | support_auxiliary | support_unsupported

record semantic_claim =
  claim_id :: ident
  claim_subject :: ident
  claim_predicate :: string
  claim_object :: string
  source_assertion_ids :: "ident list"
  claim_evidence_refs :: "ident list"
  claim_confidence :: confidence_assessment
  claim_authority :: authority
  claim_cardinality :: claim_cardinality
  claim_support :: claim_support
  claim_conflict_status :: conflict_status
  conflict_ids :: "ident list"
  projected :: bool
  projected_entity_ids :: "ident list"

definition authority_agrees_with_confidence :: "semantic_claim \<Rightarrow> bool" where
  "authority_agrees_with_confidence c \<longleftrightarrow> claim_authority c = conf_authority (claim_confidence c)"

definition conflict_status_matches_conflicts :: "semantic_claim \<Rightarrow> bool" where
  "conflict_status_matches_conflicts c \<longleftrightarrow>
     ((conflict_ids c \<noteq> []) = (claim_conflict_status c = conflict_confirmed))"

definition claim_valid :: "semantic_claim \<Rightarrow> bool" where
  "claim_valid c \<longleftrightarrow> authority_agrees_with_confidence c \<and> conflict_status_matches_conflicts c"

end
