(* ===== verification/Cardinality.thy ===== *)
theory Cardinality
  imports Domain
begin

text \<open>
  The two declarations of field cardinality the compiler carries: the contract
  \<open>cardinality.py\<close>, which \<open>stages/reconcile_evidence.py\<close> applies, and the reconciliation
  policy \<open>reconciliation/cardinality.py\<close>, which the aggregation stages apply and whose hash
  is bound into the packet. They are compared here field by field.
\<close>

subsection \<open>The contract of \<open>cardinality.py\<close>\<close>

definition contract_single_valued :: "string list" where
  "contract_single_valued =
     [''repository_id'', ''name'', ''source_revision'', ''packet_ref'', ''primary_role'',
      ''capability_id'', ''description'', ''artifact_id'', ''source_path'', ''artifact_type'',
      ''family'', ''content_hash'', ''body_hash'']"

definition contract_set_valued :: "string list" where
  "contract_set_valued =
     [''secondary_roles'', ''languages'', ''package_managers'', ''entrypoints'', ''workflows'',
      ''adr_refs'', ''governance_refs'', ''capability_ids'', ''artifact_ids'',
      ''upstream_repository_ids'', ''downstream_repository_ids'', ''unresolved_dependencies'',
      ''owner_ids'', ''evidence_refs'', ''implemented_by'', ''exposed_by'', ''validated_by'',
      ''governed_by'', ''capabilities'', ''declared_actions'', ''dependencies'']"

definition contract_declared :: "(string, claim_cardinality) dict" where
  "contract_declared =
     fold (\<lambda>f. dput f card_set) contract_set_valued
       (fold (\<lambda>f. dput f card_single) contract_single_valued [])"

definition contract_cardinality_of :: "string option \<Rightarrow> claim_cardinality" where
  "contract_cardinality_of fld = (case fld of
       None \<Rightarrow> card_unknown
     | Some f \<Rightarrow> dget_default card_unknown contract_declared f)"

subsection \<open>The policy of \<open>reconciliation/cardinality.py\<close>\<close>

definition single_valued_fields :: "string list" where
  "single_valued_fields =
     [''artifact_type'', ''body_hash'', ''content_hash'', ''default_branch'', ''description'',
      ''direction'', ''edge_type'', ''family'', ''license'', ''name'', ''packet_ref'',
      ''primary_role'', ''repository_id'', ''source'', ''source_path'', ''source_revision'',
      ''target_id'', ''version'']"

definition set_valued_fields :: "string list" where
  "set_valued_fields =
     [''adr_refs'', ''artifact_ids'', ''capabilities'', ''capability_ids'', ''declared_actions'',
      ''dependencies'', ''downstream_repository_ids'', ''entrypoints'', ''evidence_refs'',
      ''exposed_by'', ''governance_refs'', ''governed_by'', ''implemented_by'', ''languages'',
      ''owner_ids'', ''package_managers'', ''secondary_roles'', ''tags'',
      ''unresolved_dependencies'', ''upstream_repository_ids'', ''validated_by'', ''workflows'']"

definition cardinality_of :: "string option \<Rightarrow> claim_cardinality" where
  "cardinality_of fld = (case fld of
       None \<Rightarrow> card_unknown
     | Some f \<Rightarrow>
         if f \<in> set set_valued_fields then card_set
         else if f \<in> set single_valued_fields then card_single
         else card_unknown)"

definition is_conflicting :: "string option \<Rightarrow> string list \<Rightarrow> bool" where
  "is_conflicting fld vs \<longleftrightarrow> length vs > 1 \<and> cardinality_of fld = card_single"

definition reconciliation_policy_view :: pyval where
  "reconciliation_policy_view = PDict
     [(''id'', PStr ''l9-topology-reconciliation''), (''version'', PStr ''2.0.0''),
      (''single_valued_fields'', PSeq (map PStr (sort single_valued_fields))),
      (''set_valued_fields'', PSeq (map PStr (sort set_valued_fields))),
      (''undeclared_field_behavior'', PStr ''preserve-evidence-and-emit-unknown'')]"

definition reconciliation_policy_hash :: "(string \<Rightarrow> string) \<Rightarrow> string" where
  "reconciliation_policy_hash sha = semantic_hash sha reconciliation_policy_view"

subsection \<open>Facts\<close>

lemma fold_dput_const:
  "dget (fold (\<lambda>f. dput f c) fs d) k = (if k \<in> set fs then Some c else dget d k)"
  by (induction fs arbitrary: d) (auto simp: update_conv')

lemma contract_cardinality_of_Some:
  "contract_cardinality_of (Some f) =
     (if f \<in> set contract_set_valued then card_set
      else if f \<in> set contract_single_valued then card_single else card_unknown)"
  by (simp add: contract_cardinality_of_def contract_declared_def dget_default_def
      fold_dput_const)

text \<open>The import-time guard: no field is declared with two cardinalities.\<close>

lemma policy_disjoint: "set single_valued_fields \<inter> set set_valued_fields = {}"
  by (simp add: single_valued_fields_def set_valued_fields_def)

lemma is_conflicting_single:
  "is_conflicting (Some f) vs \<longleftrightarrow> length vs > 1 \<and> f \<in> set single_valued_fields"
  using policy_disjoint by (auto simp: is_conflicting_def cardinality_of_def)

definition contract_policy_difference :: "string list" where
  "contract_policy_difference =
     [''default_branch'', ''direction'', ''edge_type'', ''license'', ''source'', ''target_id'',
      ''version'', ''tags'', ''capability_id'', ''artifact_id'']"

definition declared_somewhere :: "string list" where
  "declared_somewhere = contract_single_valued @ contract_set_valued @
     single_valued_fields @ set_valued_fields"

lemma difference_declared: "list_all (\<lambda>f. f \<in> set declared_somewhere) contract_policy_difference"
  by code_simp

lemma difference_on_declared:
  "list_all (\<lambda>f. (contract_cardinality_of (Some f) \<noteq> cardinality_of (Some f)) =
     (f \<in> set contract_policy_difference)) declared_somewhere"
  by code_simp

text \<open>
  Where the two declarations differ: the contract the evidence stage applies leaves
  undeclared eight fields that the bound policy declares, seven of them single-valued, and
  declares two identities the policy leaves undeclared. On every other field they agree.
\<close>
theorem cardinality_contracts_differ:
  "contract_cardinality_of (Some f) \<noteq> cardinality_of (Some f) \<longleftrightarrow>
     f \<in> set contract_policy_difference"
proof (cases "f \<in> set declared_somewhere")
  case True
  with difference_on_declared show ?thesis by (simp add: list_all_iff)
next
  case False
  then have "f \<notin> set contract_policy_difference"
    using difference_declared by (auto simp: list_all_iff)
  moreover from False have "contract_cardinality_of (Some f) = cardinality_of (Some f)"
    by (simp add: declared_somewhere_def contract_cardinality_of_Some cardinality_of_def)
  ultimately show ?thesis by simp
qed

end
