(* ===== verification/Predicates.thy ===== *)
theory Predicates
  imports Cardinality
begin

text \<open>
  The predicate registry of \<open>reconciliation/predicates.py\<close>: the governed and managed header
  vocabularies, the classification of every assertion predicate, and the decisions read from
  it (support, interpretation, cardinality, permission to project).
\<close>

type_synonym predicate_declaration = "(string, string) dict"

definition header_semantics_ledger :: string where
  "header_semantics_ledger = ''l9.artifact-header-model/global@1''"

definition header_schema_namespaces :: "string list" where
  "header_schema_namespaces = [''l9v1'', ''l9v2'']"

text \<open>Field, category and value kind.\<close>

definition header_fields :: "(string \<times> string \<times> string) list" where
  "header_fields =
     [(''id'', ''identity'', ''label''), (''origin'', ''identity'', ''label''),
      (''engine'', ''identity'', ''label''), (''namespace'', ''identity'', ''label''),
      (''component'', ''identity'', ''label''), (''canonical_path'', ''identity'', ''path''),
      (''version'', ''identity'', ''label''), (''title'', ''identity'', ''text''),
      (''source_repo'', ''identity'', ''text''), (''source_file'', ''identity'', ''text''),
      (''source_adr'', ''identity'', ''label''), (''layer'', ''classification'', ''label_list''),
      (''tags'', ''classification'', ''label_list''),
      (''artifact_type'', ''classification'', ''label''),
      (''status'', ''classification'', ''label''), (''ring'', ''classification'', ''label''),
      (''category'', ''classification'', ''label''), (''owner'', ''governance'', ''label''),
      (''ssot_for'', ''governance'', ''label_list''), (''canonical'', ''governance'', ''label''),
      (''canonical_source'', ''governance'', ''url''),
      (''single_source_rule'', ''governance'', ''text''),
      (''retrieval'', ''retrieval'', ''label''), (''load_when'', ''retrieval'', ''label_list''),
      (''load_condition'', ''retrieval'', ''text''),
      (''references'', ''retrieval'', ''reference_list''),
      (''requires'', ''retrieval'', ''reference_list''),
      (''amplifies'', ''retrieval'', ''reference_list''),
      (''retrieval_keys'', ''retrieval'', ''text''), (''token_estimate'', ''retrieval'', ''count'')]"

definition set_value_kinds :: "string list" where
  "set_value_kinds = [''label_list'', ''reference_list'']"

definition header_structure_predicates :: "string list" where
  "header_structure_predicates = [''meta.declaration.carrier'', ''meta.declaration.schema'']"

definition header_declaration :: "string \<Rightarrow> string \<Rightarrow> predicate_declaration" where
  "header_declaration fld value_kind =
     (let set_valued = value_kind \<in> set set_value_kinds in
      [(''definition'', header_semantics_ledger @ ''#fields.'' @ fld),
       (''subject_scope'', ''artifact''),
       (''object_type'', value_kind),
       (''cardinality'', if set_valued then ''set'' else ''single''),
       (''support'', if set_valued then ''set'' else ''single''),
       (''authority'',
          ''declared-source-claim; grants no ownership, identity or canonical status''),
       (''projection'', ''none''),
       (''conflict'', if set_valued then ''aggregate-distinct'' else ''preserve-all-and-conflict''),
       (''unknown'', ''unresolved-or-out-of-vocabulary-fields-arrive-as-other-predicates'')])"

definition header_predicate :: "string \<Rightarrow> string \<Rightarrow> string \<Rightarrow> string" where
  "header_predicate namespace category fld =
     ''meta.'' @ namespace @ ''.'' @ category @ ''.'' @ fld"

definition header_declaration_predicates :: "(string, predicate_declaration) dict" where
  "header_declaration_predicates =
     fold (\<lambda>ns d. fold (\<lambda>(fld, category, kind).
         dput (header_predicate ns category fld) (header_declaration fld kind)) header_fields d)
       header_schema_namespaces []"

subsection \<open>The managed header vocabulary\<close>

definition managed_header_vocabulary :: string where
  "managed_header_vocabulary = ''l9-meta-injector:managed-header''"

definition managed_header_fields :: "(string \<times> string \<times> string) list" where
  "managed_header_fields =
     [(''id'', ''identity'', ''label''), (''title'', ''identity'', ''text''),
      (''namespace'', ''identity'', ''label''), (''source_path'', ''identity'', ''path''),
      (''artifact_type'', ''classification'', ''label''),
      (''family'', ''classification'', ''label''),
      (''mcp_primitive'', ''classification'', ''label''),
      (''callable'', ''classification'', ''boolean''),
      (''retrievable'', ''classification'', ''boolean''),
      (''injectable'', ''classification'', ''boolean''),
      (''authority'', ''governance'', ''label''), (''owner'', ''governance'', ''label''),
      (''sharing_scope'', ''governance'', ''label'')]"

definition managed_declaration :: "string \<Rightarrow> string \<Rightarrow> predicate_declaration" where
  "managed_declaration fld value_kind =
     [(''definition'', managed_header_vocabulary @ ''#fields.'' @ fld),
      (''subject_scope'', ''artifact''),
      (''object_type'', value_kind),
      (''cardinality'', ''single''),
      (''support'', ''single''),
      (''authority'', ''producer-declared source claim; the producer's own vocabulary, not '' @
         ''Foundation-governed; grants no ownership, identity, capability or canonical status''),
      (''projection'', ''none''),
      (''conflict'', ''preserve-all-and-conflict''),
      (''unknown'', ''unresolved-or-out-of-vocabulary-fields-arrive-as-other-predicates'')]"

definition managed_declaration_predicates :: "(string, predicate_declaration) dict" where
  "managed_declaration_predicates =
     fold (\<lambda>(fld, category, kind).
         dput (header_predicate ''managed'' category fld) (managed_declaration fld kind))
       managed_header_fields []"

subsection \<open>Field observations\<close>

definition field_observation_namespaces :: "string list" where
  "field_observation_namespaces = header_schema_namespaces @ [''managed'']"

definition unresolved_field_predicates :: "string list" where
  "unresolved_field_predicates =
     map (\<lambda>ns. ''meta.'' @ ns @ ''.unresolved_field'') field_observation_namespaces"

definition unsupported_field_predicates :: "string list" where
  "unsupported_field_predicates =
     map (\<lambda>ns. ''meta.'' @ ns @ ''.unsupported_field'') field_observation_namespaces
       @ [''meta.unversioned.field'']"

definition field_observation_predicates :: "string list" where
  "field_observation_predicates = unresolved_field_predicates @ unsupported_field_predicates"

definition declaration_only_predicates :: "string list" where
  "declaration_only_predicates =
     dkeys header_declaration_predicates @ dkeys managed_declaration_predicates
       @ header_structure_predicates @ field_observation_predicates"

definition declared_with_cardinality :: "string \<Rightarrow> string list" where
  "declared_with_cardinality c =
     map fst (filter (\<lambda>(p, d). dget d ''cardinality'' = Some c) header_declaration_predicates)"

definition base_set_predicates :: "string list" where
  "base_set_predicates =
     [''authority.canonical_contract'', ''contract.invariant'', ''http.handler_body_marker'',
      ''http.route'', ''http.route_handler'', ''package.dependency'',
      ''repository.disclaimed_role'', ''repository.self_described_role'', ''service.action'',
      ''document.heading'', ''work.task.open'', ''work.task.completed'', ''work.milestone'',
      ''work.depends_on'', ''work.blocked_by'', ''work.references'', ''work.supersedes'',
      ''work.superseded_by'']"

definition set_valued_predicates :: "string list" where
  "set_valued_predicates = base_set_predicates @ declared_with_cardinality ''set''"

definition base_single_predicates :: "string list" where
  "base_single_predicates =
     [''authority.canonical_contract_count'', ''package.build_backend'', ''package.framework'',
      ''package.name'', ''package.packaging_system'', ''package.python_constraint'',
      ''package.server'', ''package.version'', ''repository.replaced_by'',
      ''repository.status'', ''service.name'', ''service.version'', ''document.title'',
      ''work.status'', ''work.kind'']"

definition single_valued_predicates :: "string list" where
  "single_valued_predicates =
     base_single_predicates @ declared_with_cardinality ''single''
       @ dkeys managed_declaration_predicates"

definition auxiliary_predicates :: "string list" where
  "auxiliary_predicates =
     [''authority.unresolved_reference'', ''contract.declares_invariants'']
       @ header_structure_predicates @ field_observation_predicates"

definition supported_predicates :: "string list" where
  "supported_predicates =
     set_valued_predicates @ single_valued_predicates @ auxiliary_predicates"

subsection \<open>Decisions\<close>

definition projection_withheld_conflict_statuses :: "conflict_status list" where
  "projection_withheld_conflict_statuses = [conflict_possible, conflict_confirmed]"

definition predicate_support :: "string \<Rightarrow> claim_support" where
  "predicate_support p =
     (if p \<in> set set_valued_predicates then support_set
      else if p \<in> set single_valued_predicates then support_single
      else if p \<in> set auxiliary_predicates then support_auxiliary
      else support_unsupported)"

datatype predicate_interpretation =
    declaration_reading | auxiliary_observation | unresolved_value | unsupported_field
  | unsupported_predicate

definition predicate_interpretation :: "string \<Rightarrow> predicate_interpretation" where
  "predicate_interpretation p =
     (if p \<in> set unresolved_field_predicates then unresolved_value
      else if p \<in> set unsupported_field_predicates then unsupported_field
      else (case predicate_support p of
          support_unsupported \<Rightarrow> unsupported_predicate
        | support_auxiliary \<Rightarrow> auxiliary_observation
        | _ \<Rightarrow> declaration_reading))"

definition declaration_of :: "string \<Rightarrow> predicate_declaration option" where
  "declaration_of p = (case dget header_declaration_predicates p of
       Some d \<Rightarrow> Some d
     | None \<Rightarrow> dget managed_declaration_predicates p)"

definition predicate_definition :: "string \<Rightarrow> string option" where
  "predicate_definition p =
     (case declaration_of p of None \<Rightarrow> None | Some d \<Rightarrow> dget d ''definition'')"

definition predicate_cardinality :: "string \<Rightarrow> claim_cardinality" where
  "predicate_cardinality p = (case predicate_support p of
       support_set \<Rightarrow> card_set
     | support_auxiliary \<Rightarrow> card_set
     | support_single \<Rightarrow> card_single
     | support_unsupported \<Rightarrow> card_unknown)"

definition is_projectable :: "string \<Rightarrow> bool" where
  "is_projectable p =
     (if p \<in> set declaration_only_predicates then False
      else predicate_support p \<in> {support_set, support_single})"

subsection \<open>Facts about the registry\<close>

text \<open>
  Every header vocabulary entry lives under \<open>meta.\<close>; no base predicate does. The two header
  tables are filled from their field lists, so every entry is a field's declaration.
\<close>

definition under_meta :: "string \<Rightarrow> bool" where
  "under_meta p = prefix ''meta.'' p"

lemma set_dput_subset: "set (dput k v d) \<subseteq> insert (k, v) (set d)"
  by (induction d) auto

lemma set_fill_subset:
  "set (fold (\<lambda>x. dput (key x) (val x)) xs d) \<subseteq> set d \<union> (\<lambda>x. (key x, val x)) ` set xs"
proof (induction xs arbitrary: d)
  case (Cons x xs)
  show ?case
    using Cons [of "dput (key x) (val x) d"] set_dput_subset [of "key x" "val x" d] by auto
qed simp

lemma header_fill_subset:
  "set (fold (\<lambda>(fld, category, kind).
         dput (header_predicate ns category fld) (mk fld kind)) fs d)
     \<subseteq> set d \<union> {(header_predicate ns cat fld, mk fld kind) | fld cat kind.
         (fld, cat, kind) \<in> set fs}"
  using set_fill_subset [of "\<lambda>(fld, cat, kind). header_predicate ns cat fld"
      "\<lambda>(fld, cat, kind). mk fld kind" fs d]
  by (force simp: case_prod_unfold)

lemma header_entry:
  assumes "(p, d) \<in> set header_declaration_predicates"
  obtains ns cat fld kind where "ns \<in> set header_schema_namespaces"
    and "(fld, cat, kind) \<in> set header_fields"
    and "p = header_predicate ns cat fld" and "d = header_declaration fld kind"
proof -
  let ?step = "\<lambda>ns. fold (\<lambda>(fld, category, kind).
         dput (header_predicate ns category fld) (header_declaration fld kind)) header_fields"
  have "(p, d) \<in> set (fold ?step nss d0) \<Longrightarrow> (p, d) \<in> set d0 \<or>
      (\<exists>ns fld cat kind. ns \<in> set nss \<and> (fld, cat, kind) \<in> set header_fields \<and>
         p = header_predicate ns cat fld \<and> d = header_declaration fld kind)" for nss d0
  proof (induction nss arbitrary: d0)
    case (Cons ns nss)
    then have "(p, d) \<in> set (fold ?step nss (?step ns d0))" by simp
    from Cons.IH [OF this] show ?case
      using header_fill_subset [of ns header_declaration header_fields d0] by fastforce
  qed simp
  from this [of header_schema_namespaces "[]"] assms that show ?thesis
    by (auto simp: header_declaration_predicates_def)
qed

lemma managed_entry:
  assumes "(p, d) \<in> set managed_declaration_predicates"
  obtains cat fld kind where "(fld, cat, kind) \<in> set managed_header_fields"
    and "p = header_predicate ''managed'' cat fld" and "d = managed_declaration fld kind"
  using assms header_fill_subset [of "''managed''" managed_declaration managed_header_fields "[]"]
  by (auto simp: managed_declaration_predicates_def)

lemma header_fill_distinct:
  "distinct (dkeys d) \<Longrightarrow> distinct (dkeys (fold (\<lambda>(fld, category, kind).
     dput (header_predicate ns category fld) (mk fld kind)) fs d))"
  using distinct_fill [of d "\<lambda>(fld, cat, kind). header_predicate ns cat fld"
      "\<lambda>(fld, cat, kind). mk fld kind" fs]
  by (simp add: case_prod_unfold)

lemma header_keys_distinct: "distinct (dkeys header_declaration_predicates)"
  unfolding header_declaration_predicates_def header_schema_namespaces_def
  by (simp only: fold_simps comp_apply header_fill_distinct list.map distinct.simps simp_thms)

lemma header_under_meta: "p \<in> fst ` set header_declaration_predicates \<Longrightarrow> under_meta p"
  by (auto simp: under_meta_def header_predicate_def elim!: header_entry)

lemma managed_under_meta: "p \<in> fst ` set managed_declaration_predicates \<Longrightarrow> under_meta p"
  by (auto simp: under_meta_def header_predicate_def elim!: managed_entry)

lemma declaration_only_under_meta: "p \<in> set declaration_only_predicates \<Longrightarrow> under_meta p"
  using header_under_meta managed_under_meta
  by (auto simp: declaration_only_predicates_def header_structure_predicates_def
      field_observation_predicates_def unresolved_field_predicates_def
      unsupported_field_predicates_def under_meta_def)

lemma base_not_under_meta:
  "p \<in> set base_set_predicates \<or> p \<in> set base_single_predicates \<Longrightarrow> \<not> under_meta p"
  by (auto simp: base_set_predicates_def base_single_predicates_def under_meta_def)

lemma header_managed_disjoint:
  assumes "p \<in> fst ` set managed_declaration_predicates"
  shows "p \<notin> fst ` set header_declaration_predicates"
proof
  assume "p \<in> fst ` set header_declaration_predicates"
  with assms show False
    by (auto simp: header_predicate_def header_schema_namespaces_def
        elim!: header_entry managed_entry)
qed

lemma declared_with_cardinality_iff:
  "p \<in> set (declared_with_cardinality c) \<longleftrightarrow>
     (\<exists>d. dget header_declaration_predicates p = Some d \<and> dget d ''cardinality'' = Some c)"
  using header_keys_distinct by (force simp: declared_with_cardinality_def)

lemma declared_subset:
  "set (declared_with_cardinality c) \<subseteq> fst ` set header_declaration_predicates"
  by (auto simp: declared_with_cardinality_def)

text \<open>
  Exactly the thirty-three repository, service, document and work predicates may
  project. No header declaration, managed declaration, structural header claim or field
  observation may, in any namespace, and neither may a predicate the registry does not declare.
\<close>
theorem is_projectable_iff:
  "is_projectable p \<longleftrightarrow> p \<in> set base_set_predicates \<or> p \<in> set base_single_predicates"
proof (cases "p \<in> set declaration_only_predicates")
  case True
  then show ?thesis
    using declaration_only_under_meta base_not_under_meta by (auto simp: is_projectable_def)
next
  case False
  then have "p \<notin> fst ` set header_declaration_predicates"
    and "p \<notin> fst ` set managed_declaration_predicates"
    by (auto simp: declaration_only_predicates_def)
  then have "p \<in> set set_valued_predicates \<longleftrightarrow> p \<in> set base_set_predicates"
    and "p \<in> set single_valued_predicates \<longleftrightarrow> p \<in> set base_single_predicates"
    using declared_subset by (auto simp: set_valued_predicates_def single_valued_predicates_def)
  with False show ?thesis by (auto simp: is_projectable_def predicate_support_def)
qed

lemma header_support:
  assumes "dget header_declaration_predicates p = Some d"
  shows "dget d ''cardinality'' = Some ''set'' \<Longrightarrow> predicate_support p = support_set"
    and "dget d ''cardinality'' = Some ''single'' \<Longrightarrow> predicate_support p = support_single"
proof -
  have "p \<in> fst ` set header_declaration_predicates"
    using map_of_SomeD [OF assms] by force
  then have b: "p \<notin> set base_set_predicates"
    using header_under_meta base_not_under_meta by blast
  show "dget d ''cardinality'' = Some ''set'' \<Longrightarrow> predicate_support p = support_set"
    using assms by (simp add: predicate_support_def set_valued_predicates_def
        declared_with_cardinality_iff)
  show "dget d ''cardinality'' = Some ''single'' \<Longrightarrow> predicate_support p = support_single"
    using assms b by (simp add: predicate_support_def set_valued_predicates_def
        single_valued_predicates_def declared_with_cardinality_iff)
qed

lemma managed_support:
  assumes "p \<in> fst ` set managed_declaration_predicates"
  shows "predicate_support p = support_single"
proof -
  have "p \<notin> set base_set_predicates"
    using managed_under_meta [OF assms] base_not_under_meta by blast
  moreover have "p \<notin> set (declared_with_cardinality ''set'')"
    using header_managed_disjoint [OF assms] declared_subset by blast
  ultimately show ?thesis
    using assms by (simp add: predicate_support_def set_valued_predicates_def
        single_valued_predicates_def)
qed

lemma declaration_only_not_projectable:
  assumes "p \<in> fst ` set header_declaration_predicates \<union> fst ` set managed_declaration_predicates"
  shows "\<not> is_projectable p"
  using assms by (auto simp: is_projectable_def declaration_only_predicates_def)

text \<open>
  Every header declaration, governed or managed, says of itself what the registry then
  does with it: the cardinality and the conflict behaviour it declares are the ones
  reconciliation applies to it, and the projection it declares is the one it gets, none.
\<close>
theorem header_declarations_consistent:
  assumes "declaration_of p = Some d"
  shows "dget d ''projection'' = Some ''none'' \<and> \<not> is_projectable p \<and>
    (dget d ''cardinality'' = Some ''set'' \<and> predicate_cardinality p = card_set \<and>
       dget d ''conflict'' = Some ''aggregate-distinct'' \<or>
     dget d ''cardinality'' = Some ''single'' \<and> predicate_cardinality p = card_single \<and>
       dget d ''conflict'' = Some ''preserve-all-and-conflict'')"
proof (cases "dget header_declaration_predicates p")
  case (Some d')
  with assms have d: "d' = d" by (simp add: declaration_of_def)
  from Some d have m: "(p, d) \<in> set header_declaration_predicates" by (simp add: map_of_SomeD)
  then have "p \<in> fst ` set header_declaration_predicates" by force
  then have "\<not> is_projectable p" using declaration_only_not_projectable by blast
  moreover from m obtain ns cat fld kind where "d = header_declaration fld kind"
    by (rule header_entry)
  ultimately show ?thesis
    using header_support [OF Some] d
    by (cases "kind \<in> set set_value_kinds")
      (simp_all add: header_declaration_def predicate_cardinality_def Let_def)
next
  case None
  with assms have m: "(p, d) \<in> set managed_declaration_predicates"
    by (simp add: declaration_of_def map_of_SomeD)
  then have k: "p \<in> fst ` set managed_declaration_predicates" by force
  have "\<not> is_projectable p" using k declaration_only_not_projectable by blast
  moreover have "predicate_support p = support_single" by (rule managed_support [OF k])
  moreover from m obtain cat fld kind where "d = managed_declaration fld kind"
    by (rule managed_entry)
  ultimately show ?thesis
    by (simp add: managed_declaration_def predicate_cardinality_def)
qed

theorem header_declarations_consistent_witness:
  "\<not> is_projectable ''meta.managed.governance.owner'' \<and>
   predicate_cardinality ''meta.managed.governance.owner'' = card_single"
proof -
  have m: "dget managed_declaration_predicates ''meta.managed.governance.owner'' =
      Some (managed_declaration ''owner'' ''label'')"
    by (simp add: managed_declaration_predicates_def managed_header_fields_def
        header_predicate_def dict.lookup_put)
  have "''meta.managed.governance.owner'' \<in> fst ` set managed_declaration_predicates"
    using map_of_SomeD [OF m] by force
  then have "dget header_declaration_predicates ''meta.managed.governance.owner'' = None"
    using header_managed_disjoint by (simp add: map_of_eq_None_iff)
  with m have h: "declaration_of ''meta.managed.governance.owner'' =
      Some (managed_declaration ''owner'' ''label'')"
    by (simp add: declaration_of_def)
  from header_declarations_consistent [OF h] show ?thesis
    by (simp add: managed_declaration_def)
qed

end
