(* ===== verification/ReconcileEvidence.thy ===== *)
theory ReconcileEvidence
  imports Predicates
begin

text \<open>
  The two stages that turn divergence and producer uncertainty into first-class records:
  \<open>stages/reconcile_evidence.py\<close> (evidence is deduplicated by identity, then every question,
  a subject and a field, whose records hold two canonically distinct values is judged by the
  field-cardinality contract) and \<open>stages/derive_unknowns.py\<close>. Python's \<open>str\<close> of an arbitrary
  value is the parameter \<open>str_of\<close>: it only feeds labels, and no statement depends on it.
\<close>

subsection \<open>\<open>stages/reconcile_evidence.py\<close>\<close>

definition assertion_evidence_stage :: string where
  "assertion_evidence_stage = ''ingest_assertions''"

definition document_signal_evidence_stage :: string where
  "document_signal_evidence_stage = ''ingest_document_signals''"

definition predicate_field_stages :: "string list" where
  "predicate_field_stages = [assertion_evidence_stage, document_signal_evidence_stage]"

definition evidence_by_id :: "evidence_record list \<Rightarrow> (ident, evidence_record) dict" where
  "evidence_by_id ev = fold (\<lambda>r. dput (evidence_id r) r) ev []"

definition distinct_values :: "evidence_record list \<Rightarrow> (string, pyval) dict" where
  "distinct_values rs = fold (\<lambda>r. dput (canonical_json (ev_value r)) (ev_value r)) rs []"

definition undeclared_cardinality_reason :: string where
  "undeclared_cardinality_reason =
     ''field cardinality is not declared; divergent values are preserved '' @
     ''without asserting a conflict''"

definition py_question :: "ident \<Rightarrow> string \<Rightarrow> string list \<Rightarrow> pyval" where
  "py_question subject fld vals = PDict
     [(''subject_id'', PStr subject), (''field'', PStr fld), (''values'', PSeq (map PStr vals))]"

definition reconcile_question ::
  "(string \<Rightarrow> string) \<Rightarrow> (pyval \<Rightarrow> string) \<Rightarrow> (ident \<times> string option) \<times> evidence_record list \<Rightarrow>
   conflict_record list \<times> unknown_record list" where
  "reconcile_question sha str_of q = (case q of ((subject, fld), rs) \<Rightarrow>
     (let dv = distinct_values rs; vals = sort (map str_of (dvalues dv)) in
      case fld of
        None \<Rightarrow> ([], [])
      | Some f \<Rightarrow>
          if length dv < 2 then ([], [])
          else (let refs = sort (map evidence_id rs) in
            case contract_cardinality_of (Some f) of
              card_set \<Rightarrow> ([], [])
            | card_single \<Rightarrow>
                ([\<lparr>conflict_id = stable_id sha ''conflict'' (py_question subject f vals),
                   conf_subject = subject, conf_field = f, conf_values = vals,
                   conf_evidence_refs = refs, blocking = False, resolution = None\<rparr>], [])
            | card_unknown \<Rightarrow>
                ([], [\<lparr>unknown_id = stable_id sha ''unknown'' (py_question subject f vals),
                   unk_subject = subject, unk_field = Some f,
                   unk_reason = undeclared_cardinality_reason,
                   unk_evidence_refs = refs\<rparr>]))))"

definition evidence_questions ::
  "evidence_record list \<Rightarrow> ((ident \<times> string option) \<times> evidence_record list) list" where
  "evidence_questions ev =
     sort_key (\<lambda>((subject, fld), rs). (subject, case fld of None \<Rightarrow> [] | Some f \<Rightarrow> f))
       (group_by (\<lambda>r. (ev_subject_id r, ev_field r))
         (filter (\<lambda>r. stage r \<notin> set predicate_field_stages) (dvalues (evidence_by_id ev))))"

definition reconcile_evidence ::
  "(string \<Rightarrow> string) \<Rightarrow> (pyval \<Rightarrow> string) \<Rightarrow> evidence_record list \<Rightarrow>
   evidence_record list \<times> conflict_record list \<times> unknown_record list" where
  "reconcile_evidence sha str_of ev =
     (let results = map (reconcile_question sha str_of) (evidence_questions ev) in
      (sort_key evidence_id (dvalues (evidence_by_id ev)),
       concat (map fst results), concat (map snd results)))"

subsection \<open>\<open>stages/derive_unknowns.py\<close>\<close>

definition field_bearing_codes :: "string list" where
  "field_bearing_codes = [''unsupported-by-evidence'']"

definition fixed_field_by_code :: "(string, string) dict" where
  "fixed_field_by_code = [(''inventory-unknown'', ''artifact_type'')]"

definition unknown_bearing_codes :: "string list" where
  "unknown_bearing_codes = field_bearing_codes @ dkeys fixed_field_by_code"

fun mapping_of :: "pyval \<Rightarrow> (string, pyval) dict option" where
  "mapping_of (PDict d) = Some d"
| "mapping_of _ = None"

fun truthy :: "pyval \<Rightarrow> bool" where
  "truthy PNone = False"
| "truthy (PBool b) = b"
| "truthy (PInt i) = (i \<noteq> 0)"
| "truthy (PStr s) = (s \<noteq> [])"
| "truthy (PSeq xs) = (xs \<noteq> [])"
| "truthy (PSet xs) = (xs \<noteq> [])"
| "truthy (PDict d) = (d \<noteq> [])"
| "truthy _ = True"

definition declared_field :: "(pyval \<Rightarrow> string) \<Rightarrow> diagnostic_record \<Rightarrow> string option" where
  "declared_field str_of d =
     (case dget fixed_field_by_code (diag_code d) of
        Some f \<Rightarrow> Some f
      | None \<Rightarrow>
          (case Option.bind (mapping_of (diag_details d)) (\<lambda>m. dget m ''raw'') of
             None \<Rightarrow> None
           | Some raw \<Rightarrow>
               (case Option.bind (mapping_of raw) (\<lambda>m. dget m ''details'') of
                  None \<Rightarrow> None
                | Some details \<Rightarrow>
                    (case Option.bind (mapping_of details) (\<lambda>m. dget m ''field'') of
                       None \<Rightarrow> None
                     | Some v \<Rightarrow> if truthy v then Some (str_of v) else None))))"

definition derive_unknown ::
  "(string \<Rightarrow> string) \<Rightarrow> (pyval \<Rightarrow> string) \<Rightarrow> diagnostic_record \<Rightarrow> unknown_record option" where
  "derive_unknown sha str_of d =
     (case diag_subject d of
        None \<Rightarrow> None
      | Some subject \<Rightarrow>
          if diag_code d \<notin> set unknown_bearing_codes then None
          else (let fld = declared_field str_of d in
            Some \<lparr>unknown_id = stable_id sha ''unknown'' (PDict
                    [(''diagnostic_id'', PStr (diagnostic_id d)),
                     (''subject_id'', PStr subject), (''field'', py_opt PStr fld)]),
                  unk_subject = subject, unk_field = fld, unk_reason = diag_message d,
                  unk_evidence_refs = diag_evidence_refs d\<rparr>))"

definition derive_unknowns ::
  "(string \<Rightarrow> string) \<Rightarrow> (pyval \<Rightarrow> string) \<Rightarrow> diagnostic_record list \<Rightarrow> unknown_record list" where
  "derive_unknowns sha str_of ds = sort_key unknown_id (List.map_filter (derive_unknown sha str_of) ds)"

subsection \<open>What divergence amounts to\<close>

text \<open>The records that bear on a question, and whether two of them differ canonically.\<close>

definition field_records :: "evidence_record list \<Rightarrow> ident \<Rightarrow> string option \<Rightarrow> evidence_record list" where
  "field_records ev subject fld =
     filter (\<lambda>r. ev_subject_id r = subject \<and> ev_field r = fld)
       (filter (\<lambda>r. stage r \<notin> set predicate_field_stages) (dvalues (evidence_by_id ev)))"

definition contested :: "evidence_record list \<Rightarrow> ident \<Rightarrow> string \<Rightarrow> bool" where
  "contested ev subject f \<longleftrightarrow>
     (\<exists>r \<in> set (field_records ev subject (Some f)). \<exists>r' \<in> set (field_records ev subject (Some f)).
        canonical_json (ev_value r) \<noteq> canonical_json (ev_value r'))"

lemma length_dict: "distinct (dkeys d) \<Longrightarrow> length d = card (fst ` set d)"
  using distinct_card [of "map fst d"] by simp

lemma distinct_values_two:
  "\<not> length (distinct_values rs) < 2 \<longleftrightarrow>
     (\<exists>r \<in> set rs. \<exists>r' \<in> set rs. canonical_json (ev_value r) \<noteq> canonical_json (ev_value r'))"
proof -
  let ?K = "(\<lambda>r. canonical_json (ev_value r)) ` set rs"
  have "distinct (dkeys (distinct_values rs))"
    unfolding distinct_values_def by (rule distinct_fill) simp
  then have "length (distinct_values rs) = card ?K"
    by (simp add: length_dict distinct_values_def dict.keys_fill)
  moreover have "card ?K < 2 \<longleftrightarrow> (\<forall>a \<in> ?K. \<forall>b \<in> ?K. a = b)"
    using card_le_Suc0_iff_eq [of ?K] by (simp add: less_2_cases_iff le_Suc_eq numeral_2_eq_2 less_Suc_eq_le)
  ultimately show ?thesis by auto
qed

lemma evidence_questions_set:
  "q \<in> set (evidence_questions ev) \<longleftrightarrow>
     (\<exists>s f. q = ((s, f), field_records ev s f) \<and> field_records ev s f \<noteq> [])"
proof -
  let ?rs = "filter (\<lambda>r. stage r \<notin> set predicate_field_stages) (dvalues (evidence_by_id ev))"
  let ?key = "\<lambda>r. (ev_subject_id r, ev_field r)"
  have fr: "field_records ev s f = filter (\<lambda>r. ?key r = (s, f)) ?rs" for s f
    by (simp add: field_records_def)
  have "((s, f), rs) \<in> set (group_by ?key ?rs) \<longleftrightarrow>
      rs = field_records ev s f \<and> field_records ev s f \<noteq> []" for s f rs
  proof
    assume "((s, f), rs) \<in> set (group_by ?key ?rs)"
    from group_by_entry [OF this] show "rs = field_records ev s f \<and> field_records ev s f \<noteq> []"
      unfolding fr by (force simp: filter_empty_conv)
  next
    assume a: "rs = field_records ev s f \<and> field_records ev s f \<noteq> []"
    then have "(s, f) \<in> ?key ` set ?rs" unfolding fr by (force simp: filter_empty_conv)
    then have "(s, f) \<in> fst ` set (group_by ?key ?rs)" by (simp only: keys_group_by)
    then obtain g where g: "((s, f), g) \<in> set (group_by ?key ?rs)" by force
    with group_by_entry(1) [OF g] a show "((s, f), rs) \<in> set (group_by ?key ?rs)"
      unfolding fr by simp
  qed
  then show ?thesis
    unfolding evidence_questions_def set_sort by (cases q; cases "fst q") auto
qed

lemma reconcile_question_contested:
  "reconcile_question sha str_of ((s, Some f), field_records ev s (Some f)) =
     (let rs = field_records ev s (Some f); vals = sort (map str_of (dvalues (distinct_values rs)));
          refs = sort (map evidence_id rs) in
      if \<not> contested ev s f then ([], [])
      else (case contract_cardinality_of (Some f) of
          card_set \<Rightarrow> ([], [])
        | card_single \<Rightarrow>
            ([\<lparr>conflict_id = stable_id sha ''conflict'' (py_question s f vals),
               conf_subject = s, conf_field = f, conf_values = vals,
               conf_evidence_refs = refs, blocking = False, resolution = None\<rparr>], [])
        | card_unknown \<Rightarrow>
            ([], [\<lparr>unknown_id = stable_id sha ''unknown'' (py_question s f vals),
               unk_subject = s, unk_field = Some f, unk_reason = undeclared_cardinality_reason,
               unk_evidence_refs = refs\<rparr>])))"
proof -
  have c: "length (distinct_values (field_records ev s (Some f))) < 2 \<longleftrightarrow> \<not> contested ev s f"
    using distinct_values_two [of "field_records ev s (Some f)"] by (auto simp: contested_def)
  show ?thesis by (simp add: reconcile_question_def c Let_def)
qed

lemma contested_records: "contested ev s f \<Longrightarrow> field_records ev s (Some f) \<noteq> []"
  by (auto simp: contested_def)

lemma question_conflicts:
  "(\<lambda>c. (conf_subject c, conf_field c)) `
       set (fst (reconcile_question sha str_of ((s, fo), field_records ev s fo))) =
     {(s', f). s' = s \<and> fo = Some f \<and> contested ev s f \<and>
        contract_cardinality_of (Some f) = card_single}"
proof (cases fo)
  case None
  then show ?thesis by (simp add: reconcile_question_def Let_def)
next
  case (Some f)
  show ?thesis
    unfolding Some reconcile_question_contested
    by (cases "contract_cardinality_of (Some f)"; cases "contested ev s f") (auto simp: Let_def)
qed

lemma question_unknowns:
  "(\<lambda>u. (unk_subject u, unk_field u)) `
       set (snd (reconcile_question sha str_of ((s, fo), field_records ev s fo))) =
     {(s', fo'). s' = s \<and> fo' = fo \<and> (\<exists>f. fo = Some f \<and> contested ev s f \<and>
        contract_cardinality_of (Some f) = card_unknown)}"
proof (cases fo)
  case None
  then show ?thesis by (simp add: reconcile_question_def Let_def)
next
  case (Some f)
  show ?thesis
    unfolding Some reconcile_question_contested
    by (cases "contract_cardinality_of (Some f)"; cases "contested ev s f") (auto simp: Let_def)
qed

lemma questions_Union:
  "(\<Union>q \<in> set (evidence_questions ev). F q) =
     (\<Union>(s, fo) \<in> {(s, fo). field_records ev s fo \<noteq> []}. F ((s, fo), field_records ev s fo))"
proof -
  have "set (evidence_questions ev) =
      (\<lambda>(s, fo). ((s, fo), field_records ev s fo)) ` {(s, fo). field_records ev s fo \<noteq> []}"
    using evidence_questions_set [of _ ev] by (fastforce simp: image_iff)
  then show ?thesis by (simp add: case_prod_unfold)
qed


text \<open>
  Every producer diagnostic that names a subject and carries an unknown-bearing code becomes an
  unknown on that subject, and nothing else does; a code with a fixed field never loses it.
\<close>

lemma derive_unknown_Some:
  "derive_unknown sha str_of d = Some u \<longleftrightarrow>
     diag_code d \<in> set unknown_bearing_codes \<and> diag_subject d = Some (unk_subject u) \<and>
     unk_field u = declared_field str_of d \<and> unk_reason u = diag_message d \<and>
     unk_evidence_refs u = diag_evidence_refs d \<and>
     unknown_id u = stable_id sha ''unknown'' (PDict
       [(''diagnostic_id'', PStr (diagnostic_id d)),
        (''subject_id'', PStr (unk_subject u)), (''field'', py_opt PStr (declared_field str_of d))])"
  by (cases u) (auto simp: derive_unknown_def Let_def split: option.splits)

lemma derive_unknowns_from:
  assumes "u \<in> set (derive_unknowns sha str_of ds)"
  obtains d where "d \<in> set ds" and "derive_unknown sha str_of d = Some u"
  using assms by (auto simp: derive_unknowns_def map_filter_set)

lemma derive_unknowns_complete:
  "unk_subject ` set (derive_unknowns sha str_of ds) =
     {s. \<exists>d \<in> set ds. diag_subject d = Some s \<and> diag_code d \<in> set unknown_bearing_codes}"
proof (intro set_eqI iffI)
  fix s assume "s \<in> unk_subject ` set (derive_unknowns sha str_of ds)"
  then show "s \<in> {s. \<exists>d \<in> set ds. diag_subject d = Some s \<and>
      diag_code d \<in> set unknown_bearing_codes}"
    by (auto elim!: derive_unknowns_from simp: derive_unknown_Some)
next
  fix s assume "s \<in> {s. \<exists>d \<in> set ds. diag_subject d = Some s \<and>
      diag_code d \<in> set unknown_bearing_codes}"
  then obtain d where d: "d \<in> set ds" "diag_subject d = Some s"
    "diag_code d \<in> set unknown_bearing_codes" by auto
  then obtain u where "derive_unknown sha str_of d = Some u" and "unk_subject u = s"
    by (auto simp: derive_unknown_def Let_def)
  with d(1) show "s \<in> unk_subject ` set (derive_unknowns sha str_of ds)"
    by (auto simp: derive_unknowns_def map_filter_set)
qed

lemma derive_unknowns_inventory:
  assumes "u \<in> set (derive_unknowns sha str_of ds)"
  shows "\<exists>d \<in> set ds. diag_subject d = Some (unk_subject u) \<and> unk_reason u = diag_message d \<and>
    unk_evidence_refs u = diag_evidence_refs d \<and>
    (diag_code d = ''inventory-unknown'' \<longrightarrow> unk_field u = Some ''artifact_type'')"
  using assms
  by (elim derive_unknowns_from)
    (force simp: derive_unknown_Some declared_field_def fixed_field_by_code_def)

end
