(* ===== verification/ReconcileAssertions.thy ===== *)
theory ReconcileAssertions
  imports ReconcileEvidence
begin

text \<open>
  Reconciliation of producer statements into semantic claims:
  \<open>stages/reconcile_assertions.py\<close>, with the shared input of \<open>reconciliation/inputs.py\<close> and the
  conservative vocabularies of \<open>packets/assertion_evidence.py\<close>. Statements are grouped by the
  question they answer, a subject and a predicate, then by their object; the predicate registry
  decides what several objects of one question mean.
\<close>

subsection \<open>Inputs and producer vocabularies\<close>

record semantic_input =
  input_id :: ident
  in_subject :: ident
  in_predicate :: string
  in_object :: string
  in_authority :: string
  in_confidence :: string
  in_evidence_class :: string
  origin :: string

definition authority_by_name :: "(string, authority) dict" where
  "authority_by_name =
     [(''source'', auth_source), (''validated-machine'', auth_validated_machine),
      (''validated_machine'', auth_validated_machine), (''derived'', auth_derived),
      (''candidate'', auth_candidate), (''unknown'', auth_unknown)]"

definition level_by_name :: "(string, confidence_level) dict" where
  "level_by_name = [(''high'', level_high), (''medium'', level_medium), (''low'', level_low)]"

definition named_authority :: "string \<Rightarrow> authority" where
  "named_authority v = dget_default auth_unknown authority_by_name v"

definition named_level :: "string \<Rightarrow> confidence_level" where
  "named_level v = dget_default level_low level_by_name v"

definition named_derivation :: "string \<Rightarrow> derivation_method" where
  "named_derivation cls = (if cls = ''declared'' then method_declared else method_deterministic)"

subsection \<open>The evidence index\<close>

definition assertion_id_of :: "evidence_record \<Rightarrow> string option" where
  "assertion_id_of r =
     (if stage r \<notin> {assertion_evidence_stage, document_signal_evidence_stage} then None
      else (case mapping_of (ev_value r) of
          None \<Rightarrow> None
        | Some d \<Rightarrow> (case dget d ''assertion_id'' of Some (PStr i) \<Rightarrow> Some i | _ \<Rightarrow> None)))"

definition assertion_evidence_index ::
  "evidence_record list \<Rightarrow> (ident \<times> ident, ident) dict" where
  "assertion_evidence_index ev =
     fold (\<lambda>r d. case assertion_id_of r of
         None \<Rightarrow> d | Some i \<Rightarrow> dput (ev_subject_id r, i) (evidence_id r) d) ev []"

definition index_resolve ::
  "(ident \<times> ident, ident) dict \<Rightarrow> semantic_input \<Rightarrow> ident option" where
  "index_resolve ix st = dget ix (in_subject st, input_id st)"

definition index_resolve_all ::
  "(ident \<times> ident, ident) dict \<Rightarrow> semantic_input list \<Rightarrow> ident list" where
  "index_resolve_all ix sts = usort (List.map_filter (index_resolve ix) sts)"

subsection \<open>Grading a claim\<close>

definition semantic_claim_id :: "(string \<Rightarrow> string) \<Rightarrow> ident \<Rightarrow> string \<Rightarrow> string \<Rightarrow> ident" where
  "semantic_claim_id sha subject predicate obj = stable_id sha ''claim'' (PDict
     [(''subject_id'', PStr subject), (''predicate'', PStr predicate), (''object'', PStr obj)])"

definition weakest_level :: "semantic_input list \<Rightarrow> confidence_level" where
  "weakest_level sts = weakest level_low (map (\<lambda>st. named_level (in_confidence st)) sts)"

definition weakest_authority :: "semantic_input list \<Rightarrow> authority" where
  "weakest_authority sts = weakest auth_unknown (map (\<lambda>st. named_authority (in_authority st)) sts)"

definition claim_derivation :: "semantic_input list \<Rightarrow> derivation_method" where
  "claim_derivation sts =
     (case remdups (map (\<lambda>st. named_derivation (in_evidence_class st)) sts) of
        [m] \<Rightarrow> m
      | _ \<Rightarrow> method_cross_record)"

definition claim_confidence_of ::
  "semantic_input list \<Rightarrow> nat \<Rightarrow> conflict_status \<Rightarrow> confidence_assessment" where
  "claim_confidence_of sts evidence_count status =
     \<lparr>level = weakest_level sts,
      evidence_strength =
        (if evidence_count > 1 then strength_corroborated else strength_direct),
      derivation_method = claim_derivation sts,
      conf_authority = weakest_authority sts,
      completeness = (if status \<noteq> conflict_none then comp_partial else comp_sufficient),
      conf_conflict_status = status\<rparr>"

subsection \<open>Diagnostics\<close>

definition reconcile_stage_name :: string where
  "reconcile_stage_name = ''reconcile_assertions''"

definition unsupported_predicate_code :: string where
  "unsupported_predicate_code = ''assertion-predicate-unsupported''"

definition unsupported_predicate_reason :: string where
  "unsupported_predicate_reason =
     ''assertion predicate has no declared rule in the predicate registry, so its claims '' @
     ''were preserved with their evidence but neither aggregated, treated as a '' @
     ''contradiction, nor projected into stronger topology semantics''"

definition reconcile_diagnostic ::
  "(string \<Rightarrow> string) \<Rightarrow> ident \<Rightarrow> string \<Rightarrow> ident \<Rightarrow> string \<Rightarrow> string \<Rightarrow> ident list \<Rightarrow> pyval \<Rightarrow>
   diagnostic_record" where
  "reconcile_diagnostic sha subject predicate packet code msg refs details =
     \<lparr>diagnostic_id = stable_id sha ''diagnostic'' (PDict
        [(''stage'', PStr reconcile_stage_name), (''code'', PStr code),
         (''subject_id'', PStr subject), (''field'', PStr predicate)]),
      diag_source_packet = packet, diag_stage = reconcile_stage_name,
      diag_severity = diag_warning, diag_code = code, diag_message = msg,
      diag_category = ''compiler'', diag_subject = Some subject, diag_evidence_refs = refs,
      disposition = translated, diag_details = details\<rparr>"

definition packet_id_for :: "(ident, evidence_record) dict \<Rightarrow> ident list \<Rightarrow> ident" where
  "packet_id_for by_id refs =
     (case List.map_filter (\<lambda>i. case dget by_id i of
          None \<Rightarrow> None
        | Some r \<Rightarrow> (case ref_packet_id (source_ref r) of
              Some p \<Rightarrow> if p \<noteq> [] then Some p else None | None \<Rightarrow> None)) refs of
        p # _ \<Rightarrow> p
      | [] \<Rightarrow> ''packet:unresolved'')"

subsection \<open>One question\<close>

text \<open>
  What the loop body appends for one question. \<open>repr\<close> is Python's \<open>repr\<close> of a string, used in
  the message of a diagnostic only.
\<close>

record group_outcome =
  out_claims :: "semantic_claim list"
  out_conflicts :: "conflict_record list"
  out_unknowns :: "unknown_record list"
  out_diagnostics :: "diagnostic_record list"

definition conflict_status_for :: "claim_cardinality \<Rightarrow> string list \<Rightarrow> conflict_status" where
  "conflict_status_for arity objects =
     (if arity = card_single \<and> length objects > 1 then conflict_confirmed
      else if arity = card_unknown \<and> length objects > 1 then conflict_possible
      else conflict_none)"

definition claim_for ::
  "(string \<Rightarrow> string) \<Rightarrow> (ident \<times> ident, ident) dict \<Rightarrow> ident \<Rightarrow> string \<Rightarrow> conflict_status \<Rightarrow>
   ident list \<Rightarrow> semantic_input list \<Rightarrow> string \<Rightarrow> semantic_claim" where
  "claim_for sha ix subject predicate status conflict_refs grp obj =
     (let supporting = filter (\<lambda>st. in_object st = obj) grp;
          refs = index_resolve_all ix supporting in
      \<lparr>claim_id = semantic_claim_id sha subject predicate obj,
       claim_subject = subject, claim_predicate = predicate, claim_object = obj,
       source_assertion_ids = usort (map input_id supporting),
       claim_evidence_refs = refs,
       claim_confidence = claim_confidence_of supporting (length refs) status,
       claim_authority = weakest_authority supporting,
       claim_cardinality = predicate_cardinality predicate,
       claim_support = predicate_support predicate,
       claim_conflict_status = status, conflict_ids = conflict_refs,
       projected = False, projected_entity_ids = []\<rparr>)"

definition reconcile_group ::
  "(string \<Rightarrow> string) \<Rightarrow> (string \<Rightarrow> string) \<Rightarrow> (ident \<times> ident, ident) dict \<Rightarrow>
   (ident, evidence_record) dict \<Rightarrow> (ident \<times> string) \<Rightarrow> semantic_input list \<Rightarrow> group_outcome" where
  "reconcile_group sha repr ix by_id q grp = (case q of (subject, predicate) \<Rightarrow>
     (let support = predicate_support predicate;
          arity = predicate_cardinality predicate;
          objects = sort (dkeys (group_by in_object grp));
          group_evidence = index_resolve_all ix grp;
          packet = packet_id_for by_id group_evidence;
          status = conflict_status_for arity objects;
          cid = stable_id sha ''conflict'' (py_question subject predicate objects);
          confirmed = (status = conflict_confirmed) in
      \<lparr>out_claims = map (claim_for sha ix subject predicate status
           (if confirmed then [cid] else []) grp) objects,
       out_conflicts = (if confirmed then
          [\<lparr>conflict_id = cid, conf_subject = subject, conf_field = predicate,
            conf_values = objects, conf_evidence_refs = group_evidence, blocking = False,
            resolution = None\<rparr>] else []),
       out_unknowns = (if support = support_unsupported then
          [\<lparr>unknown_id = stable_id sha ''unknown'' (py_question subject predicate objects),
            unk_subject = subject, unk_field = Some predicate,
            unk_reason = unsupported_predicate_reason,
            unk_evidence_refs = group_evidence\<rparr>] else []),
       out_diagnostics = (if support = support_unsupported then
          [reconcile_diagnostic sha subject predicate packet unsupported_predicate_code
             (''assertion predicate '' @ repr predicate @
              '' has no declared rule in the predicate registry; '' @
              show_nat (length grp) @ '' claim(s) on '' @ subject @
              '' were preserved with their evidence and not projected'')
             group_evidence
             (PDict [(''predicate'', PStr predicate), (''objects'', PSeq (map PStr objects)),
                (''assertion_count'', PInt (int (length grp)))])] else [])\<rparr>))"

definition reconcile_assertions ::
  "(string \<Rightarrow> string) \<Rightarrow> (string \<Rightarrow> string) \<Rightarrow> semantic_input list \<Rightarrow> evidence_record list \<Rightarrow>
   group_outcome" where
  "reconcile_assertions sha repr statements ev =
     (let ix = assertion_evidence_index ev;
          by_id = evidence_by_id ev;
          grouped = group_by (\<lambda>st. (in_subject st, in_predicate st)) statements;
          outs = map (\<lambda>q. reconcile_group sha repr ix by_id q (dget_default [] grouped q))
            (sort (dkeys grouped)) in
      \<lparr>out_claims = sort_key claim_id (concat (map out_claims outs)),
       out_conflicts = sort_key conflict_id (concat (map out_conflicts outs)),
       out_unknowns = sort_key unknown_id (concat (map out_unknowns outs)),
       out_diagnostics = sort_key diagnostic_id (concat (map out_diagnostics outs))\<rparr>)"

subsection \<open>One claim per statement\<close>

lemma sort_keys_group_by: "sort (dkeys (group_by key xs)) = usort (map key xs)"
  by (rule sorted_distinct_set_unique) (simp_all add: distinct_group_by keys_group_by)

definition question_group :: "semantic_input list \<Rightarrow> ident \<Rightarrow> string \<Rightarrow> semantic_input list" where
  "question_group sts s p = filter (\<lambda>st. (in_subject st, in_predicate st) = (s, p)) sts"

definition question_objects :: "semantic_input list \<Rightarrow> ident \<Rightarrow> string \<Rightarrow> string list" where
  "question_objects sts s p = usort (map in_object (question_group sts s p))"

definition questions :: "semantic_input list \<Rightarrow> (ident \<times> string) list" where
  "questions sts = usort (map (\<lambda>st. (in_subject st, in_predicate st)) sts)"

definition question_outcome ::
  "(string \<Rightarrow> string) \<Rightarrow> (string \<Rightarrow> string) \<Rightarrow> evidence_record list \<Rightarrow> semantic_input list \<Rightarrow>
   ident \<times> string \<Rightarrow> group_outcome" where
  "question_outcome sha repr ev sts q =
     reconcile_group sha repr (assertion_evidence_index ev) (evidence_by_id ev) q
       (question_group sts (fst q) (snd q))"

lemma reconcile_outcomes:
  "reconcile_assertions sha repr sts ev =
     (let outs = map (question_outcome sha repr ev sts) (questions sts) in
      \<lparr>out_claims = sort_key claim_id (concat (map out_claims outs)),
       out_conflicts = sort_key conflict_id (concat (map out_conflicts outs)),
       out_unknowns = sort_key unknown_id (concat (map out_unknowns outs)),
       out_diagnostics = sort_key diagnostic_id (concat (map out_diagnostics outs))\<rparr>)"
proof -
  let ?key = "\<lambda>st. (in_subject st, in_predicate st)"
  have g: "question_group sts (fst q) (snd q) = dget_default [] (group_by ?key sts) q" for q
    by (cases q) (simp add: question_group_def dget_group_by)
  have "question_outcome sha repr ev sts = (\<lambda>q. reconcile_group sha repr
      (assertion_evidence_index ev) (evidence_by_id ev) q (dget_default [] (group_by ?key sts) q))"
    by (rule ext) (simp only: question_outcome_def g)
  then show ?thesis
    by (simp only: reconcile_assertions_def Let_def sort_keys_group_by questions_def)
qed

lemma questions_iff:
  "(s, p) \<in> set (questions sts) \<longleftrightarrow> (\<exists>st \<in> set sts. in_subject st = s \<and> in_predicate st = p)"
  by (auto simp: questions_def)

lemma question_objects_iff:
  "obj \<in> set (question_objects sts s p) \<longleftrightarrow>
     (\<exists>st \<in> set sts. in_subject st = s \<and> in_predicate st = p \<and> in_object st = obj)"
  by (auto simp: question_objects_def question_group_def)

lemma question_claims:
  "out_claims (question_outcome sha repr ev sts (s, p)) =
     (let objects = question_objects sts s p;
          status = conflict_status_for (predicate_cardinality p) objects;
          cid = stable_id sha ''conflict'' (py_question s p objects) in
      map (claim_for sha (assertion_evidence_index ev) s p status
        (if status = conflict_confirmed then [cid] else []) (question_group sts s p)) objects)"
  by (simp add: question_outcome_def reconcile_group_def Let_def sort_keys_group_by
      question_objects_def)

lemma claim_for_simps [simp]:
  "claim_subject (claim_for sha ix s p status cs g obj) = s"
  "claim_predicate (claim_for sha ix s p status cs g obj) = p"
  "claim_object (claim_for sha ix s p status cs g obj) = obj"
  "source_assertion_ids (claim_for sha ix s p status cs g obj) =
     usort (map input_id (filter (\<lambda>st. in_object st = obj) g))"
  "claim_authority (claim_for sha ix s p status cs g obj) =
     weakest_authority (filter (\<lambda>st. in_object st = obj) g)"
  "conf_authority (claim_confidence (claim_for sha ix s p status cs g obj)) =
     weakest_authority (filter (\<lambda>st. in_object st = obj) g)"
  "level (claim_confidence (claim_for sha ix s p status cs g obj)) =
     weakest_level (filter (\<lambda>st. in_object st = obj) g)"
  "claim_conflict_status (claim_for sha ix s p status cs g obj) = status"
  "conflict_ids (claim_for sha ix s p status cs g obj) = cs"
  "claim_id (claim_for sha ix s p status cs g obj) = semantic_claim_id sha s p obj"
  "projected (claim_for sha ix s p status cs g obj) = False"
  by (simp_all add: claim_for_def claim_confidence_of_def Let_def)

definition claim_triple :: "semantic_claim \<Rightarrow> ident \<times> string \<times> string" where
  "claim_triple c = (claim_subject c, claim_predicate c, claim_object c)"

definition statement_triple :: "semantic_input \<Rightarrow> ident \<times> string \<times> string" where
  "statement_triple st = (in_subject st, in_predicate st, in_object st)"

lemma question_claim_triples:
  "map claim_triple (out_claims (question_outcome sha repr ev sts (s, p))) =
     map (\<lambda>obj. (s, p, obj)) (question_objects sts s p)"
  by (simp add: question_claims Let_def claim_triple_def comp_def)

lemma claims_mset:
  "mset (out_claims (reconcile_assertions sha repr sts ev)) =
     mset (concat (map (\<lambda>q. out_claims (question_outcome sha repr ev sts q)) (questions sts)))"
  by (simp add: reconcile_outcomes Let_def comp_def)

lemma claims_set:
  "set (out_claims (reconcile_assertions sha repr sts ev)) =
     (\<Union>q \<in> set (questions sts). set (out_claims (question_outcome sha repr ev sts q)))"
  using arg_cong [OF claims_mset, of set_mset] by simp

lemma claim_triples_mset:
  "mset (map claim_triple (out_claims (reconcile_assertions sha repr sts ev))) =
     mset (concat (map (\<lambda>(s, p). map (\<lambda>obj. (s, p, obj)) (question_objects sts s p)) (questions sts)))"
proof -
  have "map claim_triple (concat (map (\<lambda>q. out_claims (question_outcome sha repr ev sts q)) qs)) =
      concat (map (\<lambda>(s, p). map (\<lambda>obj. (s, p, obj)) (question_objects sts s p)) qs)" for qs
    by (induction qs) (auto simp: question_claim_triples)
  moreover have "mset (map claim_triple (out_claims (reconcile_assertions sha repr sts ev))) =
      mset (map claim_triple (concat (map (\<lambda>q. out_claims (question_outcome sha repr ev sts q))
        (questions sts))))"
    by (simp only: mset_map claims_mset)
  ultimately show ?thesis by simp
qed

lemma claim_triples_distinct:
  "distinct (map claim_triple (out_claims (reconcile_assertions sha repr sts ev)))"
proof -
  have "distinct qs \<Longrightarrow> distinct (concat (map (\<lambda>(s, p).
      map (\<lambda>obj. (s, p, obj)) (question_objects sts s p)) qs))" for qs
  proof (induction qs)
    case (Cons q qs)
    then show ?case
      by (cases q) (auto simp: distinct_map inj_on_def question_objects_def)
  qed simp
  from this [of "questions sts"] show ?thesis
    by (simp only: mset_eq_imp_distinct_iff [OF claim_triples_mset] questions_def distinct_usort)
qed

lemma claim_triples_set:
  "claim_triple ` set (out_claims (reconcile_assertions sha repr sts ev)) =
     statement_triple ` set sts"
proof -
  have "claim_triple ` set (out_claims (reconcile_assertions sha repr sts ev)) =
      (\<Union>(s, p) \<in> set (questions sts). (\<lambda>obj. (s, p, obj)) ` set (question_objects sts s p))"
    using mset_eq_setD [OF claim_triples_mset [of sha repr sts ev]]
    by (simp add: case_prod_unfold)
  also have "\<dots> = {(s, p, obj). \<exists>st \<in> set sts. (s, p, obj) = statement_triple st}"
  proof (intro set_eqI iffI)
    fix x assume "x \<in> (\<Union>(s, p) \<in> set (questions sts).
      (\<lambda>obj. (s, p, obj)) ` set (question_objects sts s p))"
    then show "x \<in> {(s, p, obj). \<exists>st \<in> set sts. (s, p, obj) = statement_triple st}"
      by (auto simp: question_objects_iff statement_triple_def)
  next
    fix x assume "x \<in> {(s, p, obj). \<exists>st \<in> set sts. (s, p, obj) = statement_triple st}"
    then obtain st where "st \<in> set sts" and x: "x = (in_subject st, in_predicate st, in_object st)"
      by (auto simp: statement_triple_def)
    then have "(in_subject st, in_predicate st) \<in> set (questions sts)"
      and "in_object st \<in> set (question_objects sts (in_subject st) (in_predicate st))"
      by (auto simp: questions_iff question_objects_iff)
    then show "x \<in> (\<Union>(s, p) \<in> set (questions sts).
      (\<lambda>obj. (s, p, obj)) ` set (question_objects sts s p))"
      unfolding x by force
  qed
  also have "\<dots> = statement_triple ` set sts" by auto
  finally show ?thesis .
qed

lemma claim_cases:
  assumes "c \<in> set (out_claims (reconcile_assertions sha repr sts ev))"
  obtains s p obj status cs where "obj \<in> set (question_objects sts s p)"
    and "status = conflict_status_for (predicate_cardinality p) (question_objects sts s p)"
    and "cs = (if status = conflict_confirmed
         then [stable_id sha ''conflict'' (py_question s p (question_objects sts s p))] else [])"
    and "c = claim_for sha (assertion_evidence_index ev) s p status cs (question_group sts s p) obj"
  using assms by (auto simp: claims_set question_claims Let_def)

lemma question_group_statements:
  "filter (\<lambda>st. in_object st = obj) (question_group sts s p) =
     filter (\<lambda>st. statement_triple st = (s, p, obj)) sts"
  unfolding question_group_def filter_filter by (rule filter_cong) (auto simp: statement_triple_def)

lemma claim_sources:
  assumes "c \<in> set (out_claims (reconcile_assertions sha repr sts ev))"
  shows "source_assertion_ids c =
    usort (map input_id (filter (\<lambda>st. statement_triple st = claim_triple c) sts))"
  using assms by (elim claim_cases) (simp add: question_group_statements claim_triple_def)

text \<open>
  C9: Reconciliation adds no fact and drops none. It emits exactly one claim for every
  (subject, predicate, object) some statement makes and none for any other, and a claim cites
  exactly the identities of the statements that make it.
\<close>
theorem reconcile_conserves_statements:
  "distinct (map claim_triple (out_claims (reconcile_assertions sha repr sts ev))) \<and>
   claim_triple ` set (out_claims (reconcile_assertions sha repr sts ev)) =
     statement_triple ` set sts \<and>
   (\<Union>c \<in> set (out_claims (reconcile_assertions sha repr sts ev)).
       {claim_triple c} \<times> set (source_assertion_ids c)) =
     (\<lambda>st. (statement_triple st, input_id st)) ` set sts"
proof (intro conjI claim_triples_distinct claim_triples_set)
  let ?claims = "out_claims (reconcile_assertions sha repr sts ev)"
  have "(\<Union>c \<in> set ?claims. {claim_triple c} \<times> set (source_assertion_ids c)) =
      (\<Union>c \<in> set ?claims. {claim_triple c} \<times>
         input_id ` {st \<in> set sts. statement_triple st = claim_triple c})"
    by (intro SUP_cong refl) (simp add: claim_sources)
  also have "\<dots> = (\<Union>t \<in> claim_triple ` set ?claims. {t} \<times>
         input_id ` {st \<in> set sts. statement_triple st = t})"
    by simp
  also have "\<dots> = (\<lambda>st. (statement_triple st, input_id st)) ` set sts"
    unfolding claim_triples_set by (auto simp: image_iff) metis
  finally show "(\<Union>c \<in> set ?claims. {claim_triple c} \<times> set (source_assertion_ids c)) =
      (\<lambda>st. (statement_triple st, input_id st)) ` set sts" .
qed

subsection \<open>Conflicts and grades\<close>

lemma question_conflict_list:
  "out_conflicts (question_outcome sha repr ev sts (s, p)) =
     (let objects = question_objects sts s p in
      if predicate_cardinality p = card_single \<and> length objects > 1 then
        [\<lparr>conflict_id = stable_id sha ''conflict'' (py_question s p objects), conf_subject = s,
          conf_field = p, conf_values = objects,
          conf_evidence_refs =
            index_resolve_all (assertion_evidence_index ev) (question_group sts s p),
          blocking = False, resolution = None\<rparr>] else [])"
  by (simp add: question_outcome_def reconcile_group_def Let_def sort_keys_group_by
      question_objects_def conflict_status_for_def)

definition competing :: "semantic_input list \<Rightarrow> ident \<Rightarrow> string \<Rightarrow> bool" where
  "competing sts s p \<longleftrightarrow>
     (\<exists>a \<in> set sts. \<exists>b \<in> set sts. in_subject a = s \<and> in_subject b = s \<and> in_predicate a = p \<and>
        in_predicate b = p \<and> in_object a \<noteq> in_object b)"

lemma two_objects: "Suc 0 < length (question_objects sts s p) \<longleftrightarrow> competing sts s p"
proof -
  have "length (question_objects sts s p) = card (set (question_objects sts s p))"
    by (simp add: length_usort question_objects_def)
  moreover have "Suc 0 < card A \<longleftrightarrow> (\<exists>a \<in> A. \<exists>b \<in> A. a \<noteq> b)" if "finite A" for A :: "string set"
    using card_le_Suc0_iff_eq [OF that] by (auto simp: not_less [symmetric])
  ultimately have "Suc 0 < length (question_objects sts s p) \<longleftrightarrow>
      (\<exists>a \<in> set (question_objects sts s p). \<exists>b \<in> set (question_objects sts s p). a \<noteq> b)"
    by simp
  then show ?thesis
    unfolding competing_def question_objects_iff Bex_def by blast
qed

lemma conflicts_set:
  "set (out_conflicts (reconcile_assertions sha repr sts ev)) =
     (\<Union>q \<in> set (questions sts). set (out_conflicts (question_outcome sha repr ev sts q)))"
  by (simp add: reconcile_outcomes Let_def)

text \<open>
  C10: A recorded contradiction is exactly a single-valued question with two different answers,
  and it lists every one of them. Every claim satisfies the record's validators (its authority
  is its confidence's, and it cites a conflict just when its status is confirmed), is not yet
  projected, and is confirmed in conflict just when its question is such a contradiction.
\<close>
theorem reconcile_conflicts_exact:
  "(\<lambda>k. (conf_subject k, conf_field k, conf_values k)) `
       set (out_conflicts (reconcile_assertions sha repr sts ev)) =
     {(s, p, question_objects sts s p) | s p.
        predicate_cardinality p = card_single \<and> competing sts s p} \<and>
   list_all (\<lambda>c. claim_valid c \<and> \<not> projected c \<and>
       (claim_conflict_status c = conflict_confirmed) =
         (predicate_cardinality (claim_predicate c) = card_single \<and>
          competing sts (claim_subject c) (claim_predicate c)))
     (out_claims (reconcile_assertions sha repr sts ev))"
proof
  have asked: "competing sts s p \<Longrightarrow> (s, p) \<in> set (questions sts)" for s p
    by (auto simp: competing_def questions_iff)
  have "(\<lambda>k. (conf_subject k, conf_field k, conf_values k)) `
      set (out_conflicts (question_outcome sha repr ev sts q)) =
    (case q of (s, p) \<Rightarrow> if predicate_cardinality p = card_single \<and> competing sts s p
       then {(s, p, question_objects sts s p)} else {})" for q
    by (cases q) (simp add: question_conflict_list Let_def two_objects)
  then have "(\<lambda>k. (conf_subject k, conf_field k, conf_values k)) `
      set (out_conflicts (reconcile_assertions sha repr sts ev)) =
    (\<Union>(s, p) \<in> set (questions sts). if predicate_cardinality p = card_single \<and> competing sts s p
       then {(s, p, question_objects sts s p)} else {})"
    by (simp only: conflicts_set image_UN)
  also have "\<dots> = {(s, p, question_objects sts s p) | s p.
      predicate_cardinality p = card_single \<and> competing sts s p}"
    using asked by (fastforce split: if_splits)
  finally show "(\<lambda>k. (conf_subject k, conf_field k, conf_values k)) `
      set (out_conflicts (reconcile_assertions sha repr sts ev)) =
    {(s, p, question_objects sts s p) | s p.
      predicate_cardinality p = card_single \<and> competing sts s p}" .
next
  have "claim_valid c \<and> \<not> projected c \<and> (claim_conflict_status c = conflict_confirmed) =
      (predicate_cardinality (claim_predicate c) = card_single \<and>
       competing sts (claim_subject c) (claim_predicate c))"
    if "c \<in> set (out_claims (reconcile_assertions sha repr sts ev))" for c
    using that
    by (elim claim_cases)
      (simp add: claim_valid_def authority_agrees_with_confidence_def
        conflict_status_matches_conflicts_def conflict_status_for_def two_objects)
  then show "list_all (\<lambda>c. claim_valid c \<and> \<not> projected c \<and>
      (claim_conflict_status c = conflict_confirmed) =
        (predicate_cardinality (claim_predicate c) = card_single \<and>
         competing sts (claim_subject c) (claim_predicate c)))
    (out_claims (reconcile_assertions sha repr sts ev))"
    by (simp only: list_all_iff ball_simps) blast
qed

lemma supporting_nonempty:
  assumes "c \<in> set (out_claims (reconcile_assertions sha repr sts ev))"
  shows "filter (\<lambda>st. statement_triple st = claim_triple c) sts \<noteq> []"
  using claim_triples_set [of sha repr sts ev] assms by (force simp: filter_empty_conv image_iff)

text \<open>
  Aggregation only lowers a grade. The authority and the confidence level of a claim are
  the least among the statements that make it, in the vocabularies' own order, so no claim is
  graded above any statement it rests on.
\<close>
theorem reconcile_grades_weakest:
  "list_all (\<lambda>c.
       claim_authority c = Min ((\<lambda>st. named_authority (in_authority st)) `
         {st \<in> set sts. statement_triple st = claim_triple c}) \<and>
       level (claim_confidence c) = Min ((\<lambda>st. named_level (in_confidence st)) `
         {st \<in> set sts. statement_triple st = claim_triple c}))
     (out_claims (reconcile_assertions sha repr sts ev))"
proof -
  have "claim_authority c = Min ((\<lambda>st. named_authority (in_authority st)) `
         {st \<in> set sts. statement_triple st = claim_triple c}) \<and>
       level (claim_confidence c) = Min ((\<lambda>st. named_level (in_confidence st)) `
         {st \<in> set sts. statement_triple st = claim_triple c})"
    if c: "c \<in> set (out_claims (reconcile_assertions sha repr sts ev))" for c
  proof -
    let ?sup = "filter (\<lambda>st. statement_triple st = claim_triple c) sts"
    have "claim_authority c = weakest_authority ?sup \<and>
        level (claim_confidence c) = weakest_level ?sup"
      using c by (elim claim_cases) (simp add: question_group_statements claim_triple_def)
    then show ?thesis
      using supporting_nonempty [OF c]
      by (simp add: weakest_authority_def weakest_level_def weakest_Min)
  qed
  then show ?thesis by (simp add: list_all_iff)
qed

subsection \<open>Unsupported predicates\<close>

lemma unknowns_unsupported:
  "(\<lambda>u. (unk_subject u, unk_field u)) `
       set (out_unknowns (reconcile_assertions sha repr sts ev)) =
     (\<lambda>st. (in_subject st, Some (in_predicate st))) `
       {st \<in> set sts. in_predicate st \<notin> set supported_predicates}"
proof -
  have "(\<lambda>u. (unk_subject u, unk_field u)) `
      set (out_unknowns (question_outcome sha repr ev sts q)) =
    (case q of (s, p) \<Rightarrow> if p \<notin> set supported_predicates then {(s, Some p)} else {})" for q
    by (cases q) (simp add: question_outcome_def reconcile_group_def Let_def
        predicate_support_def supported_predicates_def)
  then have "(\<lambda>u. (unk_subject u, unk_field u)) `
      set (out_unknowns (reconcile_assertions sha repr sts ev)) =
    (\<Union>(s, p) \<in> set (questions sts). if p \<notin> set supported_predicates then {(s, Some p)} else {})"
    by (simp only: reconcile_outcomes Let_def group_outcome.simps set_sort set_concat set_map
        image_image image_UN UN_simps)
  also have "\<dots> = (\<lambda>st. (in_subject st, Some (in_predicate st))) `
      {st \<in> set sts. in_predicate st \<notin> set supported_predicates}"
    by (auto simp: questions_def split: if_splits)
  finally show ?thesis .
qed

subsection \<open>Statement order\<close>

lemma claim_derivation_cong:
  assumes "set xs = set ys"
  shows "(case remdups xs of [m] \<Rightarrow> m | _ \<Rightarrow> d) = (case remdups ys of [m] \<Rightarrow> m | _ \<Rightarrow> d)"
proof (cases "\<exists>m. set xs = {m}")
  case True
  then obtain m where "set xs = {m}" by blast
  moreover have "remdups zs = [m]" if "set zs = {m}" for zs
    using that by (induction zs) (auto split: if_splits simp: subset_singleton_iff)
  ultimately show ?thesis using assms by simp
next
  case False
  moreover have "(case remdups zs of [m] \<Rightarrow> m | _ \<Rightarrow> d) = d" if "\<nexists>m. set zs = {m}" for zs
  proof -
    have "remdups zs \<noteq> [m]" for m
      using that set_remdups [of zs] by (metis empty_set list.simps(15))
    then show ?thesis by (simp split: list.split)
  qed
  ultimately show ?thesis using assms by simp
qed

lemma claim_for_cong:
  assumes "mset g = mset g'"
  shows "claim_for sha ix s p status cs g obj = claim_for sha ix s p status cs g' obj"
proof -
  let ?f = "filter (\<lambda>st. in_object st = obj)"
  have "mset (?f g) = mset (?f g')" using assms by simp
  then have f: "set (?f g) = set (?f g')" by (rule mset_eq_setD)
  then have "index_resolve_all ix (?f g) = index_resolve_all ix (?f g')"
    by (simp only: index_resolve_all_def map_filter_set cong: usort_cong)
      (rule usort_cong, simp only: map_filter_set)
  moreover have "usort (map input_id (?f g)) = usort (map input_id (?f g'))"
    by (rule usort_cong) (simp only: set_map f)
  moreover have "weakest_level (?f g) = weakest_level (?f g')"
    unfolding weakest_level_def by (rule weakest_cong) (simp only: set_map f)
  moreover have "weakest_authority (?f g) = weakest_authority (?f g')"
    unfolding weakest_authority_def by (rule weakest_cong) (simp only: set_map f)
  moreover have "claim_derivation (?f g) = claim_derivation (?f g')"
    unfolding claim_derivation_def by (rule claim_derivation_cong) (simp only: set_map f)
  ultimately show ?thesis
    by (simp only: claim_for_def claim_confidence_of_def Let_def)
qed

lemma question_outcome_cong:
  assumes "mset sts = mset sts'"
  shows "question_outcome sha repr ev sts q = question_outcome sha repr ev sts' q"
proof -
  let ?g = "question_group sts (fst q) (snd q)" and ?g' = "question_group sts' (fst q) (snd q)"
  have m: "mset ?g = mset ?g'" using assms by (simp add: question_group_def)
  then have s: "set ?g = set ?g'" by (rule mset_eq_setD)
  have l: "length ?g = length ?g'" using m by (metis size_mset)
  have o: "sort (dkeys (group_by in_object ?g)) = sort (dkeys (group_by in_object ?g'))"
    unfolding sort_keys_group_by by (rule usort_cong) (simp only: set_map s)
  have e: "index_resolve_all ix ?g = index_resolve_all ix ?g'" for ix
    unfolding index_resolve_all_def by (rule usort_cong) (simp only: map_filter_set s)
  have c: "claim_for sha ix sb p status cs ?g = claim_for sha ix sb p status cs ?g'"
    for ix sb p status cs
    by (rule ext) (rule claim_for_cong [OF m])
  show ?thesis
    by (simp only: question_outcome_def reconcile_group_def Let_def o e c l)
qed

text \<open>
  C26: The order in which statements arrive, and with it the order of packets and of producers,
  does not change what reconciliation returns: claims, conflicts, unknowns and diagnostics,
  down to their identities and their order, depend on the statements as a multiset.
\<close>
theorem reconcile_order_irrelevant:
  assumes "mset sts = mset sts'"
  shows "reconcile_assertions sha repr sts ev = reconcile_assertions sha repr sts' ev"
proof -
  have "questions sts = questions sts'"
    unfolding questions_def by (rule usort_cong) (simp add: mset_eq_setD [OF assms])
  moreover have "question_outcome sha repr ev sts = question_outcome sha repr ev sts'"
    by (rule ext) (rule question_outcome_cong [OF assms])
  ultimately show ?thesis by (simp only: reconcile_outcomes)
qed

definition sample_statement :: "string \<Rightarrow> string \<Rightarrow> semantic_input" where
  "sample_statement i obj =
     \<lparr>input_id = i, in_subject = ''repo:a'', in_predicate = ''package.name'', in_object = obj,
      in_authority = ''source'', in_confidence = ''high'', in_evidence_class = ''declared'',
      origin = ''repository-model''\<rparr>"

theorem reconcile_order_irrelevant_witness:
  "reconcile_assertions id id [sample_statement ''1'' ''x'', sample_statement ''2'' ''y''] [] =
   reconcile_assertions id id [sample_statement ''2'' ''y'', sample_statement ''1'' ''x''] []"
  by (rule reconcile_order_irrelevant) (simp add: add_mset_commute)

end
