(* ===== verification/Aggregate.thy ===== *)
theory Aggregate
  imports ReconcileAssertions
begin

text \<open>
  Merging of duplicate records and resolution of declared dependencies:
  \<open>stages/aggregate_repositories.py\<close>, \<open>stages/aggregate_capabilities.py\<close> and
  \<open>topology/capability_builder.py\<close>. Sets of identifiers are lists here, sorted where the code
  sorts them. \<open>str.lower\<close> is modelled on ASCII letters, which repository names use.
\<close>

definition lower_char :: "char \<Rightarrow> char" where
  "lower_char c = (let n = of_char c :: nat in if 65 \<le> n \<and> n \<le> 90 then char_of (n + 32) else c)"

definition str_lower :: "string \<Rightarrow> string" where
  "str_lower s = map lower_char s"

definition union_of :: "('r \<Rightarrow> string list) \<Rightarrow> 'r list \<Rightarrow> string list" where
  "union_of fld rs = usort (concat (map fld rs))"

lemma set_union_of [simp]: "set (union_of fld rs) = (\<Union>r \<in> set rs. set (fld r))"
  by (simp add: union_of_def)

subsection \<open>Duplicate repositories\<close>

definition identifying_fields :: "(string \<times> (repository_record \<Rightarrow> string)) list" where
  "identifying_fields = [(''source_revision'', repo_source_revision), (''name'', repo_name)]"

definition identifying_conflict ::
  "(string \<Rightarrow> string) \<Rightarrow> repository_record list \<Rightarrow> string \<times> (repository_record \<Rightarrow> string) \<Rightarrow>
   conflict_record list" where
  "identifying_conflict sha rs fg = (case fg of (fld, get) \<Rightarrow>
     (let vals = usort (map get rs); subject = repo_id (hd rs) in
      if \<not> is_conflicting (Some fld) vals then []
      else [\<lparr>conflict_id = stable_id sha ''conflict'' (PDict
               [(''id'', PStr subject), (''field'', PStr fld),
                (''values'', PSeq (map PStr vals))]),
             conf_subject = subject, conf_field = fld, conf_values = vals,
             conf_evidence_refs = union_of repo_evidence_refs rs, blocking = True,
             resolution = None\<rparr>]))"

definition merge_repositories ::
  "(string \<Rightarrow> string) \<Rightarrow> repository_record list \<Rightarrow> repository_record \<times> conflict_record list" where
  "merge_repositories sha rs =
     ((hd rs)\<lparr>secondary_roles := union_of secondary_roles rs,
        languages := union_of languages rs, package_managers := union_of package_managers rs,
        entrypoints := union_of entrypoints rs, workflows := union_of workflows rs,
        adr_refs := union_of adr_refs rs, governance_refs := union_of governance_refs rs,
        repo_capability_ids := union_of repo_capability_ids rs,
        repo_artifact_ids := union_of repo_artifact_ids rs,
        upstream_ids := union_of upstream_ids rs, downstream_ids := union_of downstream_ids rs,
        unresolved_dependencies := union_of unresolved_dependencies rs,
        owner_ids := union_of owner_ids rs,
        repo_evidence_refs := union_of repo_evidence_refs rs\<rparr>,
      concat (map (identifying_conflict sha rs) identifying_fields))"

subsection \<open>Dependency resolution\<close>

definition name_lookup :: "repository_record list \<Rightarrow> (string, ident) dict" where
  "name_lookup merged =
     fold (\<lambda>r d. dput (str_lower (removeprefix (repo_id r) ''repo:'')) (repo_id r)
         (dput (str_lower (repo_name r)) (repo_id r) d)) merged []"

text \<open>Python's \<open>a or b\<close> on optional strings, and its truth.\<close>

definition nonempty :: "string option \<Rightarrow> string option" where
  "nonempty v = (case v of Some s \<Rightarrow> if s = [] then None else Some s | None \<Rightarrow> None)"

definition resolve_name :: "(string, ident) dict \<Rightarrow> string \<Rightarrow> ident option" where
  "resolve_name lookup d =
     (case nonempty (dget lookup (str_replace (str_lower d) ''_'' ''-'')) of
        Some t \<Rightarrow> Some t
      | None \<Rightarrow> nonempty (dget lookup (str_lower d)))"

definition dependency_target :: "(string, ident) dict \<Rightarrow> ident \<Rightarrow> string \<Rightarrow> ident option" where
  "dependency_target lookup rid d =
     (case resolve_name lookup d of
        Some t \<Rightarrow> if t \<noteq> rid then Some t else None
      | None \<Rightarrow> None)"

record resolution_state =
  rs_upstream :: "ident list"
  rs_unresolved :: "string list"
  rs_unknowns :: "unknown_record list"
  rs_downstream :: "(ident, ident list) dict"

definition unresolved_unknown ::
  "(string \<Rightarrow> string) \<Rightarrow> (string \<Rightarrow> string) \<Rightarrow> repository_record \<Rightarrow> string \<Rightarrow> unknown_record" where
  "unresolved_unknown sha repr r d =
     \<lparr>unknown_id = stable_id sha ''unknown''
        (PDict [(''repository_id'', PStr (repo_id r)), (''dependency'', PStr d)]),
      unk_subject = repo_id r, unk_field = Some ''upstream_repository_ids'',
      unk_reason = ''dependency '' @ repr d @ '' does not resolve to an input repository'',
      unk_evidence_refs = repo_evidence_refs r\<rparr>"

definition resolve_dependency ::
  "(string \<Rightarrow> string) \<Rightarrow> (string \<Rightarrow> string) \<Rightarrow> (string, ident) dict \<Rightarrow> repository_record \<Rightarrow> string \<Rightarrow>
   resolution_state \<Rightarrow> resolution_state" where
  "resolve_dependency sha repr lookup r d st =
     (case dependency_target lookup (repo_id r) d of
        Some t \<Rightarrow> st\<lparr>rs_upstream := t # rs_upstream st,
                     rs_downstream := dappend t (repo_id r) (rs_downstream st)\<rparr>
      | None \<Rightarrow>
          if d \<noteq> [] then
            st\<lparr>rs_unresolved := rs_unresolved st @ [d],
               rs_unknowns := rs_unknowns st @ [unresolved_unknown sha repr r d]\<rparr>
          else st)"

definition resolve_repository ::
  "(string \<Rightarrow> string) \<Rightarrow> (string \<Rightarrow> string) \<Rightarrow> (string, ident) dict \<Rightarrow> repository_record \<Rightarrow>
   repository_record list \<times> unknown_record list \<times> (ident, ident list) dict \<Rightarrow>
   repository_record list \<times> unknown_record list \<times> (ident, ident list) dict" where
  "resolve_repository sha repr lookup r acc = (case acc of (out, unks, down) \<Rightarrow>
     (let st = fold (resolve_dependency sha repr lookup r) (unresolved_dependencies r)
            \<lparr>rs_upstream = upstream_ids r, rs_unresolved = [], rs_unknowns = unks,
             rs_downstream = down\<rparr> in
      (out @ [r\<lparr>upstream_ids := usort (rs_upstream st),
                unresolved_dependencies := sort (rs_unresolved st)\<rparr>],
       rs_unknowns st, rs_downstream st)))"

definition merged_repositories ::
  "(string \<Rightarrow> string) \<Rightarrow> repository_record list \<Rightarrow> (repository_record \<times> conflict_record list) list" where
  "merged_repositories sha records =
     (let grouped = group_by repo_id records in
      map (\<lambda>k. merge_repositories sha (dget_default [] grouped k)) (sort (dkeys grouped)))"

definition aggregate_repositories ::
  "(string \<Rightarrow> string) \<Rightarrow> (string \<Rightarrow> string) \<Rightarrow> repository_record list \<Rightarrow>
   repository_record list \<times> conflict_record list \<times> unknown_record list" where
  "aggregate_repositories sha repr records =
     (let merged = merged_repositories sha records;
          lookup = name_lookup (map fst merged) in
      case fold (resolve_repository sha repr lookup) (map fst merged) ([], [], []) of
        (resolved, unks, down) \<Rightarrow>
          (map (\<lambda>r. r\<lparr>downstream_ids := usort (dget_default [] down (repo_id r))\<rparr>) resolved,
           concat (map snd merged), unks))"

subsection \<open>Duplicate capabilities\<close>

definition merge_capabilities ::
  "(string \<Rightarrow> string) \<Rightarrow> ident \<Rightarrow> capability_record list \<Rightarrow> capability_record \<times> conflict_record list"
  where
  "merge_capabilities sha cid cs =
     (let descriptions = usort (map cap_description cs) in
      ((hd cs)\<lparr>implemented_by := union_of implemented_by cs, exposed_by := union_of exposed_by cs,
         validated_by := union_of validated_by cs, governed_by := union_of governed_by cs,
         cap_evidence_refs := union_of cap_evidence_refs cs\<rparr>,
       if is_conflicting (Some ''description'') descriptions then
         [\<lparr>conflict_id = stable_id sha ''conflict'' (PDict
             [(''capability_id'', PStr cid), (''field'', PStr ''description''),
              (''values'', PSeq (map PStr descriptions))]),
           conf_subject = cid, conf_field = ''description'', conf_values = descriptions,
           conf_evidence_refs = union_of cap_evidence_refs cs, blocking = False,
           resolution = None\<rparr>]
       else []))"

definition aggregate_capabilities ::
  "(string \<Rightarrow> string) \<Rightarrow> capability_record list \<Rightarrow> capability_record list \<times> conflict_record list"
  where
  "aggregate_capabilities sha records =
     (let grouped = group_by cap_id records;
          outs = map (\<lambda>k. merge_capabilities sha k (dget_default [] grouped k))
            (sort (dkeys grouped)) in
      (map fst outs, concat (map snd outs)))"

subsection \<open>Capabilities declared by repositories and artifacts\<close>

definition last_segment :: "string \<Rightarrow> string" where
  "last_segment s = last (split_on (CHR '':'') s)"

definition declare_capability ::
  "repository_record \<Rightarrow> ident \<Rightarrow> (ident, capability_record) dict \<Rightarrow>
   (ident, capability_record) dict" where
  "declare_capability r c by_id =
     (if dget by_id c \<noteq> None then by_id
      else dput c \<lparr>cap_id = c, cap_name = last_segment c,
          cap_description = ''Capability declared by repository '' @ repo_name r @ ''.'',
          implemented_by = [repo_id r], exposed_by = [], validated_by = [], governed_by = [],
          cap_evidence_refs = repo_evidence_refs r, cap_confidence = repo_confidence r\<rparr> by_id)"

definition derive_capability ::
  "ident \<times> ident list \<Rightarrow> (ident, capability_record) dict \<Rightarrow> (ident, capability_record) dict" where
  "derive_capability ci by_id = (case ci of (c, implementers) \<Rightarrow>
     (case dget by_id c of
        None \<Rightarrow>
          dput c \<lparr>cap_id = c, cap_name = last_segment c,
            cap_description = ''Capability derived from artifact declarations.'',
            implemented_by = usort implementers, exposed_by = [], validated_by = [],
            governed_by = [], cap_evidence_refs = [],
            cap_confidence = confidence_deterministic False\<rparr> by_id
      | Some existing \<Rightarrow>
          dput c (existing\<lparr>implemented_by := usort (implemented_by existing @ implementers)\<rparr>) by_id))"

definition artifact_implementers :: "artifact_record list \<Rightarrow> (ident, ident list) dict" where
  "artifact_implementers arts =
     fold (\<lambda>a d. fold (\<lambda>c. dappend c (art_id a)) (art_capabilities a) d) arts []"

definition build_capabilities ::
  "repository_record list \<Rightarrow> artifact_record list \<Rightarrow> capability_record list \<Rightarrow>
   capability_record list" where
  "build_capabilities repos arts declared =
     (let by_id = fold (\<lambda>c. dput (cap_id c) c) declared [];
          by_id = fold (\<lambda>r d. fold (declare_capability r) (repo_capability_ids r) d) repos by_id;
          by_id = fold derive_capability (artifact_implementers arts) by_id in
      sort_key cap_id (dvalues by_id))"

subsection \<open>What resolution computes\<close>

definition dependency_targets :: "(string, ident) dict \<Rightarrow> repository_record \<Rightarrow> ident list" where
  "dependency_targets lookup r =
     List.map_filter (dependency_target lookup (repo_id r)) (unresolved_dependencies r)"

definition dangling :: "(string, ident) dict \<Rightarrow> ident \<Rightarrow> string \<Rightarrow> bool" where
  "dangling lookup rid d \<longleftrightarrow> dependency_target lookup rid d = None \<and> d \<noteq> []"

definition resolved_view :: "(string, ident) dict \<Rightarrow> repository_record \<Rightarrow> repository_record" where
  "resolved_view lookup r =
     r\<lparr>upstream_ids := usort (upstream_ids r @ dependency_targets lookup r),
       unresolved_dependencies :=
         sort (filter (dangling lookup (repo_id r)) (unresolved_dependencies r))\<rparr>"

lemma set_dependency_targets:
  "t \<in> set (dependency_targets lookup r) \<longleftrightarrow>
     (\<exists>d \<in> set (unresolved_dependencies r). dependency_target lookup (repo_id r) d = Some t)"
  by (simp add: dependency_targets_def map_filter_set)

lemma resolve_dependency_simps:
  "dependency_target lookup (repo_id r) d = Some t \<Longrightarrow>
     resolve_dependency sha repr lookup r d st =
       st\<lparr>rs_upstream := t # rs_upstream st, rs_downstream := dappend t (repo_id r) (rs_downstream st)\<rparr>"
  "dangling lookup (repo_id r) d \<Longrightarrow>
     resolve_dependency sha repr lookup r d st =
       st\<lparr>rs_unresolved := rs_unresolved st @ [d],
          rs_unknowns := rs_unknowns st @ [unresolved_unknown sha repr r d]\<rparr>"
  "dependency_target lookup (repo_id r) d = None \<Longrightarrow> \<not> dangling lookup (repo_id r) d \<Longrightarrow>
     resolve_dependency sha repr lookup r d st = st"
  by (simp_all add: resolve_dependency_def dangling_def)

lemma resolve_dependencies_all:
  "set (rs_upstream (fold (resolve_dependency sha repr lookup r) ds st)) =
          set (rs_upstream st) \<union> set (List.map_filter (dependency_target lookup (repo_id r)) ds) \<and>
        rs_unresolved (fold (resolve_dependency sha repr lookup r) ds st) =
          rs_unresolved st @ filter (dangling lookup (repo_id r)) ds \<and>
        rs_unknowns (fold (resolve_dependency sha repr lookup r) ds st) = rs_unknowns st @
          map (unresolved_unknown sha repr r) (filter (dangling lookup (repo_id r)) ds) \<and>
        set (dget_default [] (rs_downstream (fold (resolve_dependency sha repr lookup r) ds st)) k) =
          set (dget_default [] (rs_downstream st) k) \<union>
            (if k \<in> set (List.map_filter (dependency_target lookup (repo_id r)) ds)
             then {repo_id r} else {})"
proof (induction ds arbitrary: st)
    case (Cons d ds)
    show ?case
    proof (cases "dependency_target lookup (repo_id r) d")
      case (Some t)
      then have "\<not> dangling lookup (repo_id r) d" by (simp add: dangling_def)
      with Some show ?thesis
        using Cons [of "resolve_dependency sha repr lookup r d st"]
        by (auto simp: resolve_dependency_simps map_filter_simps dget_dappend)
    next
      case None
      then show ?thesis
        using Cons [of "resolve_dependency sha repr lookup r d st"]
        by (cases "dangling lookup (repo_id r) d")
          (simp_all add: resolve_dependency_simps map_filter_simps)
    qed
qed (simp add: map_filter_simps)

lemmas resolve_dependencies =
  resolve_dependencies_all [THEN conjunct1]
  resolve_dependencies_all [THEN conjunct2, THEN conjunct1]
  resolve_dependencies_all [THEN conjunct2, THEN conjunct2, THEN conjunct1]
  resolve_dependencies_all [THEN conjunct2, THEN conjunct2, THEN conjunct2]

definition repository_unknowns ::
  "(string \<Rightarrow> string) \<Rightarrow> (string \<Rightarrow> string) \<Rightarrow> (string, ident) dict \<Rightarrow> repository_record \<Rightarrow>
   unknown_record list" where
  "repository_unknowns sha repr lookup r =
     map (unresolved_unknown sha repr r)
       (filter (dangling lookup (repo_id r)) (unresolved_dependencies r))"

lemma resolve_repository_eq:
  "\<exists>down'. resolve_repository sha repr lookup r (out, unks, down) =
       (out @ [resolved_view lookup r], unks @ repository_unknowns sha repr lookup r, down') \<and>
     (\<forall>k. set (dget_default [] down' k) = set (dget_default [] down k) \<union>
        (if k \<in> set (dependency_targets lookup r) then {repo_id r} else {}))"
proof -
  let ?st = "fold (resolve_dependency sha repr lookup r) (unresolved_dependencies r)
    \<lparr>rs_upstream = upstream_ids r, rs_unresolved = [], rs_unknowns = unks, rs_downstream = down\<rparr>"
  have "usort (rs_upstream ?st) = usort (upstream_ids r @ dependency_targets lookup r)"
    by (rule usort_cong) (simp add: resolve_dependencies(1) dependency_targets_def)
  then have "resolve_repository sha repr lookup r (out, unks, down) =
      (out @ [resolved_view lookup r], unks @ repository_unknowns sha repr lookup r, rs_downstream ?st)"
    by (simp add: resolve_repository_def Let_def resolved_view_def repository_unknowns_def
        resolve_dependencies(2,3))
  moreover have "set (dget_default [] (rs_downstream ?st) k) = set (dget_default [] down k) \<union>
      (if k \<in> set (dependency_targets lookup r) then {repo_id r} else {})" for k
    by (simp add: resolve_dependencies(4) dependency_targets_def)
  ultimately show ?thesis by blast
qed

lemma resolve_repositories_eq:
  "\<exists>down'. fold (resolve_repository sha repr lookup) rs (out, unks, down) =
       (out @ map (resolved_view lookup) rs,
        unks @ concat (map (repository_unknowns sha repr lookup) rs), down') \<and>
     (\<forall>k. set (dget_default [] down' k) = set (dget_default [] down k) \<union>
        {repo_id r | r. r \<in> set rs \<and> k \<in> set (dependency_targets lookup r)})"
proof (induction rs arbitrary: out unks down)
  case (Cons r rs)
  obtain d1 where d1: "resolve_repository sha repr lookup r (out, unks, down) =
       (out @ [resolved_view lookup r], unks @ repository_unknowns sha repr lookup r, d1)"
    and k1: "\<And>k. set (dget_default [] d1 k) = set (dget_default [] down k) \<union>
        (if k \<in> set (dependency_targets lookup r) then {repo_id r} else {})"
    using resolve_repository_eq by blast
  obtain d2 where d2: "fold (resolve_repository sha repr lookup) rs
         (out @ [resolved_view lookup r], unks @ repository_unknowns sha repr lookup r, d1) =
       ((out @ [resolved_view lookup r]) @ map (resolved_view lookup) rs,
        (unks @ repository_unknowns sha repr lookup r) @
          concat (map (repository_unknowns sha repr lookup) rs), d2)"
    and k2: "\<And>k. set (dget_default [] d2 k) = set (dget_default [] d1 k) \<union>
        {repo_id r | r. r \<in> set rs \<and> k \<in> set (dependency_targets lookup r)}"
    using Cons by blast
  have "set (dget_default [] d2 k) = set (dget_default [] down k) \<union>
      {repo_id r' | r'. r' \<in> set (r # rs) \<and> k \<in> set (dependency_targets lookup r')}" for k
    unfolding k2 k1 by auto
  with d1 d2 show ?case by simp
qed simp

lemma merge_repositories_simps [simp]:
  "repo_id (fst (merge_repositories sha rs)) = repo_id (hd rs)"
  "upstream_ids (fst (merge_repositories sha rs)) = union_of upstream_ids rs"
  "unresolved_dependencies (fst (merge_repositories sha rs)) = union_of unresolved_dependencies rs"
  by (simp_all add: merge_repositories_def)

lemma merged_groups:
  "merged_repositories sha records =
     map (\<lambda>k. merge_repositories sha (filter (\<lambda>r. repo_id r = k) records))
       (usort (map repo_id records))"
  by (simp add: merged_repositories_def Let_def sort_keys_group_by dget_group_by)

lemma hd_filter: "\<exists>x \<in> set xs. P x \<Longrightarrow> hd (filter P xs) \<in> set xs \<and> P (hd (filter P xs))"
  by (induction xs) auto

lemma merged_repo_id:
  assumes "k \<in> repo_id ` set records"
  shows "repo_id (fst (merge_repositories sha (filter (\<lambda>r. repo_id r = k) records))) = k"
  using assms hd_filter [of records "\<lambda>r. repo_id r = k"] by auto

lemma merged_ids: "map (\<lambda>m. repo_id (fst m)) (merged_repositories sha records) =
    usort (map repo_id records)"
  unfolding merged_groups list.map_comp comp_def
  by (rule map_idI) (use merged_repo_id [of _ records] in simp)

text \<open>
  The links the declared names resolve to, between the merged repositories: a dependency name
  of a repository and the repository it names.
\<close>

definition lookup_of :: "(string \<Rightarrow> string) \<Rightarrow> repository_record list \<Rightarrow> (string, ident) dict" where
  "lookup_of sha records = name_lookup (map fst (merged_repositories sha records))"

definition resolved_links ::
  "(string \<Rightarrow> string) \<Rightarrow> repository_record list \<Rightarrow> (ident \<times> ident) set" where
  "resolved_links sha records =
     {(repo_id r, t) | r d t. r \<in> set records \<and> d \<in> set (unresolved_dependencies r) \<and>
        dependency_target (lookup_of sha records) (repo_id r) d = Some t}"

definition merged_list :: "(string \<Rightarrow> string) \<Rightarrow> repository_record list \<Rightarrow> repository_record list" where
  "merged_list sha records = map fst (merged_repositories sha records)"

definition merged_set :: "(string \<Rightarrow> string) \<Rightarrow> repository_record list \<Rightarrow> repository_record set" where
  "merged_set sha records = set (merged_list sha records)"

lemma set_merged_list [simp]: "set (merged_list sha records) = merged_set sha records"
  by (simp add: merged_set_def)

lemma lookup_of_merged: "lookup_of sha records = name_lookup (merged_list sha records)"
  by (simp add: lookup_of_def merged_list_def)

lemma dget_default_Nil [simp]: "dget_default v [] k = v"
  by (simp add: dget_default_def)

lemma aggregate_records:
  "\<exists>down. fst (aggregate_repositories sha repr records) =
      map (\<lambda>r. (resolved_view (lookup_of sha records) r)
          \<lparr>downstream_ids := usort (dget_default [] down (repo_id r))\<rparr>)
        (merged_list sha records) \<and>
    snd (snd (aggregate_repositories sha repr records)) =
      concat (map (repository_unknowns sha repr (lookup_of sha records))
        (merged_list sha records)) \<and>
    (\<forall>k. set (dget_default [] down k) =
      {repo_id r | r. r \<in> merged_set sha records \<and>
         k \<in> set (dependency_targets (lookup_of sha records) r)})"
proof -
  let ?ms = "merged_list sha records"
  obtain down where "fold (resolve_repository sha repr (lookup_of sha records)) ?ms ([], [], []) =
       ([] @ map (resolved_view (lookup_of sha records)) ?ms,
        [] @ concat (map (repository_unknowns sha repr (lookup_of sha records)) ?ms), down)"
    and "\<And>k. set (dget_default [] down k) = set (dget_default [] [] k) \<union>
        {repo_id r | r. r \<in> set ?ms \<and> k \<in> set (dependency_targets (lookup_of sha records) r)}"
    using resolve_repositories_eq by blast
  then show ?thesis
    by (intro exI [of _ down])
      (simp add: aggregate_repositories_def Let_def lookup_of_merged [symmetric] resolved_view_def
        comp_def merged_list_def [symmetric])
qed

subsection \<open>Links\<close>

lemma merged_record_iff:
  "r \<in> merged_set sha records \<longleftrightarrow>
     (\<exists>k \<in> repo_id ` set records.
        r = fst (merge_repositories sha (filter (\<lambda>x. repo_id x = k) records)))"
  by (auto simp: merged_groups merged_set_def merged_list_def)

lemma merged_fields:
  "(\<Union>m \<in> merged_set sha records. {repo_id m} \<times> set (unresolved_dependencies m)) =
     (\<Union>r \<in> set records. {repo_id r} \<times> set (unresolved_dependencies r))"
  "(\<Union>m \<in> merged_set sha records. {repo_id m} \<times> set (upstream_ids m)) =
     (\<Union>r \<in> set records. {repo_id r} \<times> set (upstream_ids r))"
proof -
  let ?M = "\<lambda>k. fst (merge_repositories sha (filter (\<lambda>x. repo_id x = k) records))"
  have m: "merged_set sha records = ?M ` repo_id ` set records"
    by (auto simp: merged_groups merged_set_def merged_list_def)
  have "(\<Union>m \<in> ?M ` repo_id ` set records. {repo_id m} \<times> set (unresolved_dependencies m)) =
      (\<Union>k \<in> repo_id ` set records. {k} \<times>
        (\<Union>r \<in> {x \<in> set records. repo_id x = k}. set (unresolved_dependencies r)))"
    unfolding image_image [of _ ?M] UN_simps(10)
    by (rule SUP_cong) (auto simp: merged_repo_id simp del: merge_repositories_simps(1))
  then show "(\<Union>m \<in> merged_set sha records.
      {repo_id m} \<times> set (unresolved_dependencies m)) =
    (\<Union>r \<in> set records. {repo_id r} \<times> set (unresolved_dependencies r))"
    unfolding m by auto
  have "(\<Union>m \<in> ?M ` repo_id ` set records. {repo_id m} \<times> set (upstream_ids m)) =
      (\<Union>k \<in> repo_id ` set records. {k} \<times>
        (\<Union>r \<in> {x \<in> set records. repo_id x = k}. set (upstream_ids r)))"
    unfolding image_image [of _ ?M] UN_simps(10)
    by (rule SUP_cong) (auto simp: merged_repo_id simp del: merge_repositories_simps(1))
  then show "(\<Union>m \<in> merged_set sha records.
      {repo_id m} \<times> set (upstream_ids m)) =
    (\<Union>r \<in> set records. {repo_id r} \<times> set (upstream_ids r))"
    unfolding m by auto
qed

lemma merged_repo_ids: "repo_id ` merged_set sha records = repo_id ` set records"
  using arg_cong [OF merged_ids, of set sha records] by (simp add: image_image merged_set_def merged_list_def)

lemma name_lookup_ids: "dget (name_lookup ms) n = Some t \<Longrightarrow> t \<in> repo_id ` set ms"
proof -
  have "dget (fold (\<lambda>r d. dput (str_lower (removeprefix (repo_id r) ''repo:'')) (repo_id r)
      (dput (str_lower (repo_name r)) (repo_id r) d)) ms d0) n = Some t \<Longrightarrow>
    dget d0 n = Some t \<or> t \<in> repo_id ` set ms" for d0
  proof (induction ms arbitrary: d0)
    case (Cons m ms)
    from Cons.prems have "dget (dput (str_lower (removeprefix (repo_id m) ''repo:'')) (repo_id m)
        (dput (str_lower (repo_name m)) (repo_id m) d0)) n = Some t \<or> t \<in> repo_id ` set ms"
      by (intro Cons.IH) simp
    then show ?case by (auto simp: dict.lookup_put split: if_splits)
  qed simp
  from this [of "[]"] show "dget (name_lookup ms) n = Some t \<Longrightarrow> t \<in> repo_id ` set ms"
    by (simp add: name_lookup_def)
qed

lemma dependency_target_ids:
  assumes "dependency_target (lookup_of sha records) rid d = Some t"
  shows "t \<in> repo_id ` set records" and "t \<noteq> rid"
proof -
  have "\<exists>n. dget (lookup_of sha records) n = Some t"
    using assms by (auto simp: dependency_target_def resolve_name_def nonempty_def
        split: option.splits if_splits)
  then have "t \<in> repo_id ` merged_set sha records"
    using name_lookup_ids unfolding lookup_of_merged by fastforce
  then show "t \<in> repo_id ` set records" by (simp only: merged_repo_ids)
  show "t \<noteq> rid"
    using assms by (auto simp: dependency_target_def split: option.splits if_splits)
qed

lemma merged_links:
  "(\<Union>m \<in> merged_set sha records.
      {repo_id m} \<times> set (dependency_targets (lookup_of sha records) m)) =
   resolved_links sha records"
proof -
  have "(\<Union>m \<in> merged_set sha records.
      {repo_id m} \<times> set (dependency_targets (lookup_of sha records) m)) =
    {(k, t). \<exists>d. (k, d) \<in> (\<Union>m \<in> merged_set sha records.
       {repo_id m} \<times> set (unresolved_dependencies m)) \<and>
       dependency_target (lookup_of sha records) k d = Some t}"
    by (fastforce simp: set_dependency_targets)
  also have "\<dots> = resolved_links sha records"
    unfolding merged_fields resolved_links_def by auto
  finally show ?thesis .
qed

lemma resolved_view_simps [simp]:
  "repo_id (resolved_view lookup r) = repo_id r"
  "set (upstream_ids (resolved_view lookup r)) =
     set (upstream_ids r) \<union> set (dependency_targets lookup r)"
  "set (unresolved_dependencies (resolved_view lookup r)) =
     {d \<in> set (unresolved_dependencies r). dangling lookup (repo_id r) d}"
  by (simp_all add: resolved_view_def)

text \<open>
  The two directions of the dependency relation. A repository's upstream links are the ones
  its records declare together with the ones its dependency names resolve to; its downstream
  links are exactly the resolved ones, read backwards, whatever its records declare. No
  resolved link is lost, and none points at the repository itself or outside the input.
\<close>
theorem aggregate_repositories_links:
  "(\<Union>r \<in> set (fst (aggregate_repositories sha repr records)).
       {repo_id r} \<times> set (upstream_ids r)) =
     (\<Union>r \<in> set records. {repo_id r} \<times> set (upstream_ids r)) \<union> resolved_links sha records \<and>
   (\<Union>r \<in> set (fst (aggregate_repositories sha repr records)).
       set (downstream_ids r) \<times> {repo_id r}) = resolved_links sha records \<and>
   resolved_links sha records \<subseteq> (repo_id ` set records \<times> repo_id ` set records) - Id"
proof (intro conjI)
  let ?L = "lookup_of sha records" and ?ms = "merged_set sha records"
  obtain down where recs: "fst (aggregate_repositories sha repr records) =
      map (\<lambda>r. (resolved_view ?L r)\<lparr>downstream_ids := usort (dget_default [] down (repo_id r))\<rparr>)
        (merged_list sha records)"
    and down: "\<And>k. set (dget_default [] down k) =
      {repo_id r | r. r \<in> ?ms \<and> k \<in> set (dependency_targets ?L r)}"
    using aggregate_records by blast
  have "(\<Union>r \<in> set (fst (aggregate_repositories sha repr records)).
       {repo_id r} \<times> set (upstream_ids r)) =
      (\<Union>m \<in> ?ms. {repo_id m} \<times> (set (upstream_ids m) \<union> set (dependency_targets ?L m)))"
    unfolding recs by simp
  also have "\<dots> = (\<Union>m \<in> ?ms. {repo_id m} \<times> set (upstream_ids m)) \<union>
      (\<Union>m \<in> ?ms. {repo_id m} \<times> set (dependency_targets ?L m))"
    by auto
  also have "\<dots> = (\<Union>r \<in> set records. {repo_id r} \<times> set (upstream_ids r)) \<union>
      resolved_links sha records"
    by (simp only: merged_fields merged_links)
  finally show "(\<Union>r \<in> set (fst (aggregate_repositories sha repr records)).
       {repo_id r} \<times> set (upstream_ids r)) =
     (\<Union>r \<in> set records. {repo_id r} \<times> set (upstream_ids r)) \<union> resolved_links sha records" .
  have "(\<Union>r \<in> set (fst (aggregate_repositories sha repr records)).
       set (downstream_ids r) \<times> {repo_id r}) =
      (\<Union>k \<in> repo_id ` ?ms. set (dget_default [] down k) \<times> {k})"
    unfolding recs by simp
  also have "\<dots> = {(a, k). k \<in> repo_id ` ?ms \<and> (a, k) \<in> resolved_links sha records}"
    unfolding down merged_links [symmetric] by auto
  also have "\<dots> = resolved_links sha records"
    unfolding merged_repo_ids using dependency_target_ids
    by (fastforce simp: resolved_links_def)
  finally show "(\<Union>r \<in> set (fst (aggregate_repositories sha repr records)).
       set (downstream_ids r) \<times> {repo_id r}) = resolved_links sha records" .
  show "resolved_links sha records \<subseteq> (repo_id ` set records \<times> repo_id ` set records) - Id"
    using dependency_target_ids by (fastforce simp: resolved_links_def)
qed

lemma fst_pairs: "fst ` {(f r, d) | r d. r \<in> A \<and> d \<in> B r \<and> P r d} =
    {f r | r d. r \<in> A \<and> d \<in> B r \<and> P r d}"
  by force


end
