(* ===== verification/CorpusDomain.thy ===== *)
theory CorpusDomain
  imports Domain
begin

text \<open>
  The records of a corpus analysis: \<open>domain/corpus.py\<close>, \<open>candidate.py\<close>, \<open>readiness.py\<close> and
  \<open>reasoning.py\<close>, and the topology state of \<open>domain/topology.py\<close>, which holds them in fields of
  their own beside the canonical records.
\<close>

subsection \<open>Corpora and roots\<close>

datatype root_identity_class = root_declared | root_inferred

fun root_class_value :: "root_identity_class \<Rightarrow> string" where
  "root_class_value root_declared = ''declared''"
| "root_class_value root_inferred = ''inferred''"

record root_record =
  root_id :: ident
  root_class :: root_identity_class
  root_revision :: string
  root_packet_id :: ident
  root_repository :: "ident option"
  root_evidence_refs :: "ident list"
  root_conf :: confidence_assessment

record corpus_record =
  corpus_id :: ident
  corpus_snapshot_id :: ident
  corpus_analysis_id :: ident
  corpus_root_ids :: "ident list"
  coverage_ref :: "ident option"
  corpus_evidence_refs :: "ident list"
  corpus_conf :: confidence_assessment

definition root_confidence :: "root_identity_class \<Rightarrow> confidence_assessment" where
  "root_confidence c =
     (let declared = c = root_declared in
      \<lparr>level = (if declared then level_high else level_medium), evidence_strength = strength_direct,
       derivation_method = (if declared then method_declared else method_deterministic),
       conf_authority = (if declared then auth_source else auth_derived),
       completeness = comp_sufficient, conf_conflict_status = conflict_none\<rparr>)"

definition corpus_confidence :: confidence_assessment where
  "corpus_confidence =
     \<lparr>level = level_medium, evidence_strength = strength_direct,
      derivation_method = method_deterministic, conf_authority = auth_derived,
      completeness = comp_sufficient, conf_conflict_status = conflict_none\<rparr>"

subsection \<open>Candidates\<close>

datatype candidate_type = topic_candidate | project_candidate | consolidation_candidate

fun candidate_type_value :: "candidate_type \<Rightarrow> string" where
  "candidate_type_value topic_candidate = ''TOPIC_CANDIDATE''"
| "candidate_type_value project_candidate = ''PROJECT_CANDIDATE''"
| "candidate_type_value consolidation_candidate = ''CONSOLIDATION_CANDIDATE''"

datatype confidence_class = weak | moderate | strong

fun class_rank :: "confidence_class \<Rightarrow> nat" where
  "class_rank weak = 0"
| "class_rank moderate = 1"
| "class_rank strong = 2"

fun confidence_class_value :: "confidence_class \<Rightarrow> string" where
  "confidence_class_value weak = ''weak''"
| "confidence_class_value moderate = ''moderate''"
| "confidence_class_value strong = ''strong''"

lemma class_rank_inj: "class_rank a = class_rank b \<longleftrightarrow> a = b"
  by (cases a; cases b) simp_all

text \<open>\<open>CONFIDENCE_CLASS_ORDER\<close>, weakest first.\<close>

instantiation confidence_class :: linorder
begin
definition less_eq_confidence_class :: "confidence_class \<Rightarrow> confidence_class \<Rightarrow> bool" where
  "less_eq_confidence_class a b \<longleftrightarrow> class_rank a \<le> class_rank b"
definition less_confidence_class :: "confidence_class \<Rightarrow> confidence_class \<Rightarrow> bool" where
  "less_confidence_class a b \<longleftrightarrow> class_rank a < class_rank b"
instance
  by standard
    (auto simp: less_eq_confidence_class_def less_confidence_class_def class_rank_inj)
end

definition weaken_to :: "confidence_class \<Rightarrow> confidence_class \<Rightarrow> confidence_class" where
  "weaken_to current proposed = min current proposed"

definition ambiguity_conflicting_status :: string where
  "ambiguity_conflicting_status = ''conflicting_status''"

definition ambiguity_disconnected :: string where
  "ambiguity_disconnected = ''structurally_disconnected_members''"

definition ambiguity_cross_root :: string where
  "ambiguity_cross_root = ''spans_multiple_roots''"

text \<open>A finite double: \<open>(m, e)\<close> is \<open>m / 2 ^ e\<close>. Scores are carried and bounded, never computed with.\<close>

type_synonym score = "int \<times> nat"

definition unit_score :: "score \<Rightarrow> bool" where
  "unit_score q = (case q of (m, e) \<Rightarrow> 0 \<le> m \<and> m \<le> 2 ^ e)"

record candidate_relation =
  crel_id :: ident
  crel_source :: ident
  crel_target :: ident
  crel_methods :: "string list"
  crel_scores :: "(string \<times> score) list"
  crel_evidence_refs :: "ident list"
  crel_class :: confidence_class
  crel_profile :: string
  crel_upstream :: "ident option"
  crel_conf :: confidence_assessment

record structural_evidence =
  member_count :: nat
  repository_count :: nat
  root_count :: nat
  archive_member_count :: nat
  internal_duplicates :: nat
  internal_references :: nat
  internal_dependencies :: nat
  internal_supersessions :: nat
  blocker_count :: nat
  status_distribution :: "(string, nat) dict"
  kind_distribution :: "(string, nat) dict"
  conflicting_status_count :: nat
  capability_count :: nat
  external_dependency_count :: nat

definition structural_support_count :: "structural_evidence \<Rightarrow> nat" where
  "structural_support_count e =
     internal_duplicates e + internal_references e + internal_dependencies e +
     internal_supersessions e"

record cluster_record =
  cl_id :: ident
  cl_type :: candidate_type
  cl_members :: "ident list"
  cl_relations :: "ident list"
  cl_evidence_refs :: "ident list"
  cl_class :: confidence_class
  cl_flags :: "string list"
  cl_cross_root :: bool
  cl_cross_archive :: bool
  cl_profile :: string
  cl_upstream :: "ident option"
  cl_structure :: structural_evidence
  cl_readiness :: "ident option"
  cl_conf :: confidence_assessment

text \<open>The validators of the two candidate records.\<close>

definition candidate_relation_valid :: "candidate_relation \<Rightarrow> bool" where
  "candidate_relation_valid r \<longleftrightarrow>
     conf_authority (crel_conf r) = auth_candidate \<and> crel_source r \<noteq> crel_target r"

definition cluster_record_valid :: "cluster_record \<Rightarrow> bool" where
  "cluster_record_valid c \<longleftrightarrow> conf_authority (cl_conf c) = auth_candidate \<and> cl_members c \<noteq> []"

subsection \<open>Readiness and reasoning\<close>

record readiness_counts =
  n_source_artifacts :: nat
  n_test_artifacts :: nat
  n_build_manifests :: nat
  n_ci_definitions :: nat
  n_deployment_definitions :: nat
  n_specifications :: nat
  n_documentation :: nat
  n_plans :: nat
  n_roadmaps :: nat
  n_wips :: nat
  n_drafts :: nat
  n_blocked :: nat
  n_open_tasks :: nat
  n_completed_tasks :: nat
  n_milestones :: nat
  n_exact_duplicates :: nat
  n_near_duplicates :: nat
  n_consolidations :: nat
  n_coverage_gaps :: nat

record readiness_record =
  rd_id :: ident
  rd_subject :: ident
  rd_profile_id :: string
  rd_profile_version :: string
  rd_counts :: readiness_counts
  rd_evidence_refs :: "ident list"
  rd_conf :: confidence_assessment

definition readiness_record_valid :: "readiness_record \<Rightarrow> bool" where
  "readiness_record_valid r \<longleftrightarrow> conf_authority (rd_conf r) \<noteq> auth_source"

datatype reasoning_type =
    rt_none | rt_same_body_of_work | rt_project_identity | rt_version_evolution
  | rt_consolidation | rt_supersession | rt_conflict_resolution

fun reasoning_type_value :: "reasoning_type \<Rightarrow> string" where
  "reasoning_type_value rt_none = ''NONE''"
| "reasoning_type_value rt_same_body_of_work = ''SAME_BODY_OF_WORK_ADJUDICATION''"
| "reasoning_type_value rt_project_identity = ''PROJECT_IDENTITY_ADJUDICATION''"
| "reasoning_type_value rt_version_evolution = ''VERSION_EVOLUTION_ANALYSIS''"
| "reasoning_type_value rt_consolidation = ''CONSOLIDATION_ANALYSIS''"
| "reasoning_type_value rt_supersession = ''SUPERSESSION_ANALYSIS''"
| "reasoning_type_value rt_conflict_resolution = ''CONFLICT_RESOLUTION_ANALYSIS''"

definition signal_confirmed_conflict :: string where
  "signal_confirmed_conflict = ''confirmed_claim_conflict''"

definition signal_unresolved_reference :: string where
  "signal_unresolved_reference = ''unresolved_exact_reference''"

definition signal_ambiguous_supersession :: string where
  "signal_ambiguous_supersession = ''ambiguous_supersession''"

definition signal_disconnected :: string where
  "signal_disconnected = ''structurally_disconnected_project_candidate''"

definition signal_spans_roots :: string where
  "signal_spans_roots = ''spans_multiple_roots_and_versions''"

definition signal_exact_duplicate_only :: string where
  "signal_exact_duplicate_only = ''exact_duplicate_only''"

definition signal_explained :: string where
  "signal_explained = ''already_explained_by_exact_source_relation''"

record reasoning_candidate =
  rc_id :: ident
  rc_candidate :: ident
  rc_upstream :: "reasoning_type option"
  rc_type :: reasoning_type
  rc_reason :: string
  rc_triggers :: "string list"
  rc_signals :: "string list"
  rc_conflict_refs :: "ident list"
  rc_unknown_refs :: "ident list"
  rc_readiness :: "ident option"
  rc_evidence_refs :: "ident list"
  rc_neighborhood :: "ident list"

definition escalated :: "reasoning_candidate \<Rightarrow> bool" where
  "escalated r \<longleftrightarrow> rc_type r \<noteq> rt_none \<and> rc_upstream r \<in> {None, Some rt_none}"

definition deescalated :: "reasoning_candidate \<Rightarrow> bool" where
  "deescalated r \<longleftrightarrow> rc_type r = rt_none \<and> rc_upstream r \<noteq> None \<and> rc_upstream r \<noteq> Some rt_none"

subsection \<open>The topology state\<close>

record topology_state =
  repository_records :: "repository_record list"
  artifact_records :: "artifact_record list"
  capability_records :: "capability_record list"
  semantic_claims :: "semantic_claim list"
  edge_records :: "edge_record list"
  flow_records :: "flow_record list"
  graph_records :: "graph_record list"
  risks :: "risk_record list"
  maturity :: "maturity_assessment list"
  impact_indexes :: "impact_index list"
  corpus_records :: "corpus_record list"
  root_records :: "root_record list"
  candidate_relations :: "candidate_relation list"
  candidate_clusters :: "cluster_record list"
  readiness_evidence :: "readiness_record list"
  reasoning_candidates :: "reasoning_candidate list"
  state_evidence :: "evidence_record list"
  diagnostics :: "diagnostic_record list"
  unknowns :: "unknown_record list"
  conflicts :: "conflict_record list"

end
