(* ===== verification/Packets.thy ===== *)
theory Packets
  imports CorpusDomain
begin

text \<open>
  The wire models the compiler reads (\<open>packets/\<close>): the shared value objects of \<open>common.py\<close> and
  \<open>refs.py\<close>, the Repository Model Packet (\<open>repository_model.py\<close>) and the Corpus Intelligence
  Packet (\<open>corpus_intelligence.py\<close>). A packet arrives as a parsed value; the validators the
  models declare are functions that return the first complaint.
\<close>

subsection \<open>Shared value objects\<close>

datatype validation_status = status_passed | status_failed | status_not_run | status_blocked

fun validation_status_value :: "validation_status \<Rightarrow> string" where
  "validation_status_value status_passed = ''passed''"
| "validation_status_value status_failed = ''failed''"
| "validation_status_value status_not_run = ''not_run''"
| "validation_status_value status_blocked = ''blocked''"

record producer_ref =
  producer_name :: string
  producer_build :: string

record profile_ref =
  profile_name :: string
  profile_build :: string
  profile_digest :: string

record source_snapshot =
  snapshot_revision :: string
  snapshot_hash :: string

record packet_validation_ref =
  pv_status :: validation_status
  pv_receipt_ref :: "string option"

record packet_lineage =
  parent_packet_ids :: "ident list"
  lineage_root :: "ident option"
  generation :: nat

record packet_ref =
  pr_packet_id :: ident
  pr_packet_type :: string
  pr_packet_version :: string
  pr_uri :: string
  pr_semantic_hash :: string
  pr_artifact_hash :: "string option"
  pr_validation_status :: validation_status
  pr_subject_id :: "string option"
  pr_source_revision :: "string option"

definition packet_ref_view :: "packet_ref \<Rightarrow> pyval" where
  "packet_ref_view r = PModel
     [(''packet_id'', PStr (pr_packet_id r)), (''packet_type'', PStr (pr_packet_type r)),
      (''packet_version'', PStr (pr_packet_version r)), (''uri'', PStr (pr_uri r)),
      (''semantic_hash'', PStr (pr_semantic_hash r)),
      (''artifact_hash'', py_opt PStr (pr_artifact_hash r)),
      (''validation_status'', PStr (validation_status_value (pr_validation_status r))),
      (''subject_id'', py_opt PStr (pr_subject_id r)),
      (''source_revision'', py_opt PStr (pr_source_revision r))]"

subsection \<open>Repository Model Packets\<close>

record repository_assertion =
  as_id :: ident
  as_subject :: ident
  as_predicate :: string
  as_object :: string
  as_source_path :: string
  as_start_line :: int
  as_end_line :: int
  as_excerpt :: string
  as_content_hash :: string
  as_extractor :: string
  as_evidence_class :: evidence_class
  as_authority :: string
  as_confidence :: string

record interpretation_profile =
  ip_profile_id :: string
  ip_profile_version :: string
  ip_profile_hash :: string
  ip_extractor_versions :: "(string, string) dict"

text \<open>An upstream diagnostic is whatever dictionary the producer wrote.\<close>

record repository_payload =
  pl_repositories :: "repository_record list"
  pl_artifacts :: "artifact_record list"
  pl_capabilities :: "capability_record list"
  pl_relationships :: "edge_record list"
  pl_evidence :: "evidence_record list"
  pl_diagnostics :: "(string, pyval) dict list"
  pl_assertions :: "repository_assertion list option"

record repository_packet =
  rp_packet_type :: string
  rp_version :: string
  rp_id :: ident
  rp_repository_id :: ident
  rp_snapshot :: source_snapshot
  rp_validation :: packet_validation_ref
  rp_producer :: producer_ref
  rp_profile :: profile_ref
  rp_schema_hash :: string
  rp_semantic_hash :: string
  rp_artifact_hash :: "string option"
  rp_payload_refs :: "(string, string) dict"
  rp_payload :: "repository_payload option"
  rp_interpretation :: "interpretation_profile option"

subsection \<open>Corpus Intelligence Packets\<close>

definition corpus_payload_fields :: "string list" where
  "corpus_payload_fields =
     [''document_work_signals'', ''exact_duplicate_relations'', ''semantic_pair_relations'',
      ''topic_candidates'', ''project_candidates'', ''consolidation_candidates'',
      ''readiness_evidence'', ''reasoning_candidates'', ''reasoning_evidence_pack_refs'']"

record corpus_root_ref =
  root_ref_id :: ident
  root_ref_class :: root_identity_class
  root_ref_revision :: string
  root_ref_packet :: packet_ref
  root_ref_repository :: "ident option"

record corpus_coverage =
  cov_roots_requested :: nat
  cov_roots_observed :: nat
  cov_roots_failed :: nat
  cov_artifacts :: nat
  cov_archives :: nat
  cov_archive_members :: nat
  cov_decoder_eligible :: nat
  cov_normalized_documents :: nat
  cov_interpreted_artifacts :: nat
  cov_unsupported_formats :: nat
  cov_gaps :: nat

record corpus_descriptor =
  desc_corpus_id :: ident
  desc_snapshot_id :: ident
  desc_analysis_id :: ident
  desc_roots :: "corpus_root_ref list"
  desc_coverage :: corpus_coverage

record analysis_profile_ref =
  ap_id :: string
  ap_version :: string
  ap_hash :: string

record document_work_signal =
  sg_id :: ident
  sg_artifact :: ident
  sg_subject :: ident
  sg_predicate :: string
  sg_object :: string
  sg_source_path :: string
  sg_locator :: source_locator
  sg_content_hash :: string
  sg_format :: string
  sg_excerpt :: string
  sg_extractor :: string
  sg_decoder :: string
  sg_decoder_version :: string
  sg_evidence_class :: evidence_class
  sg_authority :: string
  sg_confidence :: string
  sg_corpus_artifact :: string
  sg_normalized_document :: "string option"
  sg_block :: string
  sg_block_kind :: string
  sg_extractor_version :: string

record exact_duplicate_relation =
  relation_id :: ident
  artifact_a :: ident
  artifact_b :: ident
  dup_content_hash :: string
  duplicate_cluster_id :: ident

record semantic_pair_relation =
  pair_id :: ident
  pair_source :: ident
  pair_target :: ident
  pair_methods :: "string list"
  pair_scores :: "(string \<times> score) list"
  pair_evidence_refs :: "ident list"
  pair_class :: confidence_class
  pair_profile :: analysis_profile_ref
  pair_upstream :: "ident option"

record candidate_cluster =
  cc_id :: ident
  cc_type :: candidate_type
  cc_members :: "ident list"
  cc_relations :: "ident list"
  cc_evidence_refs :: "ident list"
  cc_class :: confidence_class
  cc_flags :: "string list"
  cc_cross_root :: bool
  cc_cross_archive :: bool
  cc_profile :: analysis_profile_ref
  cc_upstream :: "ident option"

record readiness_measurement =
  rm_id :: ident
  rm_subject :: ident
  rm_profile_id :: string
  rm_profile_version :: string
  rm_counts :: readiness_counts
  rm_evidence_refs :: "ident list"

record reasoning_request =
  rq_id :: ident
  rq_candidate :: ident
  rq_type :: reasoning_type
  rq_reason :: string
  rq_members :: "ident list"
  rq_pack :: "string option"

record corpus_payload =
  work_signals :: "document_work_signal list"
  duplicate_relations :: "exact_duplicate_relation list"
  pair_relations :: "semantic_pair_relation list"
  topic_candidates :: "candidate_cluster list"
  project_candidates :: "candidate_cluster list"
  consolidation_candidates :: "candidate_cluster list"
  readiness_measurements :: "readiness_measurement list"
  reasoning_requests :: "reasoning_request list"
  evidence_pack_refs :: "string list"

record domain_not_run =
  not_run_domain :: string
  not_run_reason :: string

record corpus_packet =
  cp_version :: string
  cp_id :: ident
  cp_producer :: producer_ref
  cp_profile :: profile_ref
  cp_inputs :: "packet_ref list"
  cp_corpus :: corpus_descriptor
  cp_validation :: packet_validation_ref
  cp_domains_not_run :: "domain_not_run list option"
  cp_schema_hash :: string
  cp_semantic_hash :: string
  cp_artifact_hash :: "string option"
  cp_payload_refs :: "(string, string) dict"
  cp_payload_hashes :: "(string, string) dict"
  cp_payload :: "corpus_payload option"
  cp_lineage :: packet_lineage
  cp_created_at :: string

text \<open>The validators of the models, each with the values its error names.\<close>

datatype corpus_model_error =
    root_packet_type string
  | roots_repeated "ident list"
  | duplicate_of_itself ident
  | pair_of_itself ident
  | score_out_of_range ident
  | no_members ident
  | wrong_domain string ident
  | inputs_wrong_type "string list"
  | domains_not_run_forbidden
  | domains_not_run_required
  | unknown_payload_domain string
  | domains_repeated "string list"
  | roots_outside_inputs "ident list"

definition repository_model_type :: string where
  "repository_model_type = ''l9.repository-model''"

definition repeated :: "string list \<Rightarrow> string list" where
  "repeated xs = usort (filter (\<lambda>x. 1 < count_list xs x) xs)"

definition check_root_ref :: "corpus_root_ref \<Rightarrow> corpus_model_error option" where
  "check_root_ref r =
     (if pr_packet_type (root_ref_packet r) \<noteq> repository_model_type
      then Some (root_packet_type (pr_packet_type (root_ref_packet r))) else None)"

definition check_descriptor :: "corpus_descriptor \<Rightarrow> corpus_model_error option" where
  "check_descriptor d =
     (case repeated (map root_ref_id (desc_roots d)) of [] \<Rightarrow> None | xs \<Rightarrow> Some (roots_repeated xs))"

definition check_duplicate :: "exact_duplicate_relation \<Rightarrow> corpus_model_error option" where
  "check_duplicate r =
     (if artifact_a r = artifact_b r then Some (duplicate_of_itself (artifact_a r)) else None)"

definition check_pair :: "semantic_pair_relation \<Rightarrow> corpus_model_error option" where
  "check_pair r =
     (if \<not> list_all (\<lambda>(m, s). unit_score s) (pair_scores r) then Some (score_out_of_range (pair_id r))
      else if pair_source r = pair_target r then Some (pair_of_itself (pair_source r)) else None)"

definition check_cluster :: "candidate_cluster \<Rightarrow> corpus_model_error option" where
  "check_cluster c = (if cc_members c = [] then Some (no_members (cc_id c)) else None)"

definition candidate_domains :: "corpus_payload \<Rightarrow> (string \<times> candidate_type \<times> candidate_cluster list) list" where
  "candidate_domains p =
     [(''topic_candidates'', topic_candidate, topic_candidates p),
      (''project_candidates'', project_candidate, project_candidates p),
      (''consolidation_candidates'', consolidation_candidate, consolidation_candidates p)]"

definition all_candidates :: "corpus_payload \<Rightarrow> candidate_cluster list" where
  "all_candidates p = topic_candidates p @ project_candidates p @ consolidation_candidates p"

definition check_candidate_domains :: "corpus_payload \<Rightarrow> corpus_model_error option" where
  "check_candidate_domains p =
     (case concat (map (\<lambda>(f, t, cs). map (\<lambda>c. wrong_domain f (cc_id c)) (filter (\<lambda>c. cc_type c \<noteq> t) cs))
        (candidate_domains p)) of [] \<Rightarrow> None | e # _ \<Rightarrow> Some e)"

definition check_inputs :: "packet_ref list \<Rightarrow> corpus_model_error option" where
  "check_inputs rs =
     (case usort (filter (\<lambda>t. t \<noteq> repository_model_type) (map pr_packet_type rs)) of
        [] \<Rightarrow> None | ts \<Rightarrow> Some (inputs_wrong_type ts))"

definition check_run_statement :: "corpus_packet \<Rightarrow> corpus_model_error option" where
  "check_run_statement p =
     (if cp_version p = ''1.0.0''
      then (if cp_domains_not_run p \<noteq> None then Some domains_not_run_forbidden else None)
      else (case cp_domains_not_run p of
          None \<Rightarrow> Some domains_not_run_required
        | Some ds \<Rightarrow> (case repeated (map not_run_domain ds) of
            [] \<Rightarrow> None | xs \<Rightarrow> Some (domains_repeated xs))))"

definition check_roots_declared :: "corpus_packet \<Rightarrow> corpus_model_error option" where
  "check_roots_declared p =
     (case usort (filter (\<lambda>i. i \<notin> pr_packet_id ` set (cp_inputs p))
        (map (\<lambda>r. pr_packet_id (root_ref_packet r)) (desc_roots (cp_corpus p)))) of
        [] \<Rightarrow> None | xs \<Rightarrow> Some (roots_outside_inputs xs))"

text \<open>
  Construction validates the parts before the whole. Every field that is a closed vocabulary is
  a datatype here, except the domain of a run statement, which names a payload field.
\<close>

definition corpus_model_errors :: "corpus_packet \<Rightarrow> corpus_model_error list" where
  "corpus_model_errors p =
     List.map_filter id
       (map check_root_ref (desc_roots (cp_corpus p)) @ [check_descriptor (cp_corpus p)] @
        (case cp_payload p of
           None \<Rightarrow> []
         | Some l \<Rightarrow> map check_duplicate (duplicate_relations l) @ map check_pair (pair_relations l) @
             map check_cluster (all_candidates l) @ [check_candidate_domains l]) @
        [check_inputs (cp_inputs p)] @
        map (\<lambda>d. if not_run_domain d \<notin> set corpus_payload_fields
            then Some (unknown_payload_domain (not_run_domain d)) else None)
          (case cp_domains_not_run p of None \<Rightarrow> [] | Some ds \<Rightarrow> ds) @
        [check_run_statement p, check_roots_declared p])"

end
