(* ===== verification/GraphBuilder.thy ===== *)
theory GraphBuilder
  imports Aggregate Packets
begin

text \<open>
  The canonical graph: \<open>topology/graph_builder.py\<close> (\<open>build_topology_graph\<close> and its helpers),
  \<open>topology/flow_builder.py\<close>, \<open>topology/duplicates.py\<close> and the canonical half of
  \<open>topology/classifier.py\<close>. Edges are indexed by identity, so a later contribution with the same
  identity replaces an earlier one.
\<close>

subsection \<open>Edges\<close>

definition graph_edge_identity :: "ident \<Rightarrow> ident \<Rightarrow> edge_type \<Rightarrow> properties \<Rightarrow> pyval" where
  "graph_edge_identity source target ty props = PDict
     [(''source_id'', PStr source), (''target_id'', PStr target),
      (''edge_type'', PStr (edge_type_value ty)), (''properties'', PDict props)]"

definition graph_edge ::
  "(string \<Rightarrow> string) \<Rightarrow> ident \<Rightarrow> ident \<Rightarrow> edge_type \<Rightarrow> ident list \<Rightarrow> confidence_assessment \<Rightarrow>
   edge_record" where
  "graph_edge sha source target ty refs conf =
     \<lparr>edge_id = stable_id sha ''edge'' (graph_edge_identity source target ty []),
      edge_source = source, edge_target = target, edge_type_of = ty,
      edge_direction = outbound, edge_properties = [], edge_evidence_refs = usort refs,
      edge_confidence = conf\<rparr>"

definition graph_node ::
  "string \<Rightarrow> ident \<Rightarrow> properties \<Rightarrow> ident list \<Rightarrow> confidence_assessment \<Rightarrow> graph_record" where
  "graph_node lbl entity props refs conf =
     \<lparr>g_record_type = rt_node, g_label = lbl, g_entity_id = entity, g_properties = props,
      g_evidence_refs = refs, g_confidence = conf\<rparr>"

subsection \<open>What each record contributes\<close>

definition py_strs :: "string list \<Rightarrow> pyval" where
  "py_strs xs = PSeq (map PStr xs)"

definition repository_graph ::
  "(string \<Rightarrow> string) \<Rightarrow> repository_record \<Rightarrow> graph_record list \<times> edge_record list" where
  "repository_graph sha r =
     (graph_node ''Repository'' (repo_id r)
        [(''name'', PStr (repo_name r)), (''source_revision'', PStr (repo_source_revision r)),
         (''primary_role'', PStr (primary_role r)), (''secondary_roles'', py_strs (secondary_roles r)),
         (''languages'', py_strs (languages r)), (''package_managers'', py_strs (package_managers r)),
         (''confidence'', PStr (level_value (level (repo_confidence r))))]
        (repo_evidence_refs r) (repo_confidence r)
      # map (\<lambda>owner. graph_node ''Owner'' owner [(''name'', PStr (removeprefix owner ''owner:''))]
            (repo_evidence_refs r) (repo_confidence r)) (owner_ids r),
      map (\<lambda>t. graph_edge sha (repo_id r) t DEPENDS_ON (repo_evidence_refs r) (repo_confidence r))
        (upstream_ids r) @
      map (\<lambda>owner. graph_edge sha (repo_id r) owner OWNED_BY (repo_evidence_refs r)
          (repo_confidence r)) (owner_ids r))"

definition artifact_graph ::
  "(string \<Rightarrow> string) \<Rightarrow> artifact_record \<Rightarrow> graph_record list \<times> edge_record list" where
  "artifact_graph sha a =
     ([graph_node ''Artifact'' (art_id a)
        [(''repository_id'', PStr (art_repository_id a)), (''source_path'', PStr (art_source_path a)),
         (''artifact_type'', PStr (art_type a)), (''content_hash'', PStr (art_content_hash a))]
        (art_evidence_refs a) (art_confidence a)],
      graph_edge sha (art_repository_id a) (art_id a) CONTAINS (art_evidence_refs a)
        (art_confidence a) #
      map (\<lambda>c. graph_edge sha (art_id a) c IMPLEMENTS (art_evidence_refs a) (art_confidence a))
        (art_capabilities a))"

definition capability_graph ::
  "(string \<Rightarrow> string) \<Rightarrow> capability_record \<Rightarrow> graph_record list \<times> edge_record list" where
  "capability_graph sha c =
     ([graph_node ''Capability'' (cap_id c)
        [(''name'', PStr (cap_name c)), (''description'', PStr (cap_description c))]
        (cap_evidence_refs c) (cap_confidence c)],
      map (\<lambda>i. graph_edge sha i (cap_id c) IMPLEMENTS (cap_evidence_refs c) (cap_confidence c))
        (implemented_by c) @
      map (\<lambda>x. graph_edge sha x (cap_id c) EXPOSES (cap_evidence_refs c) (cap_confidence c))
        (exposed_by c))"

definition edge_graph_record :: "edge_record \<Rightarrow> graph_record" where
  "edge_graph_record e =
     \<lparr>g_record_type = rt_edge, g_label = edge_type_value (edge_type_of e),
      g_entity_id = edge_id e,
      g_properties = fold (\<lambda>(k, v). dput k v) (edge_properties e)
        [(''source_id'', PStr (edge_source e)), (''target_id'', PStr (edge_target e)),
         (''edge_type'', PStr (edge_type_value (edge_type_of e))),
         (''direction'', PStr (direction_value (edge_direction e)))],
      g_evidence_refs = edge_evidence_refs e, g_confidence = edge_confidence e\<rparr>"

definition graph_parts ::
  "(string \<Rightarrow> string) \<Rightarrow> repository_record list \<Rightarrow> artifact_record list \<Rightarrow> capability_record list \<Rightarrow>
   (graph_record list \<times> edge_record list) list" where
  "graph_parts sha repos arts caps =
     map (repository_graph sha) repos @ map (artifact_graph sha) arts @
     map (capability_graph sha) caps"

definition build_topology_graph ::
  "(string \<Rightarrow> string) \<Rightarrow> repository_record list \<Rightarrow> artifact_record list \<Rightarrow> capability_record list \<Rightarrow>
   edge_record list \<Rightarrow> graph_record list \<Rightarrow> graph_record list \<times> edge_record list" where
  "build_topology_graph sha repos arts caps declared external =
     (let parts = graph_parts sha repos arts caps;
          nodes = external @ concat (map fst parts);
          edges = index_by edge_id (declared @ concat (map snd parts));
          edge_records = sort_key edge_id (dvalues edges) in
      (sort_key g_entity_id (dvalues (index_by g_entity_id nodes)) @
         map edge_graph_record edge_records,
       edge_records))"

subsection \<open>Flows\<close>

definition build_flow :: "(string \<Rightarrow> string) \<Rightarrow> edge_record \<Rightarrow> flow_record" where
  "build_flow sha e =
     \<lparr>flow_id = stable_id sha ''flow'' (PDict
        [(''source'', PStr (edge_source e)), (''target'', PStr (edge_target e)),
         (''type'', PStr ''repository-dependency'')]),
      flow_name = edge_source e @ '' depends on '' @ edge_target e,
      flow_source = edge_source e, flow_target = edge_target e,
      flow_type = ''repository-dependency'', flow_packet_type = None,
      flow_description = ''Repository dependency flow derived from canonical dependency evidence.'',
      stage_sequence = [edge_source e, edge_target e],
      flow_evidence_refs = edge_evidence_refs e, flow_confidence = edge_confidence e\<rparr>"

definition build_flows :: "(string \<Rightarrow> string) \<Rightarrow> edge_record list \<Rightarrow> flow_record list" where
  "build_flows sha edges =
     sort_key flow_id (map (build_flow sha) (filter (\<lambda>e. edge_type_of e = DEPENDS_ON) edges))"

subsection \<open>Exact duplicates\<close>

record duplicate_cluster =
  cluster_id :: ident
  cluster_hash :: string
  member_ids :: "ident list"

definition representative_id :: "duplicate_cluster \<Rightarrow> ident" where
  "representative_id c = hd (member_ids c)"

definition duplicate_edge_id :: "(string \<Rightarrow> string) \<Rightarrow> ident \<Rightarrow> ident \<Rightarrow> string \<Rightarrow> ident" where
  "duplicate_edge_id sha a b h = (case canonical_pair a b of (x, y) \<Rightarrow>
     stable_id sha ''edge'' (PDict
       [(''edge_type'', PStr (edge_type_value DUPLICATE_OF)), (''artifact_a_id'', PStr x),
        (''artifact_b_id'', PStr y), (''content_hash'', PStr h)]))"

definition cluster_relations :: "exact_duplicate_relation list \<Rightarrow> duplicate_cluster list" where
  "cluster_relations rels =
     (let members = fold (\<lambda>r d. dput (duplicate_cluster_id r)
            (dget_default [] d (duplicate_cluster_id r) @ [artifact_a r, artifact_b r]) d) rels [];
          hashes = fold (\<lambda>r. dput (duplicate_cluster_id r) (dup_content_hash r)) rels [] in
      map (\<lambda>k. \<lparr>cluster_id = k, cluster_hash = dget_default [] hashes k,
                member_ids = usort (dget_default [] members k)\<rparr>) (sort (dkeys members)))"

definition evidence_by_cluster ::
  "(ident, ident list) dict \<Rightarrow> exact_duplicate_relation list \<Rightarrow> (ident, ident list) dict" where
  "evidence_by_cluster by_relation rels =
     fold (\<lambda>r d. dput (duplicate_cluster_id r)
         (dget_default [] d (duplicate_cluster_id r) @ dget_default [] by_relation (relation_id r)) d)
       rels []"

definition star_edge ::
  "(string \<Rightarrow> string) \<Rightarrow> duplicate_cluster \<Rightarrow> ident list \<Rightarrow> ident \<Rightarrow> edge_record" where
  "star_edge sha c refs m = (case canonical_pair (representative_id c) m of (x, y) \<Rightarrow>
     \<lparr>edge_id = duplicate_edge_id sha x y (cluster_hash c), edge_source = x, edge_target = y,
      edge_type_of = DUPLICATE_OF, edge_direction = bidirectional,
      edge_properties =
        [(''duplicate_cluster_id'', PStr (cluster_id c)), (''content_hash'', PStr (cluster_hash c)),
         (''method'', PStr exact_duplicate_method),
         (''cluster_member_count'', PInt (int (length (member_ids c)))),
         (''representative_artifact_id'', PStr (representative_id c)),
         (''representative_is_arbitrary'', PBool True)],
      edge_evidence_refs = refs, edge_confidence = duplicate_confidence\<rparr>)"

definition cluster_edges ::
  "(string \<Rightarrow> string) \<Rightarrow> (ident, ident list) dict \<Rightarrow> duplicate_cluster \<Rightarrow> edge_record list" where
  "cluster_edges sha by_cluster c =
     map (star_edge sha c (usort (dget_default [] by_cluster (cluster_id c))))
       (filter (\<lambda>m. m \<noteq> representative_id c) (member_ids c))"

definition build_duplicate_edges ::
  "(string \<Rightarrow> string) \<Rightarrow> exact_duplicate_relation list \<Rightarrow> (ident, ident list) dict \<Rightarrow>
   edge_record list" where
  "build_duplicate_edges sha rels by_relation =
     sort_key edge_id (dvalues (index_by edge_id (concat
       (map (cluster_edges sha (evidence_by_cluster by_relation rels)) (cluster_relations rels)))))"

subsection \<open>Roles\<close>

definition default_role_signals :: "(string, string list) dict" where
  "default_role_signals =
     [(''api_gateway'', [''gateway'', ''api-gateway'', ''ingress'']),
      (''agent'', [''agent'', ''bot'', ''worker'']),
      (''library'', [''lib'', ''sdk'', ''shared'', ''common'']),
      (''service'', [''service'', ''svc'', ''microservice'', ''server'']),
      (''infrastructure'', [''infra'', ''terraform'', ''helm'', ''k8s'', ''docker'']),
      (''data_pipeline'', [''pipeline'', ''etl'', ''ingestion'']),
      (''frontend'', [''frontend'', ''ui'', ''web'', ''app'']),
      (''topology'', [''topology'', ''constellation'', ''map'']),
      (''memory'', [''memory'', ''graphiti'', ''knowledge'']),
      (''documentation'', [''docs'', ''documentation'', ''wiki''])]"

text \<open>\<open>dict.fromkeys(xs)\<close>: first occurrences, in order.\<close>

definition fromkeys :: "string list \<Rightarrow> string list" where
  "fromkeys xs = dkeys (fold (\<lambda>x. dput x ()) xs [])"

definition classify_repository ::
  "(string, string list) dict option \<Rightarrow> repository_record \<Rightarrow> repository_record" where
  "classify_repository taxonomy r =
     (let tax = (case taxonomy of Some t \<Rightarrow> if t = [] then default_role_signals else t
                 | None \<Rightarrow> default_role_signals);
          searchable = str_lower (join '' ''
            (repo_name r # languages r @ package_managers r @ entrypoints r));
          matches = map fst (filter (\<lambda>(role, signals).
            list_ex (\<lambda>s. sublist (str_lower s) searchable) signals) tax);
          primary = primary_role r;
          (primary', secondary) =
            (if primary \<in> {'''', ''unknown'', ''UNKNOWN''} \<and> matches \<noteq> []
             then (hd matches, secondary_roles r @ tl matches)
             else (primary, secondary_roles r @ filter (\<lambda>m. m \<noteq> primary) matches));
          primary'' = (if primary' \<in> {'''', ''UNKNOWN''} then ''unknown'' else primary') in
      r\<lparr>primary_role := primary'', secondary_roles := fromkeys secondary\<rparr>)"

subsection \<open>Identities of the graph\<close>

definition contributed_nodes ::
  "repository_record list \<Rightarrow> artifact_record list \<Rightarrow> capability_record list \<Rightarrow> ident set" where
  "contributed_nodes repos arts caps =
     repo_id ` set repos \<union> (\<Union>r \<in> set repos. set (owner_ids r)) \<union> art_id ` set arts \<union>
     cap_id ` set caps"

definition contributed_edges ::
  "(string \<Rightarrow> string) \<Rightarrow> repository_record list \<Rightarrow> artifact_record list \<Rightarrow> capability_record list \<Rightarrow>
   edge_record list" where
  "contributed_edges sha repos arts caps = concat (map snd (graph_parts sha repos arts caps))"

lemma graph_node_simps [simp]:
  "g_entity_id (graph_node lbl k props refs conf) = k"
  "g_record_type (graph_node lbl k props refs conf) = rt_node"
  by (simp_all add: graph_node_def)

lemma edge_graph_record_id [simp]: "g_entity_id (edge_graph_record e) = edge_id e"
  by (simp add: edge_graph_record_def)

definition contributed_node_list ::
  "(string \<Rightarrow> string) \<Rightarrow> repository_record list \<Rightarrow> artifact_record list \<Rightarrow> capability_record list \<Rightarrow>
   graph_record list" where
  "contributed_node_list sha repos arts caps = concat (map fst (graph_parts sha repos arts caps))"

lemma part_nodes:
  "g_entity_id ` set (fst (repository_graph sha r)) = insert (repo_id r) (set (owner_ids r))"
  "g_entity_id ` set (fst (artifact_graph sha a)) = {art_id a}"
  "g_entity_id ` set (fst (capability_graph sha c)) = {cap_id c}"
  by (simp_all add: repository_graph_def artifact_graph_def capability_graph_def image_image)

lemma contributed_node_ids:
  "g_entity_id ` set (contributed_node_list sha repos arts caps) = contributed_nodes repos arts caps"
proof -
  have "g_entity_id ` set (contributed_node_list sha repos arts caps) =
      (\<Union>r \<in> set repos. g_entity_id ` set (fst (repository_graph sha r))) \<union>
      (\<Union>a \<in> set arts. g_entity_id ` set (fst (artifact_graph sha a))) \<union>
      (\<Union>c \<in> set caps. g_entity_id ` set (fst (capability_graph sha c)))"
    by (simp add: contributed_node_list_def graph_parts_def image_Un image_UN comp_def Un_assoc)
  also have "\<dots> = contributed_nodes repos arts caps"
    unfolding part_nodes contributed_nodes_def by auto
  finally show ?thesis .
qed

lemma graph_edges_eq:
  "snd (build_topology_graph sha repos arts caps declared external) =
     sort_key edge_id (dvalues (index_by edge_id (declared @ contributed_edges sha repos arts caps)))"
  by (simp only: build_topology_graph_def Let_def contributed_edges_def snd_conv)

lemma graph_records_eq:
  "fst (build_topology_graph sha repos arts caps declared external) =
     sort_key g_entity_id (dvalues (index_by g_entity_id
       (external @ contributed_node_list sha repos arts caps))) @
     map edge_graph_record (snd (build_topology_graph sha repos arts caps declared external))"
  by (simp only: build_topology_graph_def Let_def contributed_node_list_def snd_conv fst_conv)

lemma graph_edge_ids:
  "map edge_id (snd (build_topology_graph sha repos arts caps declared external)) =
     usort (map edge_id (declared @ contributed_edges sha repos arts caps))"
  unfolding graph_edges_eq by (rule keys_sorted_index_by)

lemma graph_record_ids:
  "map g_entity_id (fst (build_topology_graph sha repos arts caps declared external)) =
     usort (map g_entity_id (external @ contributed_node_list sha repos arts caps)) @
     map edge_id (snd (build_topology_graph sha repos arts caps declared external))"
proof -
  have "map g_entity_id (map edge_graph_record es) = map edge_id es" for es by simp
  then show ?thesis
    by (simp only: graph_records_eq map_append keys_sorted_index_by)
qed

text \<open>
  The graph holds one record per identity, nodes first, each half in identity order: the
  nodes are the external ones and those of the repositories, their owners, the artifacts and
  the capabilities; the edges are the declared ones and those the records contribute.
\<close>
theorem graph_identities:
  "map g_entity_id (fst (build_topology_graph sha repos arts caps declared external)) =
     usort (map g_entity_id (external @ contributed_node_list sha repos arts caps)) @
     map edge_id (snd (build_topology_graph sha repos arts caps declared external)) \<and>
   map edge_id (snd (build_topology_graph sha repos arts caps declared external)) =
     usort (map edge_id (declared @ contributed_edges sha repos arts caps)) \<and>
   g_entity_id ` set (contributed_node_list sha repos arts caps) =
     contributed_nodes repos arts caps"
  by (intro conjI graph_record_ids graph_edge_ids contributed_node_ids)

subsection \<open>Relations of the graph\<close>

definition edge_key :: "edge_record \<Rightarrow> ident \<times> ident \<times> edge_type" where
  "edge_key e = (edge_source e, edge_target e, edge_type_of e)"

definition contributed_relations ::
  "repository_record list \<Rightarrow> artifact_record list \<Rightarrow> capability_record list \<Rightarrow>
   (ident \<times> ident \<times> edge_type) set" where
  "contributed_relations repos arts caps =
     {(repo_id r, t, DEPENDS_ON) | r t. r \<in> set repos \<and> t \<in> set (upstream_ids r)} \<union>
     {(repo_id r, w, OWNED_BY) | r w. r \<in> set repos \<and> w \<in> set (owner_ids r)} \<union>
     {(art_repository_id a, art_id a, CONTAINS) | a. a \<in> set arts} \<union>
     {(art_id a, c, IMPLEMENTS) | a c. a \<in> set arts \<and> c \<in> set (art_capabilities a)} \<union>
     {(i, cap_id c, IMPLEMENTS) | c i. c \<in> set caps \<and> i \<in> set (implemented_by c)} \<union>
     {(x, cap_id c, EXPOSES) | c x. c \<in> set caps \<and> x \<in> set (exposed_by c)}"

lemma edge_key_graph_edge [simp]: "edge_key (graph_edge sha a b ty refs conf) = (a, b, ty)"
  by (simp add: edge_key_def graph_edge_def)

lemma part_relations:
  "edge_key ` set (snd (repository_graph sha r)) =
     {(repo_id r, t, DEPENDS_ON) | t. t \<in> set (upstream_ids r)} \<union>
     {(repo_id r, w, OWNED_BY) | w. w \<in> set (owner_ids r)}"
  "edge_key ` set (snd (artifact_graph sha a)) =
     {(art_repository_id a, art_id a, CONTAINS)} \<union>
     {(art_id a, c, IMPLEMENTS) | c. c \<in> set (art_capabilities a)}"
  "edge_key ` set (snd (capability_graph sha c)) =
     {(i, cap_id c, IMPLEMENTS) | i. i \<in> set (implemented_by c)} \<union>
     {(x, cap_id c, EXPOSES) | x. x \<in> set (exposed_by c)}"
  by (auto simp: repository_graph_def artifact_graph_def capability_graph_def image_Un
      image_image)

lemma contributed_edge_keys:
  "edge_key ` set (contributed_edges sha repos arts caps) = contributed_relations repos arts caps"
proof -
  have "edge_key ` set (contributed_edges sha repos arts caps) =
      (\<Union>r \<in> set repos. edge_key ` set (snd (repository_graph sha r))) \<union>
      (\<Union>a \<in> set arts. edge_key ` set (snd (artifact_graph sha a))) \<union>
      (\<Union>c \<in> set caps. edge_key ` set (snd (capability_graph sha c)))"
    by (simp add: contributed_edges_def graph_parts_def image_Un image_UN comp_def Un_assoc)
  also have "\<dots> = contributed_relations repos arts caps"
    unfolding part_relations contributed_relations_def UN_Un_distrib
    by (intro set_eqI) (simp only: Un_iff UN_iff mem_Collect_eq singleton_iff, blast)
  finally show ?thesis .
qed

lemma graph_edges_from:
  "set (snd (build_topology_graph sha repos arts caps declared external)) \<subseteq>
     set (declared @ contributed_edges sha repos arts caps)"
  using values_index_by_subset [of edge_id "declared @ contributed_edges sha repos arts caps"]
  by (simp add: graph_edges_eq)

definition identities_agree :: "edge_record list \<Rightarrow> bool" where
  "identities_agree es \<longleftrightarrow>
     list_all (\<lambda>e. list_all (\<lambda>e'. edge_id e = edge_id e' \<longrightarrow> edge_key e = edge_key e') es) es"

text \<open>
  C12: The relations of the graph are exactly the declared ones and those the records state:
  dependencies on upstream repositories, ownership, containment of artifacts, and the
  implementation and exposure of capabilities; an artifact's type states none. This needs that
  edges of one identity join the same endpoints by the same type, which a content-derived
  identity gives unless the hash collides.
\<close>
theorem graph_relations_exact:
  assumes "identities_agree (declared @ contributed_edges sha repos arts caps)"
  shows "edge_key ` set (snd (build_topology_graph sha repos arts caps declared external)) =
    edge_key ` set declared \<union> contributed_relations repos arts caps"
proof -
  let ?es = "declared @ contributed_edges sha repos arts caps"
  let ?G = "snd (build_topology_graph sha repos arts caps declared external)"
  have "edge_key ` set ?G = edge_key ` set ?es"
  proof
    show "edge_key ` set ?G \<subseteq> edge_key ` set ?es" using graph_edges_from by blast
    show "edge_key ` set ?es \<subseteq> edge_key ` set ?G"
    proof (rule image_subsetI)
      fix e assume e: "e \<in> set ?es"
      have "edge_id e \<in> set (map edge_id ?G)"
        using e by (simp only: graph_edge_ids set_usort set_map imageI)
      then obtain e' where e': "e' \<in> set ?G" and i: "edge_id e' = edge_id e" by auto
      have "e' \<in> set ?es" using e' graph_edges_from by blast
      with assms e i have "edge_key e' = edge_key e"
        unfolding identities_agree_def list_all_iff by blast
      with e' show "edge_key e \<in> edge_key ` set ?G" by (metis imageI)
    qed
  qed
  then show ?thesis by (simp only: set_append image_Un contributed_edge_keys)
qed

definition closed_inputs ::
  "repository_record list \<Rightarrow> artifact_record list \<Rightarrow> capability_record list \<Rightarrow> edge_record list \<Rightarrow>
   graph_record list \<Rightarrow> bool" where
  "closed_inputs repos arts caps declared external =
     (let nodes = map g_entity_id external @ map repo_id repos @ concat (map owner_ids repos) @
            map art_id arts @ map cap_id caps;
          known = (\<lambda>k. k \<in> set nodes) in
      list_all (\<lambda>r. list_all known (upstream_ids r)) repos \<and>
      list_all (\<lambda>a. known (art_repository_id a) \<and> list_all known (art_capabilities a)) arts \<and>
      list_all (\<lambda>c. list_all known (implemented_by c) \<and> list_all known (exposed_by c)) caps \<and>
      list_all (\<lambda>e. known (edge_source e) \<and> known (edge_target e)) declared)"

lemma closed_inputs_iff:
  "closed_inputs repos arts caps declared external \<longleftrightarrow>
     (let N = g_entity_id ` set external \<union> contributed_nodes repos arts caps in
      (\<forall>r \<in> set repos. set (upstream_ids r) \<subseteq> N) \<and>
      (\<forall>a \<in> set arts. art_repository_id a \<in> N \<and> set (art_capabilities a) \<subseteq> N) \<and>
      (\<forall>c \<in> set caps. set (implemented_by c) \<subseteq> N \<and> set (exposed_by c) \<subseteq> N) \<and>
      (\<forall>e \<in> set declared. edge_source e \<in> N \<and> edge_target e \<in> N))"
proof -
  have "set (map g_entity_id external @ map repo_id repos @ concat (map owner_ids repos) @
      map art_id arts @ map cap_id caps) =
    g_entity_id ` set external \<union> contributed_nodes repos arts caps"
    by (auto simp: contributed_nodes_def)
  then show ?thesis
    by (simp only: closed_inputs_def Let_def list_all_iff subset_eq)
qed

lemma closed_relations:
  assumes "closed_inputs repos arts caps declared external"
    and "(s, t, ty) \<in> edge_key ` set declared \<union> contributed_relations repos arts caps"
  shows "{s, t} \<subseteq> g_entity_id ` set external \<union> contributed_nodes repos arts caps"
proof -
  let ?N = "g_entity_id ` set external \<union> contributed_nodes repos arts caps"
  have own: "repo_id r \<in> ?N" "w \<in> set (owner_ids r) \<Longrightarrow> w \<in> ?N" if "r \<in> set repos" for r w
    using that by (auto simp: contributed_nodes_def)
  have ent: "a \<in> set arts \<Longrightarrow> art_id a \<in> ?N" "c \<in> set caps \<Longrightarrow> cap_id c \<in> ?N" for a c
    by (auto simp: contributed_nodes_def)
  from assms(2) show ?thesis
    unfolding contributed_relations_def
  proof (elim UnE CollectE exE conjE)
    assume "(s, t, ty) \<in> edge_key ` set declared"
    with assms(1) show ?thesis by (auto simp: closed_inputs_iff Let_def edge_key_def)
  qed (use assms(1) own ent in \<open>auto simp: closed_inputs_iff Let_def simp del: Un_iff\<close>)
qed

text \<open>When every identity the records and the declared edges refer to is one of the entities, and
  the external records are nodes, every edge endpoint is a node of the graph: the validator's
  \<open>every_edge_endpoint_exists\<close> rule.\<close>

definition graph_node_ids :: "graph_record list \<Rightarrow> ident set" where
  "graph_node_ids gs = g_entity_id ` {g \<in> set gs. g_record_type g = rt_node}"

lemma contributed_nodes_are_nodes:
  "g \<in> set (contributed_node_list sha repos arts caps) \<Longrightarrow> g_record_type g = rt_node"
  by (auto simp: contributed_node_list_def graph_parts_def repository_graph_def artifact_graph_def
      capability_graph_def graph_node_def)

lemma graph_node_ids_eq:
  assumes "list_all (\<lambda>g. g_record_type g = rt_node) external"
  shows "graph_node_ids (fst (build_topology_graph sha repos arts caps declared external)) =
    g_entity_id ` set external \<union> contributed_nodes repos arts caps"
proof -
  let ?ns = "external @ contributed_node_list sha repos arts caps"
  have sub: "set (dvalues (index_by g_entity_id ?ns)) \<subseteq> set ?ns" by (rule values_index_by_subset)
  have n: "g_record_type g = rt_node" if "g \<in> set (dvalues (index_by g_entity_id ?ns))" for g
    using that sub assms contributed_nodes_are_nodes by (auto simp: list_all_iff)
  have e: "g_record_type (edge_graph_record d) \<noteq> rt_node" for d
    by (simp add: edge_graph_record_def)
  have "graph_node_ids (ns @ map edge_graph_record es) = g_entity_id ` set ns"
    if "\<And>g. g \<in> set ns \<Longrightarrow> g_record_type g = rt_node" for ns es
    using that e by (auto simp: graph_node_ids_def)
  from this [of "sort_key g_entity_id (dvalues (index_by g_entity_id ?ns))"] n
  have "graph_node_ids (fst (build_topology_graph sha repos arts caps declared external)) =
      g_entity_id ` set (dvalues (index_by g_entity_id ?ns))"
    unfolding graph_records_eq set_sort by blast
  also have "\<dots> = set (map g_entity_id
      (sort_key g_entity_id (dvalues (index_by g_entity_id ?ns))))" by simp
  also have "\<dots> = set (map g_entity_id ?ns)" by (simp only: keys_sorted_index_by set_usort)
  also have "\<dots> = g_entity_id ` set external \<union> contributed_nodes repos arts caps"
    by (simp only: set_map set_append image_Un contributed_node_ids)
  finally show ?thesis .
qed

lemma graph_endpoints_resolve:
  assumes "closed_inputs repos arts caps declared external"
    and "list_all (\<lambda>g. g_record_type g = rt_node) external"
    and "e \<in> set (snd (build_topology_graph sha repos arts caps declared external))"
  shows "{edge_source e, edge_target e} \<subseteq>
    graph_node_ids (fst (build_topology_graph sha repos arts caps declared external))"
proof -
  have "e \<in> set (declared @ contributed_edges sha repos arts caps)"
    using assms(3) graph_edges_from by blast
  then have "edge_key e \<in> edge_key ` set declared \<union> contributed_relations repos arts caps"
    using contributed_edge_keys [of sha repos arts caps] by auto
  from closed_relations [OF assms(1) this [unfolded edge_key_def [of e]]]
  show ?thesis by (simp only: graph_node_ids_eq [OF assms(2)])
qed

definition sample_repository :: "ident \<Rightarrow> ident list \<Rightarrow> repository_record" where
  "sample_repository k ups =
     \<lparr>repo_id = k, repo_name = k, repo_source_revision = ''r1'', repo_packet_ref = ''packet:1'',
      primary_role = ''unknown'', secondary_roles = [], languages = [], package_managers = [],
      entrypoints = [], workflows = [], adr_refs = [], governance_refs = [],
      repo_capability_ids = [], repo_artifact_ids = [], upstream_ids = ups, downstream_ids = [],
      unresolved_dependencies = [], owner_ids = [], repo_evidence_refs = [],
      repo_confidence = confidence_unknown\<rparr>"

theorem graph_relations_exact_witness:
  "edge_key ` set (snd (build_topology_graph id [sample_repository ''a'' [''b'']] [] [] [] [])) =
     {(''a'', ''b'', DEPENDS_ON)}"
proof -
  have "identities_agree ([] @ contributed_edges id [sample_repository ''a'' [''b'']] [] [])"
    by (simp add: identities_agree_def contributed_edges_def graph_parts_def repository_graph_def
        sample_repository_def)
  from graph_relations_exact [OF this] show ?thesis
    by (simp add: contributed_relations_def sample_repository_def)
qed

subsection \<open>Capabilities only artifacts declare\<close>

lemma build_capabilities_derived:
  "build_capabilities [] [a\<lparr>art_capabilities := [c]\<rparr>] [] =
     [\<lparr>cap_id = c, cap_name = last_segment c,
       cap_description = ''Capability derived from artifact declarations.'',
       implemented_by = [art_id a], exposed_by = [], validated_by = [], governed_by = [],
       cap_evidence_refs = [], cap_confidence = confidence_deterministic False\<rparr>]"
  by (simp add: build_capabilities_def artifact_implementers_def derive_capability_def
      dappend_def usort_def)


subsection \<open>Flows of parallel edges\<close>

text \<open>
  A flow's identity ignores the edge it comes from: two dependency edges over the same pair
  of entities, whose own identities differ by their properties, become two flows of one
  identity, which the validator's uniqueness rule for flows rejects.
\<close>
theorem parallel_edges_duplicate_flows:
  "\<not> distinct (map flow_id (build_flows sha
     [e\<lparr>edge_type_of := DEPENDS_ON, edge_id := i, edge_properties := ps\<rparr>,
      e\<lparr>edge_type_of := DEPENDS_ON, edge_id := j, edge_properties := qs\<rparr>]))"
  by (simp add: build_flows_def build_flow_def)

lemma build_flows_sources:
  "(\<lambda>f. (flow_source f, flow_target f)) ` set (build_flows sha edges) =
     {(edge_source e, edge_target e) | e. e \<in> set edges \<and> edge_type_of e = DEPENDS_ON}"
  by (force simp: build_flows_def build_flow_def)

subsection \<open>Duplicate clusters are stars\<close>

lemma dget_extend_fold:
  "dget_default [] (fold (\<lambda>r d. dput (key r) (dget_default [] d (key r) @ val r) d) rs d) k =
     dget_default [] d k @ concat (map val (filter (\<lambda>r. key r = k) rs))"
proof (induction rs arbitrary: d)
  case (Cons r rs)
  then show ?case by (auto simp: dget_default_def update_conv')
qed simp

lemma keys_extend_fold:
  "fst ` set (fold (\<lambda>r d. dput (key r) (dget_default [] d (key r) @ val r) d) rs d) =
     fst ` set d \<union> key ` set rs"
  by (induction rs arbitrary: d) (auto simp: dict.keys_put)

lemma distinct_extend_fold:
  "distinct (dkeys d) \<Longrightarrow>
     distinct (dkeys (fold (\<lambda>r d. dput (key r) (dget_default [] d (key r) @ val r) d) rs d))"
  by (induction rs arbitrary: d) (auto simp: distinct_update)

lemma cluster_relations_ids: "map cluster_id (cluster_relations rels) =
    usort (map duplicate_cluster_id rels)"
proof -
  let ?ms = "fold (\<lambda>r d. dput (duplicate_cluster_id r)
      (dget_default [] d (duplicate_cluster_id r) @ [artifact_a r, artifact_b r]) d) rels []"
  have "sort (dkeys ?ms) = usort (map duplicate_cluster_id rels)"
    by (rule sorted_distinct_set_unique)
      (simp_all add: keys_extend_fold distinct_extend_fold)
  then show ?thesis by (simp add: cluster_relations_def Let_def comp_def)
qed

lemma cluster_members:
  assumes "c \<in> set (cluster_relations rels)"
  shows "member_ids c = usort (concat (map (\<lambda>r. [artifact_a r, artifact_b r])
    (filter (\<lambda>r. duplicate_cluster_id r = cluster_id c) rels)))"
  using assms by (auto simp: cluster_relations_def Let_def dget_extend_fold)

lemma cluster_member_pairs:
  "(\<Union>c \<in> set (cluster_relations rels). {cluster_id c} \<times> set (member_ids c)) =
     (\<Union>r \<in> set rels. {duplicate_cluster_id r} \<times> {artifact_a r, artifact_b r})"
proof -
  have "(\<Union>c \<in> set (cluster_relations rels). {cluster_id c} \<times> set (member_ids c)) =
      (\<Union>k \<in> set (map cluster_id (cluster_relations rels)). {k} \<times>
        (\<Union>r \<in> {r \<in> set rels. duplicate_cluster_id r = k}. {artifact_a r, artifact_b r}))"
    unfolding set_map image_image UN_simps(10)
    by (rule SUP_cong) (auto simp: cluster_members)
  also have "\<dots> = (\<Union>r \<in> set rels. {duplicate_cluster_id r} \<times> {artifact_a r, artifact_b r})"
    unfolding cluster_relations_ids set_usort set_map by auto
  finally show ?thesis .
qed

lemma cluster_sorted:
  assumes "c \<in> set (cluster_relations rels)"
  shows "sorted (member_ids c)" and "distinct (member_ids c)"
  by (simp_all add: cluster_members [OF assms])

lemma star_members:
  assumes "sorted xs" and "distinct xs"
  shows "filter (\<lambda>m. m \<noteq> hd xs) xs = tl xs" and "m \<in> set (tl xs) \<Longrightarrow> hd xs < (m :: string)"
proof -
  show "filter (\<lambda>m. m \<noteq> hd xs) xs = tl xs"
    using assms by (cases xs) (auto simp: filter_id_conv)
  show "m \<in> set (tl xs) \<Longrightarrow> hd xs < m"
    using assms by (cases xs) (auto simp: order_less_le)
qed

lemma cluster_edges_star:
  assumes "c \<in> set (cluster_relations rels)"
  shows "map edge_id (cluster_edges sha by c) =
      map (\<lambda>m. duplicate_edge_id sha (hd (member_ids c)) m (cluster_hash c)) (tl (member_ids c))"
    and "e \<in> set (cluster_edges sha by c) \<Longrightarrow>
      edge_type_of e = DUPLICATE_OF \<and> edge_direction e = bidirectional \<and>
      edge_source e < edge_target e"
proof -
  note star = star_members [OF cluster_sorted [OF assms]]
  have "canonical_pair (hd (member_ids c)) m = (hd (member_ids c), m)"
    if "m \<in> set (tl (member_ids c))" for m
    using less_imp_le [OF star(2) [OF that]] by (simp add: canonical_pair_def)
  then show "map edge_id (cluster_edges sha by c) =
      map (\<lambda>m. duplicate_edge_id sha (hd (member_ids c)) m (cluster_hash c)) (tl (member_ids c))"
    and "e \<in> set (cluster_edges sha by c) \<Longrightarrow>
      edge_type_of e = DUPLICATE_OF \<and> edge_direction e = bidirectional \<and>
      edge_source e < edge_target e"
    using star by (auto simp: cluster_edges_def representative_id_def star_edge_def)
qed

text \<open>
  Exact duplication is drawn as stars. A cluster is the set of artifacts its relations name;
  a cluster of n members contributes exactly the n - 1 identities that join its least member to
  each other one; and every edge is bidirectional, of type \<open>DUPLICATE_OF\<close> and stored with its
  endpoints in order, so the same relation found from either side is one edge.
\<close>
theorem duplicate_star:
  "map edge_id (build_duplicate_edges sha rels by_relation) =
     usort (concat (map (\<lambda>c. map (\<lambda>m. duplicate_edge_id sha (hd (member_ids c)) m (cluster_hash c))
       (tl (member_ids c))) (cluster_relations rels))) \<and>
   list_all (\<lambda>e. edge_type_of e = DUPLICATE_OF \<and> edge_direction e = bidirectional \<and>
       edge_source e < edge_target e) (build_duplicate_edges sha rels by_relation) \<and>
   (\<Union>c \<in> set (cluster_relations rels). {cluster_id c} \<times> set (member_ids c)) =
     (\<Union>r \<in> set rels. {duplicate_cluster_id r} \<times> {artifact_a r, artifact_b r})"
proof (intro conjI cluster_member_pairs)
  let ?by = "evidence_by_cluster by_relation rels"
  have "map edge_id (build_duplicate_edges sha rels by_relation) =
      usort (concat (map (\<lambda>c. map edge_id (cluster_edges sha ?by c)) (cluster_relations rels)))"
    unfolding build_duplicate_edges_def keys_sorted_index_by by (simp add: map_concat comp_def)
  also have "map (\<lambda>c. map edge_id (cluster_edges sha ?by c)) (cluster_relations rels) =
      map (\<lambda>c. map (\<lambda>m. duplicate_edge_id sha (hd (member_ids c)) m (cluster_hash c))
        (tl (member_ids c))) (cluster_relations rels)"
    by (rule map_cong) (simp_all add: cluster_edges_star(1))
  finally show "map edge_id (build_duplicate_edges sha rels by_relation) =
     usort (concat (map (\<lambda>c. map (\<lambda>m. duplicate_edge_id sha (hd (member_ids c)) m (cluster_hash c))
       (tl (member_ids c))) (cluster_relations rels)))" .
  have "set (build_duplicate_edges sha rels by_relation) \<subseteq>
      (\<Union>c \<in> set (cluster_relations rels). set (cluster_edges sha ?by c))"
    using values_index_by_subset [of edge_id
        "concat (map (cluster_edges sha ?by) (cluster_relations rels))"]
    by (simp add: build_duplicate_edges_def)
  then show "list_all (\<lambda>e. edge_type_of e = DUPLICATE_OF \<and> edge_direction e = bidirectional \<and>
       edge_source e < edge_target e) (build_duplicate_edges sha rels by_relation)"
    unfolding list_all_iff using cluster_edges_star(2) by blast
qed

end
