(* ===== verification/Impact.thy ===== *)
theory Impact
  imports GraphBuilder
begin

text \<open>
  Bounded impact traversal, \<open>topology/impact.py\<close>: generic reachability and resolved dependency
  impact over the canonical edges, and the legacy blast radius. The breadth-first loop carries
  its queue and its accumulators in a record and ends because every turn either visits a new
  target or shortens the queue. The runtime check of the direction string is the type
  \<open>impact_direction\<close> here.
\<close>

subsection \<open>Which edges carry a dependency\<close>

definition dependency_edge_types :: "edge_type list" where
  "dependency_edge_types = [DEPENDS_ON, BLOCKED_BY]"

definition target_resolution_property :: string where
  "target_resolution_property = ''target_resolution''"

definition resolved_target_resolution :: string where
  "resolved_target_resolution = ''exact-artifact''"

definition endpoint_kind_property :: string where
  "endpoint_kind_property = ''endpoint_kind''"

definition external_package_endpoint :: string where
  "external_package_endpoint = ''external-package-reference''"

datatype target_resolution =
    resolved_exact_artifact | resolved_external_package | resolved_observed_entity
  | unresolved_recorded | unresolved_no_producer_evidence

text \<open>\<open>d.get(k)\<close> with a stored \<open>None\<close> read as absent.\<close>

definition get_value :: "properties \<Rightarrow> string \<Rightarrow> pyval option" where
  "get_value ps k = (case dget ps k of None \<Rightarrow> None | Some v \<Rightarrow> if v = PNone then None else Some v)"

definition dependency_target_resolution :: "edge_record \<Rightarrow> ident list \<Rightarrow> target_resolution" where
  "dependency_target_resolution e observed =
     (case get_value (edge_properties e) target_resolution_property of
        Some v \<Rightarrow> if v = PStr resolved_target_resolution then resolved_exact_artifact
                 else unresolved_recorded
      | None \<Rightarrow>
          if get_value (edge_properties e) endpoint_kind_property =
               Some (PStr external_package_endpoint) then resolved_external_package
          else if edge_target e \<in> set observed then resolved_observed_entity
          else unresolved_no_producer_evidence)"

definition edge_is_resolved :: "edge_record \<Rightarrow> ident list \<Rightarrow> bool" where
  "edge_is_resolved e observed =
     (dependency_target_resolution e observed \<in>
        {resolved_exact_artifact, resolved_external_package, resolved_observed_entity})"

subsection \<open>The traversal\<close>

type_synonym adjacency = "(ident, (ident \<times> ident) list) dict"

record bfs_state =
  bfs_queue :: "(ident \<times> ident list \<times> nat) list"
  bfs_visited :: "ident list"
  bfs_affected :: "ident list"
  bfs_paths :: "ident list list"
  bfs_unresolved :: "ident list"

definition visit_target :: "ident list \<Rightarrow> nat \<Rightarrow> ident \<times> ident \<Rightarrow> bfs_state \<Rightarrow> bfs_state" where
  "visit_target path depth te st = (case te of (target, eid) \<Rightarrow>
     (let next_path = path @ [target];
          st = st\<lparr>bfs_paths := next_path # bfs_paths st, bfs_affected := target # bfs_affected st\<rparr> in
      if target \<in> set (bfs_visited st) then st
      else st\<lparr>bfs_visited := target # bfs_visited st,
              bfs_queue := bfs_queue st @ [(target, next_path, depth + 1)]\<rparr>))"

definition adjacent :: "adjacency \<Rightarrow> ident \<Rightarrow> (ident \<times> ident) list" where
  "adjacent adj c = sort (dget_default [] adj c)"

definition adjacency_targets :: "adjacency \<Rightarrow> ident set" where
  "adjacency_targets adj = (\<Union>(k, vs) \<in> set adj. fst ` set vs)"

lemma visit_target_simps:
  "set (bfs_visited (visit_target p d te st)) = insert (fst te) (set (bfs_visited st))"
  "set (bfs_affected (visit_target p d te st)) = insert (fst te) (set (bfs_affected st))"
  "set (bfs_paths (visit_target p d te st)) = insert (p @ [fst te]) (set (bfs_paths st))"
  "bfs_unresolved (visit_target p d te st) = bfs_unresolved st"
  "bfs_queue (visit_target p d te st) = bfs_queue st @
     (if fst te \<in> set (bfs_visited st) then [] else [(fst te, p @ [fst te], d + 1)])"
  by (auto simp: visit_target_def Let_def case_prod_unfold)

lemma visit_fold:
  shows "set (bfs_visited (fold (visit_target p d) ts st)) = set (bfs_visited st) \<union> fst ` set ts"
    and "\<exists>new. bfs_queue (fold (visit_target p d) ts st) =
            bfs_queue st @ map (\<lambda>t. (t, p @ [t], d + 1)) new \<and>
          distinct new \<and> set new = fst ` set ts - set (bfs_visited st)"
    and "set (bfs_affected (fold (visit_target p d) ts st)) = set (bfs_affected st) \<union> fst ` set ts"
    and "set (bfs_paths (fold (visit_target p d) ts st)) =
          set (bfs_paths st) \<union> (\<lambda>te. p @ [fst te]) ` set ts"
    and "bfs_unresolved (fold (visit_target p d) ts st) = bfs_unresolved st"
proof -
  show "set (bfs_visited (fold (visit_target p d) ts st)) = set (bfs_visited st) \<union> fst ` set ts"
    by (induction ts arbitrary: st) (auto simp: visit_target_simps)
  show "set (bfs_affected (fold (visit_target p d) ts st)) = set (bfs_affected st) \<union> fst ` set ts"
    by (induction ts arbitrary: st) (auto simp: visit_target_simps)
  show "set (bfs_paths (fold (visit_target p d) ts st)) =
      set (bfs_paths st) \<union> (\<lambda>te. p @ [fst te]) ` set ts"
    by (induction ts arbitrary: st) (auto simp: visit_target_simps)
  show "bfs_unresolved (fold (visit_target p d) ts st) = bfs_unresolved st"
    by (induction ts arbitrary: st) (auto simp: visit_target_simps)
  show "\<exists>new. bfs_queue (fold (visit_target p d) ts st) =
            bfs_queue st @ map (\<lambda>t. (t, p @ [t], d + 1)) new \<and>
          distinct new \<and> set new = fst ` set ts - set (bfs_visited st)"
  proof (induction ts arbitrary: st)
    case (Cons te ts)
    obtain t i where te: "te = (t, i)" by (cases te)
    let ?st = "visit_target p d te st"
    obtain new where new: "bfs_queue (fold (visit_target p d) ts ?st) =
          bfs_queue ?st @ map (\<lambda>t. (t, p @ [t], d + 1)) new"
      "distinct new" "set new = fst ` set ts - set (bfs_visited ?st)"
      using Cons by blast
    show ?case
    proof (cases "t \<in> set (bfs_visited st)")
      case True
      with new te show ?thesis
        by (intro exI [of _ new]) (auto simp: visit_target_simps)
    next
      case False
      with new te show ?thesis
        by (intro exI [of _ "t # new"]) (auto simp: visit_target_simps)
    qed
  qed simp
qed

lemma adjacent_targets: "fst ` set (adjacent adj c) \<subseteq> adjacency_targets adj"
proof -
  have "fst ` set vs \<subseteq> adjacency_targets adj" if "dget adj c = Some vs" for vs
    using map_of_SomeD [OF that] by (force simp: adjacency_targets_def)
  then show ?thesis by (cases "dget adj c") (simp_all add: adjacent_def dget_default_def)
qed

lemma finite_adjacency_targets: "finite (adjacency_targets adj)"
  by (auto simp: adjacency_targets_def)

function bfs :: "adjacency \<Rightarrow> (ident, ident list) dict \<Rightarrow> nat \<Rightarrow> bfs_state \<Rightarrow> bfs_state" where
  "bfs adj unadj maxd st =
     (case bfs_queue st of
        [] \<Rightarrow> st
      | (c, p, d) # q \<Rightarrow>
          if maxd \<le> d then bfs adj unadj maxd (st\<lparr>bfs_queue := q\<rparr>)
          else bfs adj unadj maxd (fold (visit_target p d) (adjacent adj c)
            (st\<lparr>bfs_queue := q,
                bfs_unresolved := bfs_unresolved st @ dget_default [] unadj c\<rparr>)))"
  by pat_completeness auto

lemma visit_decreases:
  assumes "st = (s\<lparr>bfs_queue := q, bfs_unresolved := u\<rparr>)"
    and st'_def: "st' = fold (visit_target p d) (adjacent adj c) st"
  shows "card (adjacency_targets adj - set (bfs_visited st')) <
           card (adjacency_targets adj - set (bfs_visited s)) \<or>
         card (adjacency_targets adj - set (bfs_visited st')) =
           card (adjacency_targets adj - set (bfs_visited s)) \<and> bfs_queue st' = q"
proof -
  have v: "set (bfs_visited st') = set (bfs_visited s) \<union> fst ` set (adjacent adj c)"
    by (simp add: st'_def visit_fold(1) assms(1))
  obtain new where q: "bfs_queue st' = q @ map (\<lambda>t. (t, p @ [t], d + 1)) new"
    and new: "set new = fst ` set (adjacent adj c) - set (bfs_visited s)"
    using visit_fold(2) [of p d "adjacent adj c" st] by (auto simp: st'_def assms(1))
  show ?thesis
  proof (cases "new = []")
    case True
    with new v have "set (bfs_visited st') = set (bfs_visited s)" by auto
    with True q show ?thesis by simp
  next
    case False
    then obtain t where "t \<in> set new" by (cases new) auto
    with new have "t \<in> fst ` set (adjacent adj c)" "t \<notin> set (bfs_visited s)" by auto
    then have "t \<in> adjacency_targets adj" "t \<in> set (bfs_visited st')" "t \<notin> set (bfs_visited s)"
      using adjacent_targets [of adj c] v by blast+
    with v have "adjacency_targets adj - set (bfs_visited st') \<subset>
        adjacency_targets adj - set (bfs_visited s)"
      by auto
    then show ?thesis using finite_adjacency_targets by (simp add: psubset_card_mono)
  qed
qed

termination bfs
proof (relation "measures [\<lambda>(adj, unadj, maxd, st). card (adjacency_targets adj - set (bfs_visited st)),
    \<lambda>(adj, unadj, maxd, st). length (bfs_queue st)]", goal_cases)
  case 1
  then show ?case by simp
next
  case (2 adj unadj maxd st)
  then show ?case by simp
next
  case (3 adj unadj maxd st)
  then show ?case
    using visit_decreases [OF refl refl] by fastforce
qed

declare bfs.simps [simp del]

definition bfs_start :: "ident \<Rightarrow> bfs_state" where
  "bfs_start subject =
     \<lparr>bfs_queue = [(subject, [subject], 0)], bfs_visited = [subject], bfs_affected = [],
      bfs_paths = [], bfs_unresolved = []\<rparr>"

subsection \<open>\<open>assess_impact\<close>\<close>

datatype impact_error = negative_depth | outside_dependency_types "string list"

definition impact_allowed_types :: "edge_type list option \<Rightarrow> bool \<Rightarrow> edge_type list" where
  "impact_allowed_types edge_types aware =
     (case edge_types of
        Some ts \<Rightarrow> ts
      | None \<Rightarrow> if aware then dependency_edge_types else traversable_edge_types)"

definition impact_usable :: "edge_type list \<Rightarrow> confidence_level \<Rightarrow> edge_record \<Rightarrow> bool" where
  "impact_usable allowed minimum e \<longleftrightarrow>
     edge_type_of e \<in> set allowed \<and> \<not> level (edge_confidence e) < minimum"

definition carrying_edges ::
  "edge_type list \<Rightarrow> confidence_level \<Rightarrow> bool \<Rightarrow> ident list \<Rightarrow> edge_record list \<Rightarrow> edge_record list" where
  "carrying_edges allowed minimum aware observed edges =
     filter (\<lambda>e. impact_usable allowed minimum e \<and> \<not> (aware \<and> \<not> edge_is_resolved e observed)) edges"

definition blocked_edges ::
  "edge_type list \<Rightarrow> confidence_level \<Rightarrow> bool \<Rightarrow> ident list \<Rightarrow> edge_record list \<Rightarrow> edge_record list" where
  "blocked_edges allowed minimum aware observed edges =
     filter (\<lambda>e. impact_usable allowed minimum e \<and> aware \<and> \<not> edge_is_resolved e observed) edges"

definition adjacency_by ::
  "(edge_record \<Rightarrow> ident) \<Rightarrow> (edge_record \<Rightarrow> ident) \<Rightarrow> edge_record list \<Rightarrow> adjacency" where
  "adjacency_by src tgt es = fold (\<lambda>e. dappend (src e) (tgt e, edge_id e)) es []"

definition unresolved_by ::
  "(edge_record \<Rightarrow> ident) \<Rightarrow> edge_record list \<Rightarrow> (ident, ident list) dict" where
  "unresolved_by src es = fold (\<lambda>e. dappend (src e) (edge_id e)) es []"

definition impact_traversals ::
  "impact_direction \<Rightarrow> edge_record list \<Rightarrow> edge_record list \<Rightarrow>
   (adjacency \<times> (ident, ident list) dict) list" where
  "impact_traversals dir carrying blocked =
     (if dir \<in> {upstream, both}
      then [(adjacency_by edge_source edge_target carrying, unresolved_by edge_source blocked)]
      else []) @
     (if dir \<in> {downstream, both}
      then [(adjacency_by edge_target edge_source carrying, unresolved_by edge_target blocked)]
      else [])"

definition assess_impact ::
  "ident \<Rightarrow> edge_record list \<Rightarrow> impact_direction \<Rightarrow> int \<Rightarrow> edge_type list option \<Rightarrow>
   confidence_level \<Rightarrow> bool \<Rightarrow> ident list \<Rightarrow> impact_error + impact_index" where
  "assess_impact subject edges dir maximum_depth edge_types minimum aware observed =
     (if maximum_depth < 0 then Inl negative_depth
      else if aware \<and> (case edge_types of None \<Rightarrow> False
             | Some ts \<Rightarrow> \<not> list_all (\<lambda>t. t \<in> set dependency_edge_types) ts)
      then Inl (outside_dependency_types (usort (map edge_type_value (filter
             (\<lambda>t. t \<notin> set dependency_edge_types) (the edge_types)))))
      else
        (let allowed = impact_allowed_types edge_types aware;
             carrying = carrying_edges allowed minimum aware observed edges;
             blocked = blocked_edges allowed minimum aware observed edges;
             runs = map (\<lambda>(adj, unadj). bfs adj unadj (nat maximum_depth) (bfs_start subject))
               (impact_traversals dir carrying blocked);
             affected = usort (concat (map bfs_affected runs)) in
         Inr \<lparr>imp_subject = subject, imp_direction = dir, imp_maximum_depth = maximum_depth,
              affected_entity_ids = affected,
              imp_paths = usort (concat (map bfs_paths runs)),
              unresolved_edge_ids = usort (concat (map bfs_unresolved runs)),
              affected_repository_ids = filter (\<lambda>i. startswith i ''repo:'') affected,
              affected_capability_ids = filter (\<lambda>i. startswith i ''capability:'') affected\<rparr>))"

subsection \<open>Walks\<close>

definition within :: "(ident \<times> ident) set \<Rightarrow> nat \<Rightarrow> ident \<Rightarrow> ident set" where
  "within R n s = {t. \<exists>k < n. (s, t) \<in> R ^^ k}"

definition reach :: "(ident \<times> ident) set \<Rightarrow> nat \<Rightarrow> ident \<Rightarrow> ident set" where
  "reach R n s = {t. \<exists>k. 1 \<le> k \<and> k \<le> n \<and> (s, t) \<in> R ^^ k}"

lemma within_Suc: "within R (Suc (Suc n)) s = within R (Suc n) s \<union> R `` within R (Suc n) s"
proof (intro set_eqI iffI)
  fix t assume "t \<in> within R (Suc (Suc n)) s"
  then obtain k where k: "k < Suc (Suc n)" "(s, t) \<in> R ^^ k" by (auto simp: within_def)
  show "t \<in> within R (Suc n) s \<union> R `` within R (Suc n) s"
  proof (cases k)
    case 0
    then show ?thesis using k by (auto simp: within_def)
  next
    case (Suc j)
    then obtain u where "(s, u) \<in> R ^^ j" "(u, t) \<in> R" using k by auto
    then show ?thesis using k Suc by (auto simp: within_def)
  qed
next
  fix t assume "t \<in> within R (Suc n) s \<union> R `` within R (Suc n) s"
  then show "t \<in> within R (Suc (Suc n)) s"
  proof
    assume "t \<in> within R (Suc n) s"
    then show ?thesis by (auto simp: within_def intro: less_SucI)
  next
    assume "t \<in> R `` within R (Suc n) s"
    then obtain u k where "k < Suc n" "(s, u) \<in> R ^^ k" "(u, t) \<in> R" by (auto simp: within_def)
    then have "Suc k < Suc (Suc n)" and "(s, t) \<in> R ^^ Suc k" by auto
    then show ?thesis unfolding within_def by blast
  qed
qed

lemma within_1: "within R (Suc 0) s = {s}"
  by (auto simp: within_def)

lemma reach_within: "reach R n s = R `` within R n s"
proof (intro set_eqI iffI)
  fix t assume "t \<in> reach R n s"
  then obtain k where k: "1 \<le> k" "k \<le> n" "(s, t) \<in> R ^^ k" by (auto simp: reach_def)
  then obtain j where j: "k = Suc j" by (cases k) auto
  with k obtain u where "(s, u) \<in> R ^^ j" "(u, t) \<in> R" by auto
  moreover have "j < n" using k j by simp
  with \<open>(s, u) \<in> R ^^ j\<close> have "u \<in> within R n s" by (auto simp: within_def)
  ultimately show "t \<in> R `` within R n s" by blast
next
  fix t assume "t \<in> R `` within R n s"
  then obtain u k where "k < n" "(s, u) \<in> R ^^ k" "(u, t) \<in> R" by (auto simp: within_def)
  then have "1 \<le> Suc k" "Suc k \<le> n" "(s, t) \<in> R ^^ Suc k" by auto
  then show "t \<in> reach R n s" unfolding reach_def by blast
qed

lemma within_mono: "m \<le> n \<Longrightarrow> within R m s \<subseteq> within R n s"
  unfolding within_def by (auto intro: less_le_trans)

lemma within_closed:
  assumes "R `` within R (Suc d) s \<subseteq> within R (Suc d) s" and "d \<le> n"
  shows "within R (Suc n) s = within R (Suc d) s"
  using assms(2)
proof (induction n rule: dec_induct)
  case (step n)
  then show ?case using assms(1) by (simp add: within_Suc [of R n] Un_absorb2)
qed simp

subsection \<open>The traversal computes bounded reachability\<close>

definition adjacency_rel :: "adjacency \<Rightarrow> (ident \<times> ident) set" where
  "adjacency_rel adj = {(c, t). t \<in> fst ` set (adjacent adj c)}"

definition bfs_nodes :: "(ident \<times> ident list \<times> nat) list \<Rightarrow> ident list" where
  "bfs_nodes q = map fst q"

text \<open>
  The queue is a level \<open>d\<close> followed by the part of level \<open>d + 1\<close> already found; everything
  nearer has been expanded.
\<close>

definition bfs_inv ::
  "adjacency \<Rightarrow> (ident, ident list) dict \<Rightarrow> ident \<Rightarrow> nat \<Rightarrow> (ident \<times> ident list \<times> nat) list \<Rightarrow>
   (ident \<times> ident list \<times> nat) list \<Rightarrow> bfs_state \<Rightarrow> bool" where
  "bfs_inv adj unadj s d q1 q2 st \<longleftrightarrow>
     (let R = adjacency_rel adj; B = within R (Suc d) s; P = B - set (bfs_nodes q1) in
      bfs_queue st = q1 @ q2 \<and> distinct (bfs_nodes q1 @ bfs_nodes q2) \<and>
      set (bfs_nodes q1) \<subseteq> B \<and> set (bfs_nodes q2) \<inter> B = {} \<and>
      set (bfs_visited st) = B \<union> set (bfs_nodes q2) \<and>
      set (bfs_nodes q2) \<subseteq> R `` P \<and>
      (\<forall>x \<in> set q1. snd (snd x) = d) \<and> (\<forall>x \<in> set q2. snd (snd x) = Suc d) \<and>
      set (bfs_affected st) = R `` P \<and> R `` P \<subseteq> set (bfs_visited st) \<and>
      set (bfs_unresolved st) = (\<Union>c \<in> P. set (dget_default [] unadj c)))"

lemma bfs_inv_start: "bfs_inv adj unadj s 0 [(s, [s], 0)] [] (bfs_start s)"
  by (simp add: bfs_inv_def Let_def bfs_start_def within_1 bfs_nodes_def)

lemma bfs_inv_level:
  assumes "bfs_inv adj unadj s d [] q2 st"
  shows "bfs_inv adj unadj s (Suc d) q2 [] st"
proof -
  let ?R = "adjacency_rel adj" let ?B = "within ?R (Suc d) s"
  have q: "set (bfs_nodes q2) \<inter> ?B = {}" "set (bfs_visited st) = ?B \<union> set (bfs_nodes q2)"
    "set (bfs_nodes q2) \<subseteq> ?R `` ?B" "?R `` ?B \<subseteq> set (bfs_visited st)"
    using assms by (auto simp: bfs_inv_def Let_def bfs_nodes_def)
  have B: "within ?R (Suc (Suc d)) s = ?B \<union> set (bfs_nodes q2)"
    unfolding within_Suc using q by blast
  then have "within ?R (Suc (Suc d)) s - set (bfs_nodes q2) = ?B" using q(1) by blast
  with assms B q show ?thesis by (simp add: bfs_inv_def Let_def bfs_nodes_def)
qed

lemma bfs_inv_step:
  assumes "bfs_inv adj unadj s d ((c, p, d) # q1) q2 st"
  shows "\<exists>q2'. bfs_inv adj unadj s d q1 q2' (fold (visit_target p d) (adjacent adj c)
    (st\<lparr>bfs_queue := q1 @ q2,
        bfs_unresolved := bfs_unresolved st @ dget_default [] unadj c\<rparr>))"
proof -
  let ?R = "adjacency_rel adj" let ?B = "within ?R (Suc d) s"
  let ?st = "st\<lparr>bfs_queue := q1 @ q2, bfs_unresolved := bfs_unresolved st @ dget_default [] unadj c\<rparr>"
  let ?S = "fst ` set (adjacent adj c)"
  have S: "?S = ?R `` {c}" by (auto simp: adjacency_rel_def)
  have c: "c \<in> ?B" "c \<notin> set (bfs_nodes q1)"
    using assms by (auto simp: bfs_inv_def Let_def bfs_nodes_def)
  have P: "?B - set (bfs_nodes q1) = insert c (?B - set (bfs_nodes ((c, p, d) # q1)))"
    using c by (auto simp: bfs_nodes_def)
  obtain new where new: "bfs_queue (fold (visit_target p d) (adjacent adj c) ?st) =
        (q1 @ q2) @ map (\<lambda>t. (t, p @ [t], d + 1)) new"
    "distinct new" "set new = ?S - set (bfs_visited st)"
    using visit_fold(2) [of p d "adjacent adj c" ?st] by auto
  let ?q2 = "q2 @ map (\<lambda>t. (t, p @ [t], d + 1)) new"
  have n: "bfs_nodes ?q2 = bfs_nodes q2 @ new" by (simp add: bfs_nodes_def comp_def)
  let ?P = "?B - set (bfs_nodes ((c, p, d) # q1))"
  have R: "?R `` insert c ?P = ?S \<union> ?R `` ?P" unfolding S by blast
  have i: "distinct (bfs_nodes q1 @ bfs_nodes q2)" "set (bfs_nodes q1) \<subseteq> ?B"
    "set (bfs_nodes q2) \<inter> ?B = {}" "set (bfs_visited st) = ?B \<union> set (bfs_nodes q2)"
    "set (bfs_nodes q2) \<subseteq> ?R `` ?P" "\<forall>x \<in> set q1. snd (snd x) = d"
    "\<forall>x \<in> set q2. snd (snd x) = Suc d" "set (bfs_affected st) = ?R `` ?P"
    "?R `` ?P \<subseteq> set (bfs_visited st)"
    "set (bfs_unresolved st) = (\<Union>c \<in> ?P. set (dget_default [] unadj c))"
    using assms by (auto simp: bfs_inv_def Let_def bfs_nodes_def)
  have "bfs_inv adj unadj s d q1 ?q2 (fold (visit_target p d) (adjacent adj c) ?st)"
    unfolding bfs_inv_def Let_def P n R visit_fold new(1)
  proof (intro conjI)
    show "(q1 @ q2) @ map (\<lambda>t. (t, p @ [t], d + 1)) new = q1 @ ?q2" by simp
    show "distinct (bfs_nodes q1 @ bfs_nodes q2 @ new)" using i new(2,3) by auto
    show "set (bfs_nodes q1) \<subseteq> ?B" by (rule i)
    show "set (bfs_nodes q2 @ new) \<inter> ?B = {}" using i new(3) by auto
    show "set (bfs_visited ?st) \<union> ?S = ?B \<union> set (bfs_nodes q2 @ new)" using i new(3) by auto
    show "set (bfs_nodes q2 @ new) \<subseteq> ?S \<union> ?R `` ?P" using i new(3) by auto
    show "\<forall>x \<in> set q1. snd (snd x) = d" by (rule i)
    show "\<forall>x \<in> set ?q2. snd (snd x) = Suc d" using i by auto
    show "set (bfs_affected ?st) \<union> ?S = ?S \<union> ?R `` ?P" using i by auto
    show "?S \<union> ?R `` ?P \<subseteq> set (bfs_visited ?st) \<union> ?S" using i by auto
    show "set (bfs_unresolved ?st) = (\<Union>c \<in> insert c ?P. set (dget_default [] unadj c))"
      using i by auto
  qed
  then show ?thesis by blast
qed

lemma bfs_drained:
  "\<forall>x \<in> set (bfs_queue st). maxd \<le> snd (snd x) \<Longrightarrow>
     bfs_affected (bfs adj unadj maxd st) = bfs_affected st \<and>
     bfs_unresolved (bfs adj unadj maxd st) = bfs_unresolved st"
proof (induction adj unadj maxd st rule: bfs.induct)
  case (1 adj unadj maxd st)
  show ?case
  proof (cases "bfs_queue st")
    case Nil
    then show ?thesis by (simp add: bfs.simps [of adj unadj maxd st])
  next
    case (Cons x q)
    obtain c p d where x: "x = (c, p, d)" by (cases x) auto
    with Cons 1(3) have d: "maxd \<le> d" by simp
    have "bfs_affected (bfs adj unadj maxd (st\<lparr>bfs_queue := q\<rparr>)) = bfs_affected st \<and>
        bfs_unresolved (bfs adj unadj maxd (st\<lparr>bfs_queue := q\<rparr>)) = bfs_unresolved st"
      using 1(1) [OF Cons x [symmetric] refl d] 1(3) Cons by simp
    then show ?thesis using Cons x d by (simp add: bfs.simps [of adj unadj maxd st])
  qed
qed

definition bfs_result ::
  "adjacency \<Rightarrow> (ident, ident list) dict \<Rightarrow> nat \<Rightarrow> ident \<Rightarrow> bfs_state \<Rightarrow> bool" where
  "bfs_result adj unadj maxd s st \<longleftrightarrow>
     set (bfs_affected st) = reach (adjacency_rel adj) maxd s \<and>
     set (bfs_unresolved st) =
       (\<Union>c \<in> within (adjacency_rel adj) maxd s. set (dget_default [] unadj c))"

lemma bfs_inv_last_level:
  assumes "bfs_inv adj unadj s d [] q2 st"
  shows "bfs_result adj unadj (Suc d) s (bfs adj unadj (Suc d) st)"
proof -
  have "\<forall>x \<in> set (bfs_queue st). Suc d \<le> snd (snd x)"
    using assms by (simp add: bfs_inv_def Let_def)
  from bfs_drained [OF this] show ?thesis
    using assms by (simp add: bfs_result_def reach_within bfs_inv_def Let_def bfs_nodes_def)
qed

lemma bfs_inv_empty:
  assumes "bfs_inv adj unadj s d [] [] st" and "d < maxd"
  shows "bfs_result adj unadj maxd s st"
proof -
  let ?R = "adjacency_rel adj"
  have i: "?R `` within ?R (Suc d) s \<subseteq> within ?R (Suc d) s"
    "set (bfs_affected st) = ?R `` within ?R (Suc d) s"
    "set (bfs_unresolved st) = (\<Union>c \<in> within ?R (Suc d) s. set (dget_default [] unadj c))"
    using assms(1) by (auto simp: bfs_inv_def Let_def bfs_nodes_def)
  obtain n where n: "maxd = Suc n" "d \<le> n" using assms(2) by (cases maxd) auto
  have "within ?R maxd s = within ?R (Suc d) s"
    unfolding n(1) by (rule within_closed [OF i(1) n(2)])
  with i show ?thesis by (simp add: bfs_result_def reach_within)
qed

lemma bfs_correct:
  "bfs_inv adj unadj s d q1 q2 st \<Longrightarrow> d < maxd \<Longrightarrow>
     bfs_result adj unadj maxd s (bfs adj unadj maxd st)"
proof (induction adj unadj maxd st arbitrary: d q1 q2 rule: bfs.induct)
  case (1 adj unadj maxd st)
  have q: "bfs_queue st = q1 @ q2" using 1(3) by (simp add: bfs_inv_def Let_def)
  have expand: "bfs_result adj unadj maxd s (bfs adj unadj maxd st)"
    if inv: "bfs_inv adj unadj s d' ((c, p, dd) # q1') q2' st" and d': "d' < maxd"
    for d' c p dd q1' q2'
  proof -
    have qu: "bfs_queue st = (c, p, dd) # q1' @ q2'" and dd: "dd = d'"
      using inv by (simp_all add: bfs_inv_def Let_def)
    let ?st' = "fold (visit_target p d') (adjacent adj c) (st\<lparr>bfs_queue := q1' @ q2',
        bfs_unresolved := bfs_unresolved st @ dget_default [] unadj c\<rparr>)"
    obtain q2'' where "bfs_inv adj unadj s d' q1' q2'' ?st'"
      using bfs_inv_step inv dd by blast
    moreover have "\<not> maxd \<le> dd" using d' dd by simp
    ultimately have "bfs_result adj unadj maxd s (bfs adj unadj maxd ?st')"
      using 1(2) [OF qu refl refl] d' dd by blast
    then show ?thesis using qu d' dd by (simp add: bfs.simps [of adj unadj maxd st])
  qed
  show ?case
  proof (cases q1)
    case (Cons x q1')
    then show ?thesis using expand 1(3,4) by (cases x) blast
  next
    case Nil
    with 1(3) have nil: "bfs_inv adj unadj s d [] q2 st" by simp
    show ?thesis
    proof (cases "Suc d < maxd")
      case False
      with 1(4) have "maxd = Suc d" by simp
      then show ?thesis using bfs_inv_last_level [OF nil] by simp
    next
      case True
      show ?thesis
      proof (cases q2)
        case (Cons x q2')
        then show ?thesis using expand bfs_inv_level [OF nil] True by (cases x) blast
      next
        case Nil2: Nil
        have "bfs adj unadj maxd st = st" using q Nil Nil2 by (simp add: bfs.simps [of adj unadj maxd st])
        then show ?thesis using bfs_inv_empty nil Nil2 1(4) by simp
      qed
    qed
  qed
qed

lemma bfs_reach: "bfs_result adj unadj maxd s (bfs adj unadj maxd (bfs_start s))"
proof (cases "0 < maxd")
  case True
  then show ?thesis using bfs_correct [OF bfs_inv_start] by blast
next
  case False
  then have "\<forall>x \<in> set (bfs_queue (bfs_start s)). maxd \<le> snd (snd x)" by simp
  from bfs_drained [OF this] False show ?thesis
    by (simp add: bfs_result_def reach_within bfs_start_def within_def)
qed

subsection \<open>Paths\<close>

definition walk_from :: "(ident \<times> ident) set \<Rightarrow> ident \<Rightarrow> nat \<Rightarrow> ident list \<Rightarrow> bool" where
  "walk_from R s n p \<longleftrightarrow>
     p \<noteq> [] \<and> hd p = s \<and> length p \<le> Suc n \<and> successively (\<lambda>a b. (a, b) \<in> R) p"

definition bfs_paths_ok :: "adjacency \<Rightarrow> nat \<Rightarrow> ident \<Rightarrow> bfs_state \<Rightarrow> bool" where
  "bfs_paths_ok adj maxd s st \<longleftrightarrow>
     (\<forall>(c, p, d) \<in> set (bfs_queue st). walk_from (adjacency_rel adj) s d p \<and> last p = c) \<and>
     (\<forall>p \<in> set (bfs_paths st). walk_from (adjacency_rel adj) s maxd p) \<and>
     last ` set (bfs_paths st) = set (bfs_affected st)"

lemma walk_from_snoc:
  "walk_from R s d p \<Longrightarrow> (last p, t) \<in> R \<Longrightarrow> walk_from R s (Suc d) (p @ [t])"
  by (auto simp: walk_from_def successively_append_iff)

lemma walk_from_mono: "walk_from R s m p \<Longrightarrow> m \<le> n \<Longrightarrow> walk_from R s n p"
  by (auto simp: walk_from_def)

lemma bfs_paths_step:
  assumes ok: "bfs_paths_ok adj maxd s st" and q: "bfs_queue st = (c, p, d) # q" and d: "d < maxd"
  shows "bfs_paths_ok adj maxd s (fold (visit_target p d) (adjacent adj c)
    (st\<lparr>bfs_queue := q, bfs_unresolved := u\<rparr>))"
proof -
  let ?st = "st\<lparr>bfs_queue := q, bfs_unresolved := u\<rparr>"
  let ?f = "fold (visit_target p d) (adjacent adj c) ?st"
  have w: "walk_from (adjacency_rel adj) s d p" "last p = c"
    using ok q by (auto simp: bfs_paths_ok_def)
  have next_walk: "walk_from (adjacency_rel adj) s (Suc d) (p @ [t])"
    if "t \<in> fst ` set (adjacent adj c)" for t
    using walk_from_snoc [OF w(1)] that w(2) by (auto simp: adjacency_rel_def)
  obtain new where new: "bfs_queue ?f = q @ map (\<lambda>t. (t, p @ [t], d + 1)) new"
    "set new = fst ` set (adjacent adj c) - set (bfs_visited st)"
    using visit_fold(2) [of p d "adjacent adj c" ?st] by auto
  have "\<forall>(c, p, d) \<in> set (bfs_queue ?f). walk_from (adjacency_rel adj) s d p \<and> last p = c"
    unfolding new(1) using ok q next_walk new(2) by (auto simp: bfs_paths_ok_def)
  moreover have "\<forall>p \<in> set (bfs_paths ?f). walk_from (adjacency_rel adj) s maxd p"
    unfolding visit_fold(4) using ok next_walk walk_from_mono [of _ s "Suc d" _ maxd] d
    by (auto simp: bfs_paths_ok_def)
  moreover have "last ` set (bfs_paths ?f) = set (bfs_affected ?f)"
    using ok by (simp add: visit_fold(3,4) bfs_paths_ok_def image_Un image_image)
  ultimately show ?thesis by (simp only: bfs_paths_ok_def)
qed

lemma bfs_paths_correct:
  "bfs_paths_ok adj maxd s st \<Longrightarrow> bfs_paths_ok adj maxd s (bfs adj unadj maxd st)"
proof (induction adj unadj maxd st rule: bfs.induct)
  case (1 adj unadj maxd st)
  show ?case
  proof (cases "bfs_queue st")
    case Nil
    then show ?thesis using 1(3) by (simp add: bfs.simps [of adj unadj maxd st])
  next
    case (Cons x q)
    obtain c p d where x: "x = (c, p, d)" by (cases x) auto
    show ?thesis
    proof (cases "maxd \<le> d")
      case True
      have "bfs_paths_ok adj maxd s (st\<lparr>bfs_queue := q\<rparr>)"
        using 1(3) Cons by (simp add: bfs_paths_ok_def)
      from 1(1) [OF Cons x [symmetric] refl True this] show ?thesis
        using Cons x True by (simp add: bfs.simps [of adj unadj maxd st])
    next
      case False
      from 1(2) [OF Cons x [symmetric] refl False bfs_paths_step [OF 1(3)]] Cons x False
      show ?thesis by (simp add: bfs.simps [of adj unadj maxd st])
    qed
  qed
qed

lemma bfs_start_paths: "bfs_paths_ok adj maxd s (bfs_start s)"
  by (simp add: bfs_paths_ok_def bfs_start_def walk_from_def)

subsection \<open>Impact is bounded reachability\<close>

definition edge_relation ::
  "(edge_record \<Rightarrow> ident) \<Rightarrow> (edge_record \<Rightarrow> ident) \<Rightarrow> edge_record list \<Rightarrow> (ident \<times> ident) set" where
  "edge_relation src tgt es = (\<lambda>e. (src e, tgt e)) ` set es"

lemma adjacency_rel_by: "adjacency_rel (adjacency_by src tgt es) = edge_relation src tgt es"
  by (auto simp: adjacency_rel_def adjacent_def adjacency_by_def dget_dappend_fold
      edge_relation_def image_iff)

lemma unresolved_by_get:
  "set (dget_default [] (unresolved_by src es) c) = edge_id ` {e \<in> set es. src e = c}"
  by (auto simp: unresolved_by_def dget_dappend_fold)

definition impact_carrying ::
  "edge_type list option \<Rightarrow> confidence_level \<Rightarrow> bool \<Rightarrow> ident list \<Rightarrow> edge_record list \<Rightarrow>
   edge_record list" where
  "impact_carrying types minimum aware observed edges =
     carrying_edges (impact_allowed_types types aware) minimum aware observed edges"

definition impact_blocked ::
  "edge_type list option \<Rightarrow> confidence_level \<Rightarrow> bool \<Rightarrow> ident list \<Rightarrow> edge_record list \<Rightarrow>
   edge_record list" where
  "impact_blocked types minimum aware observed edges =
     blocked_edges (impact_allowed_types types aware) minimum aware observed edges"

definition impact_runs ::
  "ident \<Rightarrow> impact_direction \<Rightarrow> nat \<Rightarrow> edge_record list \<Rightarrow> edge_record list \<Rightarrow> bfs_state list" where
  "impact_runs subject dir n carrying blocked =
     map (\<lambda>(adj, unadj). bfs adj unadj n (bfs_start subject)) (impact_traversals dir carrying blocked)"

lemma assess_impact_Inr:
  assumes "assess_impact subject edges dir n types minimum aware observed = Inr ix"
  shows "affected_entity_ids ix = usort (concat (map bfs_affected (impact_runs subject dir (nat n)
           (impact_carrying types minimum aware observed edges)
           (impact_blocked types minimum aware observed edges))))"
    and "imp_paths ix = usort (concat (map bfs_paths (impact_runs subject dir (nat n)
           (impact_carrying types minimum aware observed edges)
           (impact_blocked types minimum aware observed edges))))"
    and "unresolved_edge_ids ix = usort (concat (map bfs_unresolved (impact_runs subject dir (nat n)
           (impact_carrying types minimum aware observed edges)
           (impact_blocked types minimum aware observed edges))))"
  using assms
  by (auto simp: assess_impact_def impact_runs_def impact_carrying_def impact_blocked_def Let_def
      split: if_splits)

lemma impact_run_sets:
  "set (bfs_affected (bfs (adjacency_by src tgt es) (unresolved_by src bs) n (bfs_start s))) =
     reach (edge_relation src tgt es) n s"
  "set (bfs_unresolved (bfs (adjacency_by src tgt es) (unresolved_by src bs) n (bfs_start s))) =
     edge_id ` {e \<in> set bs. src e \<in> within (edge_relation src tgt es) n s}"
  using bfs_reach [of "adjacency_by src tgt es" "unresolved_by src bs" n s]
  by (auto simp: bfs_result_def adjacency_rel_by unresolved_by_get)

text \<open>
  C11: Impact is bounded reachability, exactly. Looking upstream, the affected entities are
  those a walk of one to \<open>maximum_depth\<close> edges reaches from the subject along the usable edges;
  looking downstream, against them; looking both ways, either. In the resolution-aware
  reading the walks use resolved dependency edges only, and the unresolved edges reported are
  exactly those that leave a vertex reached within fewer than \<open>maximum_depth\<close> edges.
\<close>
theorem assess_impact_exact:
  assumes "assess_impact subject edges dir n types minimum aware observed = Inr ix"
  shows "set (affected_entity_ids ix) =
      (if dir \<in> {upstream, both} then reach (edge_relation edge_source edge_target
         (impact_carrying types minimum aware observed edges)) (nat n) subject else {}) \<union>
      (if dir \<in> {downstream, both} then reach (edge_relation edge_target edge_source
         (impact_carrying types minimum aware observed edges)) (nat n) subject else {}) \<and>
    set (unresolved_edge_ids ix) =
      (if dir \<in> {upstream, both} then
         edge_id ` {e \<in> set (impact_blocked types minimum aware observed edges).
           edge_source e \<in> within (edge_relation edge_source edge_target
             (impact_carrying types minimum aware observed edges)) (nat n) subject} else {}) \<union>
      (if dir \<in> {downstream, both} then
         edge_id ` {e \<in> set (impact_blocked types minimum aware observed edges).
           edge_target e \<in> within (edge_relation edge_target edge_source
             (impact_carrying types minimum aware observed edges)) (nat n) subject} else {})"
  unfolding assess_impact_Inr [OF assms] impact_runs_def impact_traversals_def
  by (simp add: impact_run_sets)

text \<open>
  Every path reported is evidence for its last entity: it starts at the subject, follows
  usable edges in one direction throughout and has at most \<open>maximum_depth\<close> of them, and the
  entities paths end in are exactly the affected ones.
\<close>
theorem assess_impact_paths:
  assumes "assess_impact subject edges dir n types minimum aware observed = Inr ix"
  shows "list_all (\<lambda>p. walk_from (edge_relation edge_source edge_target
        (impact_carrying types minimum aware observed edges)) subject (nat n) p \<or>
      walk_from (edge_relation edge_target edge_source
        (impact_carrying types minimum aware observed edges)) subject (nat n) p) (imp_paths ix) \<and>
    last ` set (imp_paths ix) = set (affected_entity_ids ix)"
proof
  let ?runs = "impact_runs subject dir (nat n) (impact_carrying types minimum aware observed edges)
      (impact_blocked types minimum aware observed edges)"
  have ok: "\<exists>adj. bfs_paths_ok adj (nat n) subject st \<and> adjacency_rel adj \<in>
      {edge_relation edge_source edge_target (impact_carrying types minimum aware observed edges),
       edge_relation edge_target edge_source (impact_carrying types minimum aware observed edges)}"
    if "st \<in> set ?runs" for st
    using that bfs_paths_correct [OF bfs_start_paths]
    by (fastforce simp: impact_runs_def impact_traversals_def adjacency_rel_by split: if_splits)
  then show "list_all (\<lambda>p. walk_from (edge_relation edge_source edge_target
        (impact_carrying types minimum aware observed edges)) subject (nat n) p \<or>
      walk_from (edge_relation edge_target edge_source
        (impact_carrying types minimum aware observed edges)) subject (nat n) p) (imp_paths ix)"
    unfolding assess_impact_Inr [OF assms] list_all_iff by (force simp: bfs_paths_ok_def)
  have "last ` set (bfs_paths st) = set (bfs_affected st)" if "st \<in> set ?runs" for st
    using ok [OF that] by (auto simp: bfs_paths_ok_def)
  then show "last ` set (imp_paths ix) = set (affected_entity_ids ix)"
    unfolding assess_impact_Inr [OF assms] by (simp add: image_UN)
qed

definition sample_edge :: "ident \<Rightarrow> ident \<Rightarrow> ident \<Rightarrow> edge_record" where
  "sample_edge i a b =
     \<lparr>edge_id = i, edge_source = a, edge_target = b, edge_type_of = DEPENDS_ON,
      edge_direction = outbound, edge_properties = [], edge_evidence_refs = [],
      edge_confidence = confidence_unknown\<rparr>"

definition sample_impact :: "impact_error + impact_index" where
  "sample_impact = assess_impact ''a'' [sample_edge ''1'' ''a'' ''b'', sample_edge ''2'' ''b'' ''c'',
     sample_edge ''3'' ''b'' ''x''] upstream 2 None level_low True [''b'', ''c'']"

theorem assess_impact_exact_witness:
  "\<exists>ix. sample_impact = Inr ix \<and>
    set (affected_entity_ids ix) = reach {(''a'', ''b''), (''b'', ''c'')} 2 ''a'' \<and>
    ''3'' \<in> set (unresolved_edge_ids ix)"
proof -
  obtain ix where ix: "sample_impact = Inr ix"
    by (simp add: sample_impact_def assess_impact_def Let_def)
  have c: "impact_carrying None level_low True [''b'', ''c'']
      [sample_edge ''1'' ''a'' ''b'', sample_edge ''2'' ''b'' ''c'', sample_edge ''3'' ''b'' ''x''] =
      [sample_edge ''1'' ''a'' ''b'', sample_edge ''2'' ''b'' ''c'']"
    and b: "impact_blocked None level_low True [''b'', ''c'']
      [sample_edge ''1'' ''a'' ''b'', sample_edge ''2'' ''b'' ''c'', sample_edge ''3'' ''b'' ''x''] =
      [sample_edge ''3'' ''b'' ''x'']"
    by (simp_all add: impact_carrying_def impact_blocked_def carrying_edges_def blocked_edges_def
        impact_usable_def impact_allowed_types_def dependency_edge_types_def edge_is_resolved_def
        dependency_target_resolution_def get_value_def sample_edge_def confidence_unknown_def)
  have "(''a'', ''b'') \<in> {(''a'', ''b''), (''b'', ''c'')} ^^ 1" by simp
  then have "''b'' \<in> within {(''a'', ''b''), (''b'', ''c'')} 2 ''a''"
    unfolding within_def by (intro CollectI exI [of _ 1]) simp
  with c b assess_impact_exact [OF ix [unfolded sample_impact_def]]
  have "set (affected_entity_ids ix) = reach {(''a'', ''b''), (''b'', ''c'')} 2 ''a''"
    and "''3'' \<in> set (unresolved_edge_ids ix)"
    by (auto simp: edge_relation_def sample_edge_def image_iff)
  with ix show ?thesis by blast
qed

theorem assess_impact_paths_witness:
  "\<exists>ix. sample_impact = Inr ix \<and> last ` set (imp_paths ix) = set (affected_entity_ids ix)"
proof -
  obtain ix where ix: "sample_impact = Inr ix"
    by (simp add: sample_impact_def assess_impact_def Let_def)
  with assess_impact_paths [OF ix [unfolded sample_impact_def]] show ?thesis by blast
qed

end
