(* ===== verification/BridgeGaps.thy ===== *)
theory BridgeGaps
  imports Impact
begin

text \<open>
  Bridge gaps, \<open>domain/bridge_gap.py\<close> and \<open>topology/bridge_gaps.py\<close>: the lifecycle transitions
  of capabilities and outputs that the compiled topology shows to be missing, and the operator
  intent that decides what a gap means.
\<close>

subsection \<open>The records\<close>

datatype bridge_gap_type = built_unreachable | exposed_unconsumed | orphan_output

fun gap_type_value :: "bridge_gap_type \<Rightarrow> string" where
  "gap_type_value built_unreachable = ''BUILT_UNREACHABLE''"
| "gap_type_value exposed_unconsumed = ''EXPOSED_UNCONSUMED''"
| "gap_type_value orphan_output = ''ORPHAN_OUTPUT''"

datatype lifecycle_state = st_implemented | st_validated | st_exposed | st_produced | st_consumed

fun lifecycle_value :: "lifecycle_state \<Rightarrow> string" where
  "lifecycle_value st_implemented = ''IMPLEMENTED''"
| "lifecycle_value st_validated = ''VALIDATED''"
| "lifecycle_value st_exposed = ''EXPOSED''"
| "lifecycle_value st_produced = ''PRODUCED''"
| "lifecycle_value st_consumed = ''CONSUMED''"

datatype activation_intent =
    intent_required | intent_optional | intent_deferred | intent_prohibited | intent_unknown

fun intent_value :: "activation_intent \<Rightarrow> string" where
  "intent_value intent_required = ''REQUIRED''"
| "intent_value intent_optional = ''OPTIONAL''"
| "intent_value intent_deferred = ''DEFERRED''"
| "intent_value intent_prohibited = ''PROHIBITED''"
| "intent_value intent_unknown = ''UNKNOWN''"

text \<open>\<open>ActivationIntent(raw)\<close>, \<open>None\<close> where the constructor raises \<open>ValueError\<close>.\<close>

definition parse_intent :: "string \<Rightarrow> activation_intent option" where
  "parse_intent raw = find (\<lambda>i. intent_value i = raw)
     [intent_required, intent_optional, intent_deferred, intent_prohibited, intent_unknown]"

datatype bridge_disposition =
    action_required | intentional_dormancy | correctly_disconnected | decision_required

fun disposition_value :: "bridge_disposition \<Rightarrow> string" where
  "disposition_value action_required = ''ACTION_REQUIRED''"
| "disposition_value intentional_dormancy = ''INTENTIONAL_DORMANCY''"
| "disposition_value correctly_disconnected = ''CORRECTLY_DISCONNECTED''"
| "disposition_value decision_required = ''DECISION_REQUIRED''"

datatype subject_kind = kind_capability | kind_output

record bridge_gap_record =
  bridge_gap_id :: ident
  gap_subject :: ident
  gap_subject_kind :: subject_kind
  gap_type :: bridge_gap_type
  observed_state :: lifecycle_state
  expected_state :: lifecycle_state
  missing_transition :: string
  gap_intent :: activation_intent
  gap_disposition :: bridge_disposition
  producer_ids :: "ident list"
  consumer_ids :: "ident list"
  gap_evidence_refs :: "ident list"
  gap_reason :: string
  recommended_action :: string
  gap_confidence :: confidence_assessment

definition bridge_gap_policy_id :: string where
  "bridge_gap_policy_id = ''l9.bridge-gap-policy''"

definition bridge_gap_policy_version :: string where
  "bridge_gap_policy_version = ''1.0.0''"

definition bridge_gap_policy_view :: pyval where
  "bridge_gap_policy_view = PDict
     [(''policy_id'', PStr bridge_gap_policy_id),
      (''policy_version'', PStr bridge_gap_policy_version),
      (''rules'', PDict
        [(gap_type_value built_unreachable, PDict
            [(''subject_kind'', PStr ''capability''), (''requires'', py_strs [''IMPLEMENTS'']),
             (''missing_all'', py_strs [''EXPOSES'', ''ROUTES_TO'']),
             (''expected_state'', PStr (lifecycle_value st_exposed))]),
         (gap_type_value exposed_unconsumed, PDict
            [(''subject_kind'', PStr ''capability''),
             (''requires_any'', py_strs [''EXPOSES'', ''ROUTES_TO'']),
             (''missing'', PStr ''CONSUMES''),
             (''expected_state'', PStr (lifecycle_value st_consumed))]),
         (gap_type_value orphan_output, PDict
            [(''subject_kind'', PStr ''output''), (''requires'', py_strs [''PRODUCES'']),
             (''missing'', PStr ''CONSUMES''),
             (''expected_state'', PStr (lifecycle_value st_consumed))])]),
      (''precedence'', py_strs (map gap_type_value
        [built_unreachable, exposed_unconsumed, orphan_output])),
      (''default_activation_intent'', PStr (intent_value intent_unknown)),
      (''effect_authority'', PStr ''none'')]"

definition bridge_gap_policy_hash :: "(string \<Rightarrow> string) \<Rightarrow> string" where
  "bridge_gap_policy_hash sha = semantic_hash sha bridge_gap_policy_view"

fun disposition_of :: "activation_intent \<Rightarrow> bridge_disposition" where
  "disposition_of intent_required = action_required"
| "disposition_of intent_optional = intentional_dormancy"
| "disposition_of intent_deferred = intentional_dormancy"
| "disposition_of intent_prohibited = correctly_disconnected"
| "disposition_of intent_unknown = decision_required"

definition recommended_action_for :: "bridge_gap_type \<Rightarrow> activation_intent \<Rightarrow> string" where
  "recommended_action_for gt i =
     (if i = intent_prohibited then
        ''Preserve the disconnection and retain explicit prohibition evidence.''
      else if i = intent_optional \<or> i = intent_deferred then
        ''Record the intentional dormant state and avoid an activation claim.''
      else if i = intent_unknown then
        ''Assign activation intent before wiring, retiring, or promoting this subject.''
      else if gt = built_unreachable then
        ''Wire an existing entry surface to the capability and attach runtime proof.''
      else if gt = exposed_unconsumed then
        ''Bind a real consumer to the existing interface and prove the handoff.''
      else ''Bind a consumer to the produced output and prove boundary survival.'')"

subsection \<open>Edges by endpoint, evidence, confidence, intent\<close>

definition edges_by :: "(edge_record \<Rightarrow> ident) \<Rightarrow> edge_record list \<Rightarrow> (ident, edge_record list) dict" where
  "edges_by endpoint es = map (\<lambda>(k, v). (k, sort_key edge_id v)) (group_by endpoint es)"

definition edges_by_endpoint ::
  "edge_record list \<Rightarrow> (ident, edge_record list) dict \<times> (ident, edge_record list) dict" where
  "edges_by_endpoint es = (edges_by edge_target es, edges_by edge_source es)"

definition of_type :: "edge_record list \<Rightarrow> edge_type list \<Rightarrow> edge_record list" where
  "of_type es tys = filter (\<lambda>e. edge_type_of e \<in> set tys) es"

definition gap_evidence :: "edge_record list list \<Rightarrow> ident list \<Rightarrow> ident list" where
  "gap_evidence ess direct = usort (direct @ concat (map edge_evidence_refs (concat ess)))"

definition gap_confidence_of ::
  "edge_record list list \<Rightarrow> ident list \<Rightarrow> confidence_assessment" where
  "gap_confidence_of ess direct = confidence_deterministic
     (1 < sum_list (map length ess) \<or> 1 < length (gap_evidence ess direct))"

definition upper_char :: "char \<Rightarrow> char" where
  "upper_char c = (let n = of_char c :: nat in if 97 \<le> n \<and> n \<le> 122 then char_of (n - 32) else c)"

definition str_upper :: "string \<Rightarrow> string" where
  "str_upper s = map upper_char s"

definition node_intent :: "graph_record \<Rightarrow> activation_intent option" where
  "node_intent g =
     (case dget (g_properties g) ''activation_intent'' of
        Some (PStr raw) \<Rightarrow> parse_intent (str_upper raw)
      | _ \<Rightarrow> None)"

definition declared_intents :: "graph_record list \<Rightarrow> (ident, activation_intent) dict" where
  "declared_intents gs =
     fold (\<lambda>g d. if g_record_type g \<noteq> rt_node then d
        else (case node_intent g of None \<Rightarrow> d | Some i \<Rightarrow> dput (g_entity_id g) i d)) gs []"

definition intent_for :: "ident \<Rightarrow> (ident, activation_intent) dict \<Rightarrow> activation_intent" where
  "intent_for subject ints = dget_default intent_unknown ints subject"

subsection \<open>Gap records\<close>

definition gap_record ::
  "(string \<Rightarrow> string) \<Rightarrow> ident \<Rightarrow> subject_kind \<Rightarrow> bridge_gap_type \<Rightarrow> lifecycle_state \<Rightarrow>
   lifecycle_state \<Rightarrow> activation_intent \<Rightarrow> ident list \<Rightarrow> ident list \<Rightarrow> ident list \<Rightarrow> string \<Rightarrow>
   confidence_assessment \<Rightarrow> bridge_gap_record" where
  "gap_record sha subject kind gt obs expected i producers consumers evidence reason conf =
     \<lparr>bridge_gap_id = stable_id sha ''bridge-gap'' (PDict
        [(''policy_id'', PStr bridge_gap_policy_id),
         (''policy_version'', PStr bridge_gap_policy_version),
         (''subject_id'', PStr subject), (''gap_type'', PStr (gap_type_value gt))]),
      gap_subject = subject, gap_subject_kind = kind, gap_type = gt,
      observed_state = obs, expected_state = expected,
      missing_transition = lifecycle_value obs @ ''_TO_'' @ lifecycle_value expected,
      gap_intent = i, gap_disposition = disposition_of i,
      producer_ids = usort producers, consumer_ids = usort consumers,
      gap_evidence_refs = evidence, gap_reason = reason,
      recommended_action = recommended_action_for gt i, gap_confidence = conf\<rparr>"

definition capability_gap ::
  "(string \<Rightarrow> string) \<Rightarrow> (ident, edge_record list) dict \<Rightarrow> (ident, edge_record list) dict \<Rightarrow>
   (ident, activation_intent) dict \<Rightarrow> capability_record \<Rightarrow> bridge_gap_record option" where
  "capability_gap sha incoming outgoing ints c =
     (let ins = dget_default [] incoming (cap_id c);
          outs = dget_default [] outgoing (cap_id c);
          implementation = of_type ins [IMPLEMENTS];
          validation_in = of_type ins [VALIDATED_BY];
          validation_out = of_type outs [VALIDATED_BY];
          exposure = of_type ins [EXPOSES, ROUTES_TO];
          routed = of_type outs [ROUTES_TO];
          implementers = usort (implemented_by c @ map edge_source implementation);
          validators = usort (validated_by c @ map edge_source validation_in @
            map edge_target validation_out);
          exposers = usort (exposed_by c @ map edge_source exposure @ map edge_target routed);
          consumers = usort (map edge_source (of_type ins [CONSUMES]));
          i = intent_for (cap_id c) ints in
      if consumers \<noteq> [] then None
      else if implementers \<noteq> [] \<and> exposers = [] then
        Some (gap_record sha (cap_id c) kind_capability built_unreachable
          (if validators \<noteq> [] then st_validated else st_implemented) st_exposed i implementers []
          (gap_evidence [implementation, validation_in @ validation_out] (cap_evidence_refs c))
          (''Capability has '' @ show_nat (length implementers) @ '' observed implementer(s)'' @
           (if validators \<noteq> [] then '' and '' @ show_nat (length validators) @ '' validator(s)''
            else []) @ '' but no EXPOSES or ROUTES_TO path.'')
          (gap_confidence_of [implementation, validation_in @ validation_out] (cap_evidence_refs c)))
      else if exposers \<noteq> [] then
        Some (gap_record sha (cap_id c) kind_capability exposed_unconsumed st_exposed st_consumed i
          (if implementers \<noteq> [] then implementers else exposers) []
          (gap_evidence [exposure, routed] (cap_evidence_refs c))
          (''Capability has '' @ show_nat (length exposers) @
           '' observed exposure or route path(s) but no CONSUMES edge.'')
          (gap_confidence_of [exposure, routed] (cap_evidence_refs c)))
      else None)"

definition output_gap ::
  "(string \<Rightarrow> string) \<Rightarrow> ident list \<Rightarrow> (ident, edge_record list) dict \<Rightarrow>
   (ident, activation_intent) dict \<Rightarrow> ident list \<Rightarrow> ident \<Rightarrow> bridge_gap_record option" where
  "output_gap sha cap_ids incoming ints excluded subject =
     (let ins = dget_default [] incoming subject;
          produced = of_type ins [PRODUCES];
          producers = usort (map edge_source produced) in
      if subject \<in> set cap_ids \<or> subject \<in> set excluded then None
      else if produced = [] then None
      else if of_type ins [CONSUMES] \<noteq> [] then None
      else Some (gap_record sha subject kind_output orphan_output st_produced st_consumed
        (intent_for subject ints) producers [] (gap_evidence [produced] [])
        (''Output has '' @ show_nat (length producers) @
         '' observed producer(s) but no CONSUMES edge.'')
        (gap_confidence_of [produced] [])))"

definition output_gaps ::
  "(string \<Rightarrow> string) \<Rightarrow> topology_state \<Rightarrow> (ident, edge_record list) dict \<Rightarrow>
   (ident, activation_intent) dict \<Rightarrow> ident list \<Rightarrow> bridge_gap_record list" where
  "output_gaps sha s incoming ints excluded =
     List.map_filter (output_gap sha (map cap_id (capability_records s)) incoming ints excluded)
       (sort (dkeys incoming))"

subsection \<open>\<open>project_bridge_gaps\<close>\<close>

record bridge_gap_projection =
  source_packet_id :: ident
  source_semantic_hash :: string
  bgp_policy_id :: string
  bgp_policy_version :: string
  bgp_policy_hash :: string
  gaps :: "bridge_gap_record list"
  counts_by_type :: "(string, nat) dict"
  counts_by_disposition :: "(string, nat) dict"
  unknown_intent_count :: nat
  bgp_semantic_hash :: string

text \<open>\<open>dict(sorted(Counter(xs).items()))\<close>.\<close>

definition counts :: "string list \<Rightarrow> (string, nat) dict" where
  "counts xs = map (\<lambda>v. (v, count_list xs v)) (usort xs)"

text \<open>The JSON view of records that enter the hash of the projection.\<close>

definition gap_view :: "bridge_gap_record \<Rightarrow> pyval" where
  "gap_view g = PModel
     [(''bridge_gap_id'', PStr (bridge_gap_id g)), (''subject_id'', PStr (gap_subject g)),
      (''subject_kind'', PStr (case gap_subject_kind g of
         kind_capability \<Rightarrow> ''capability'' | kind_output \<Rightarrow> ''output'')),
      (''gap_type'', PStr (gap_type_value (gap_type g))),
      (''observed_state'', PStr (lifecycle_value (observed_state g))),
      (''expected_state'', PStr (lifecycle_value (expected_state g))),
      (''missing_transition'', PStr (missing_transition g)),
      (''activation_intent'', PStr (intent_value (gap_intent g))),
      (''disposition'', PStr (disposition_value (gap_disposition g))),
      (''producer_ids'', py_strs (producer_ids g)), (''consumer_ids'', py_strs (consumer_ids g)),
      (''evidence_refs'', py_strs (gap_evidence_refs g)), (''reason'', PStr (gap_reason g)),
      (''recommended_action'', PStr (recommended_action g)),
      (''confidence'', confidence_view (gap_confidence g))]"

definition counts_view :: "(string, nat) dict \<Rightarrow> pyval" where
  "counts_view d = PDict (map (\<lambda>(k, n). (k, PInt (int n))) d)"

definition bridge_gap_projection_semantic_view :: "bridge_gap_projection \<Rightarrow> pyval" where
  "bridge_gap_projection_semantic_view p = PDict
     [(''schema_version'', PStr ''l9.bridge-gap-projection/v1''),
      (''source_packet_id'', PStr (source_packet_id p)),
      (''source_semantic_hash'', PStr (source_semantic_hash p)),
      (''policy_id'', PStr (bgp_policy_id p)), (''policy_version'', PStr (bgp_policy_version p)),
      (''policy_hash'', PStr (bgp_policy_hash p)), (''gaps'', PSeq (map gap_view (gaps p))),
      (''counts_by_type'', counts_view (counts_by_type p)),
      (''counts_by_disposition'', counts_view (counts_by_disposition p)),
      (''unknown_intent_count'', PInt (int (unknown_intent_count p)))]"

definition effective_intents ::
  "graph_record list \<Rightarrow> (ident, activation_intent) dict option \<Rightarrow>
   (ident, activation_intent) dict" where
  "effective_intents gs given =
     (let declared = declared_intents gs in
      case given of None \<Rightarrow> declared
      | Some d \<Rightarrow> fold (\<lambda>(k, i). dput k i) d declared)"

definition project_bridge_gaps ::
  "(string \<Rightarrow> string) \<Rightarrow> topology_state \<Rightarrow> ident \<Rightarrow> string \<Rightarrow>
   (ident, activation_intent) dict option \<Rightarrow> bridge_gap_projection" where
  "project_bridge_gaps sha s packet_id packet_hash given =
     (let ints = effective_intents (graph_records s) given;
          (incoming, outgoing) = edges_by_endpoint (edge_records s);
          cap_gaps = List.map_filter (capability_gap sha incoming outgoing ints)
            (sort_key cap_id (capability_records s));
          all_gaps = cap_gaps @ output_gaps sha s incoming ints (map gap_subject cap_gaps);
          ordered = sort_key (\<lambda>g. (gap_type_value (gap_type g), gap_subject g)) all_gaps;
          candidate =
            \<lparr>source_packet_id = packet_id, source_semantic_hash = packet_hash,
             bgp_policy_id = bridge_gap_policy_id, bgp_policy_version = bridge_gap_policy_version,
             bgp_policy_hash = bridge_gap_policy_hash sha, gaps = ordered,
             counts_by_type = counts (map (gap_type_value \<circ> gap_type) ordered),
             counts_by_disposition = counts (map (disposition_value \<circ> gap_disposition) ordered),
             unknown_intent_count = length (filter (\<lambda>g. gap_intent g = intent_unknown) ordered),
             bgp_semantic_hash = ''sha256:pending''\<rparr> in
      candidate\<lparr>bgp_semantic_hash :=
        semantic_hash sha (bridge_gap_projection_semantic_view candidate)\<rparr>)"

subsection \<open>Which gaps are reported\<close>

definition relation_into :: "topology_state \<Rightarrow> edge_type list \<Rightarrow> ident \<Rightarrow> bool" where
  "relation_into s tys x \<longleftrightarrow>
     list_ex (\<lambda>e. edge_type_of e \<in> set tys \<and> edge_target e = x) (edge_records s)"

definition relation_out_of :: "topology_state \<Rightarrow> edge_type list \<Rightarrow> ident \<Rightarrow> bool" where
  "relation_out_of s tys x \<longleftrightarrow>
     list_ex (\<lambda>e. edge_type_of e \<in> set tys \<and> edge_source e = x) (edge_records s)"

definition is_implemented :: "topology_state \<Rightarrow> capability_record \<Rightarrow> bool" where
  "is_implemented s c \<longleftrightarrow> implemented_by c \<noteq> [] \<or> relation_into s [IMPLEMENTS] (cap_id c)"

definition is_exposed :: "topology_state \<Rightarrow> capability_record \<Rightarrow> bool" where
  "is_exposed s c \<longleftrightarrow> exposed_by c \<noteq> [] \<or> relation_into s [EXPOSES, ROUTES_TO] (cap_id c) \<or>
     relation_out_of s [ROUTES_TO] (cap_id c)"

definition is_consumed :: "topology_state \<Rightarrow> ident \<Rightarrow> bool" where
  "is_consumed s x \<longleftrightarrow> relation_into s [CONSUMES] x"

lemma dget_default_map:
  "f [] = [] \<Longrightarrow> dget_default [] (map (\<lambda>(k, v). (k, f v)) d) k = f (dget_default [] d k)"
  by (simp add: dget_default_def map_of_map split: option.split)

lemma edges_by_lookup:
  "dget_default [] (edges_by f es) x = sort_key edge_id (filter (\<lambda>e. f e = x) es)"
  by (simp add: edges_by_def dget_default_map dget_group_by)

lemma of_type_incoming:
  "of_type (dget_default [] (edges_by edge_target (edge_records s)) x) tys \<noteq> [] \<longleftrightarrow>
     relation_into s tys x"
  by (auto simp: of_type_def edges_by_lookup relation_into_def filter_empty_conv list_ex_iff)

lemma of_type_outgoing:
  "of_type (dget_default [] (edges_by edge_source (edge_records s)) x) tys \<noteq> [] \<longleftrightarrow>
     relation_out_of s tys x"
  by (auto simp: of_type_def edges_by_lookup relation_out_of_def filter_empty_conv list_ex_iff)

definition capability_gap_type :: "topology_state \<Rightarrow> capability_record \<Rightarrow> bridge_gap_type option" where
  "capability_gap_type s c =
     (if is_consumed s (cap_id c) then None
      else if is_exposed s c then Some exposed_unconsumed
      else if is_implemented s c then Some built_unreachable
      else None)"

lemma gap_record_fields [simp]:
  "gap_subject (gap_record sha x k gt ob ex i ps cs ev r cf) = x"
  "gap_type (gap_record sha x k gt ob ex i ps cs ev r cf) = gt"
  "gap_intent (gap_record sha x k gt ob ex i ps cs ev r cf) = i"
  "gap_disposition (gap_record sha x k gt ob ex i ps cs ev r cf) = disposition_of i"
  by (simp_all add: gap_record_def)

lemma capability_gap_key:
  "map_option (\<lambda>g. (gap_type g, gap_subject g, gap_intent g, gap_disposition g))
     (capability_gap sha (edges_by edge_target (edge_records s))
        (edges_by edge_source (edge_records s)) ints c) =
   map_option (\<lambda>t. (t, cap_id c, intent_for (cap_id c) ints,
       disposition_of (intent_for (cap_id c) ints))) (capability_gap_type s c)"
  unfolding capability_gap_def Let_def capability_gap_type_def is_consumed_def is_exposed_def
    is_implemented_def of_type_incoming [symmetric] of_type_outgoing [symmetric]
  by simp

lemma output_gap_key:
  "map_option (\<lambda>g. (gap_type g, gap_subject g, gap_intent g, gap_disposition g))
     (output_gap sha caps (edges_by edge_target (edge_records s)) ints excluded x) =
   (if x \<in> set caps \<union> set excluded \<or> \<not> relation_into s [PRODUCES] x \<or> is_consumed s x then None
    else Some (orphan_output, x, intent_for x ints, disposition_of (intent_for x ints)))"
  unfolding output_gap_def Let_def is_consumed_def of_type_incoming [symmetric]
  by simp

text \<open>The kind, subject, intent and disposition of each reported gap.\<close>

definition gap_key ::
  "bridge_gap_record \<Rightarrow> bridge_gap_type \<times> ident \<times> activation_intent \<times> bridge_disposition" where
  "gap_key g = (gap_type g, gap_subject g, gap_intent g, gap_disposition g)"

lemmas gap_keys = capability_gap_key [folded gap_key_def] output_gap_key [folded gap_key_def]

lemma map_filter_keys:
  "(\<And>x. map_option h (f x) = k x) \<Longrightarrow>
     h ` set (List.map_filter f xs) = {y. \<exists>x \<in> set xs. k x = Some y}"
  by (auto simp: map_filter_set image_iff) (metis map_option_eq_Some)+

lemma guarded_image:
  "(\<And>x. \<not> P x \<Longrightarrow> x \<in> A) \<Longrightarrow>
     {y. \<exists>x \<in> A. (if P x then None else Some (F x)) = Some y} = {F x |x. \<not> P x}"
  by (auto split: if_splits)

lemma gaps_set:
  "set (gaps (project_bridge_gaps sha s pid ph given)) =
     (let ints = effective_intents (graph_records s) given;
          incoming = edges_by edge_target (edge_records s);
          cg = List.map_filter (capability_gap sha incoming (edges_by edge_source (edge_records s))
            ints) (sort_key cap_id (capability_records s)) in
      set cg \<union> set (output_gaps sha s incoming ints (map gap_subject cg)))"
  by (simp add: project_bridge_gaps_def Let_def edges_by_endpoint_def)

lemma keys_edges_by: "set (dkeys (edges_by f es)) = f ` set es"
proof -
  have "dkeys (edges_by f es) = dkeys (group_by f es)"
    by (simp add: edges_by_def comp_def split_def)
  then show ?thesis using keys_group_by [of f es] by simp
qed

definition expected_gap_keys ::
  "topology_state \<Rightarrow> (ident, activation_intent) dict \<Rightarrow>
   (bridge_gap_type \<times> ident \<times> activation_intent \<times> bridge_disposition) set" where
  "expected_gap_keys s ints =
     (\<lambda>(t, x). (t, x, intent_for x ints, disposition_of (intent_for x ints))) `
       ({(t, cap_id c) |t c. c \<in> set (capability_records s) \<and> capability_gap_type s c = Some t} \<union>
        {(orphan_output, x) |x. x \<notin> cap_id ` set (capability_records s) \<and>
           relation_into s [PRODUCES] x \<and> \<not> is_consumed s x})"

lemma gap_keys_exact:
  "gap_key ` set (gaps (project_bridge_gaps sha s pid ph given)) =
     expected_gap_keys s (effective_intents (graph_records s) given)"
proof -
  define ints where "ints = effective_intents (graph_records s) given"
  let ?in = "edges_by edge_target (edge_records s)"
  let ?out = "edges_by edge_source (edge_records s)"
  let ?full = "\<lambda>t x. (t, x, intent_for x ints, disposition_of (intent_for x ints))"
  define cg where "cg = List.map_filter (capability_gap sha ?in ?out ints)
    (sort_key cap_id (capability_records s))"
  have c: "gap_key ` set cg = {?full t (cap_id c) |t c.
      c \<in> set (capability_records s) \<and> capability_gap_type s c = Some t}"
    unfolding cg_def map_filter_keys [OF gap_keys(1)] by auto
  have sub: "gap_subject ` set cg \<subseteq> cap_id ` set (capability_records s)"
  proof
    fix x assume "x \<in> gap_subject ` set cg"
    then obtain g where "g \<in> set cg" "x = gap_subject g" by blast
    then have "gap_key g \<in> {?full t (cap_id c) |t c.
        c \<in> set (capability_records s) \<and> capability_gap_type s c = Some t}" "x = gap_subject g"
      unfolding c [symmetric] by blast+
    then show "x \<in> cap_id ` set (capability_records s)" by (auto simp: gap_key_def)
  qed
  have p: "relation_into s [PRODUCES] x \<Longrightarrow> x \<in> set (dkeys ?in)" for x
    unfolding keys_edges_by by (auto simp: relation_into_def list_ex_iff)
  have e: "set (map cap_id (capability_records s)) \<union> set (map gap_subject cg) =
      cap_id ` set (capability_records s)" using sub by auto
  have o: "gap_key ` set (output_gaps sha s ?in ints (map gap_subject cg)) =
      {?full orphan_output x |x. x \<notin> cap_id ` set (capability_records s) \<and>
         relation_into s [PRODUCES] x \<and> \<not> is_consumed s x}"
    unfolding output_gaps_def map_filter_keys [OF gap_keys(2)] set_sort e
    by (subst guarded_image) (use p in auto)
  have "gap_key ` set (gaps (project_bridge_gaps sha s pid ph given)) =
      gap_key ` set cg \<union> gap_key ` set (output_gaps sha s ?in ints (map gap_subject cg))"
    unfolding gaps_set Let_def ints_def [symmetric] cg_def [symmetric] by (rule image_Un)
  also have "\<dots> = expected_gap_keys s ints"
    unfolding c o expected_gap_keys_def by (auto simp: image_Un image_iff)
  finally show ?thesis unfolding ints_def .
qed

text \<open>
  C28: The gaps reported are exactly the missing transitions of the topology. A consumed
  capability has none; an unconsumed one is \<open>EXPOSED_UNCONSUMED\<close> when something exposes or
  routes to it, \<open>BUILT_UNREACHABLE\<close> when it is implemented but not exposed; and an entity that
  is no capability is an \<open>ORPHAN_OUTPUT\<close> when something produces and nothing consumes it.
\<close>
theorem bridge_gaps_exact:
  "(\<lambda>g. (gap_type g, gap_subject g)) ` set (gaps (project_bridge_gaps sha s pid ph given)) =
     {(exposed_unconsumed, cap_id c) |c. c \<in> set (capability_records s) \<and>
        is_exposed s c \<and> \<not> is_consumed s (cap_id c)} \<union>
     {(built_unreachable, cap_id c) |c. c \<in> set (capability_records s) \<and>
        is_implemented s c \<and> \<not> is_exposed s c \<and> \<not> is_consumed s (cap_id c)} \<union>
     {(orphan_output, x) |x. x \<notin> cap_id ` set (capability_records s) \<and>
        relation_into s [PRODUCES] x \<and> \<not> is_consumed s x}"
proof -
  have "(\<lambda>g. (gap_type g, gap_subject g)) ` set (gaps (project_bridge_gaps sha s pid ph given)) =
      (\<lambda>(t, x, _). (t, x)) ` expected_gap_keys s (effective_intents (graph_records s) given)"
    unfolding gap_keys_exact [of sha s pid ph given, symmetric] image_image
    by (simp add: gap_key_def)
  also have "\<dots> =
      {(t, cap_id c) |t c. c \<in> set (capability_records s) \<and> capability_gap_type s c = Some t} \<union>
      {(orphan_output, x) |x. x \<notin> cap_id ` set (capability_records s) \<and>
         relation_into s [PRODUCES] x \<and> \<not> is_consumed s x}"
    unfolding expected_gap_keys_def image_image by (simp add: split_def)
  also have "{(t, cap_id c) |t c. c \<in> set (capability_records s) \<and> capability_gap_type s c = Some t} =
      {(exposed_unconsumed, cap_id c) |c. c \<in> set (capability_records s) \<and>
        is_exposed s c \<and> \<not> is_consumed s (cap_id c)} \<union>
      {(built_unreachable, cap_id c) |c. c \<in> set (capability_records s) \<and>
        is_implemented s c \<and> \<not> is_exposed s c \<and> \<not> is_consumed s (cap_id c)}"
    by (auto simp: capability_gap_type_def)
  finally show ?thesis .
qed

lemma counts_sum: "sum_list (dvalues (counts xs)) = length xs"
proof -
  have "sum_list (map (count_list xs) (usort xs)) = (\<Sum>x \<in> set (usort xs). count_list xs x)"
    by (rule sum_list_distinct_conv_sum_set) simp
  also have "\<dots> = length xs" by (simp add: sum_count_set)
  finally show ?thesis by (simp add: counts_def comp_def)
qed

lemma declared_intents_lookup:
  "dget (declared_intents gs) x =
     map_option (the \<circ> node_intent)
       (find (\<lambda>g. g_record_type g = rt_node \<and> node_intent g \<noteq> None \<and> g_entity_id g = x) (rev gs))"
  by (induction gs rule: rev_induct)
    (auto simp: declared_intents_def update_conv' find_snoc split: option.split)

text \<open>
  A reported gap never decides activation by itself. Its intent is the operator's explicit
  value for the subject, else the last supported \<open>activation_intent\<close> a node declares for it, else
  unknown; it asks for action only where the intent is \<open>REQUIRED\<close>, and for a decision exactly
  where it is unknown; and the totals by type and by disposition both add up to the gaps.
\<close>
theorem bridge_gap_intents:
  "list_all (\<lambda>g. gap_intent g =
        (case (case given of Some d \<Rightarrow> find (\<lambda>p. fst p = gap_subject g) (rev d) | None \<Rightarrow> None) of
           Some p \<Rightarrow> snd p
         | None \<Rightarrow> (case find (\<lambda>n. g_record_type n = rt_node \<and> node_intent n \<noteq> None \<and>
                        g_entity_id n = gap_subject g) (rev (graph_records s)) of
              Some n \<Rightarrow> the (node_intent n)
            | None \<Rightarrow> intent_unknown)) \<and>
      (gap_disposition g = action_required \<longleftrightarrow> gap_intent g = intent_required) \<and>
      (gap_disposition g = decision_required \<longleftrightarrow> gap_intent g = intent_unknown))
     (gaps (project_bridge_gaps sha s pid ph given)) \<and>
   sum_list (dvalues (counts_by_type (project_bridge_gaps sha s pid ph given))) =
     length (gaps (project_bridge_gaps sha s pid ph given)) \<and>
   sum_list (dvalues (counts_by_disposition (project_bridge_gaps sha s pid ph given))) =
     length (gaps (project_bridge_gaps sha s pid ph given))"
proof (intro conjI)
  show "sum_list (dvalues (counts_by_type (project_bridge_gaps sha s pid ph given))) =
     length (gaps (project_bridge_gaps sha s pid ph given))"
    by (simp add: project_bridge_gaps_def Let_def edges_by_endpoint_def counts_sum)
  show "sum_list (dvalues (counts_by_disposition (project_bridge_gaps sha s pid ph given))) =
     length (gaps (project_bridge_gaps sha s pid ph given))"
    by (simp add: project_bridge_gaps_def Let_def edges_by_endpoint_def counts_sum)
  define ints where "ints = effective_intents (graph_records s) given"
  have key: "gap_intent g = intent_for (gap_subject g) ints \<and>
      gap_disposition g = disposition_of (gap_intent g)"
    if "g \<in> set (gaps (project_bridge_gaps sha s pid ph given))" for g
  proof -
    have "gap_key g \<in> expected_gap_keys s ints"
      using that gap_keys_exact unfolding ints_def by blast
    then show ?thesis by (auto simp: expected_gap_keys_def gap_key_def)
  qed
  have intent: "intent_for x ints =
      (case (case given of Some d \<Rightarrow> find (\<lambda>p. fst p = x) (rev d) | None \<Rightarrow> None) of
           Some p \<Rightarrow> snd p
         | None \<Rightarrow> (case find (\<lambda>n. g_record_type n = rt_node \<and> node_intent n \<noteq> None \<and>
                        g_entity_id n = x) (rev (graph_records s)) of
              Some n \<Rightarrow> the (node_intent n)
            | None \<Rightarrow> intent_unknown))" for x
  proof (cases given)
    case None
    then show ?thesis
      by (simp add: ints_def effective_intents_def Let_def intent_for_def dget_default_def
          declared_intents_lookup split: option.split)
  next
    case (Some d)
    have "dget (fold (\<lambda>(k, i). dput k i) d (declared_intents (graph_records s))) x =
        (case find (\<lambda>p. fst p = x) (rev d) of Some p \<Rightarrow> Some (snd p)
         | None \<Rightarrow> dget (declared_intents (graph_records s)) x)"
      using dict.lookup_fill [of "fst" "snd" d "declared_intents (graph_records s)" x]
      by (simp add: split_def)
    with Some show ?thesis
      by (simp add: ints_def effective_intents_def Let_def intent_for_def dget_default_def
          declared_intents_lookup split: option.split)
  qed
  have dispo: "(disposition_of i = action_required \<longleftrightarrow> i = intent_required) \<and>
      (disposition_of i = decision_required \<longleftrightarrow> i = intent_unknown)" for i
    by (cases i) simp_all
  show "list_all (\<lambda>g. gap_intent g =
        (case (case given of Some d \<Rightarrow> find (\<lambda>p. fst p = gap_subject g) (rev d) | None \<Rightarrow> None) of
           Some p \<Rightarrow> snd p
         | None \<Rightarrow> (case find (\<lambda>n. g_record_type n = rt_node \<and> node_intent n \<noteq> None \<and>
                        g_entity_id n = gap_subject g) (rev (graph_records s)) of
              Some n \<Rightarrow> the (node_intent n)
            | None \<Rightarrow> intent_unknown)) \<and>
      (gap_disposition g = action_required \<longleftrightarrow> gap_intent g = intent_required) \<and>
      (gap_disposition g = decision_required \<longleftrightarrow> gap_intent g = intent_unknown))
     (gaps (project_bridge_gaps sha s pid ph given))"
    unfolding list_all_iff intent [symmetric] using key dispo by metis
qed

end
