(* ===== verification/PacketEvidence.thy ===== *)
theory PacketEvidence
  imports ReconcileAssertions Packets
begin

text \<open>
  Evidence built where a packet enters the compiler: for the assertions of a Repository Model
  Packet (\<open>packets/assertion_evidence.py\<close>), for the work signals of a Corpus Intelligence Packet
  (\<open>packets/document_signal_evidence.py\<close>), and for its duplicates, roots and corpus
  (\<open>packets/corpus_evidence.py\<close>). A source reference whose validator raises is \<open>Inl\<close>; \<open>now\<close>, the
  clock of \<open>make_evidence_record\<close>, is never read here.
\<close>

definition evidence_created_at :: string where
  "evidence_created_at = ''1970-01-01T00:00:00+00:00''"

text \<open>A tuple whose generator may raise: the first error, or all the values.\<close>

fun collect :: "('e + 'a) list \<Rightarrow> 'e + 'a list" where
  "collect [] = Inr []"
| "collect (Inl e # rs) = Inl e"
| "collect (Inr x # rs) = (case collect rs of Inl e \<Rightarrow> Inl e | Inr xs \<Rightarrow> Inr (x # xs))"

lemma collect_map: "collect (map f xs) = Inr ys \<longleftrightarrow> list_all2 (\<lambda>x y. f x = Inr y) xs ys"
proof (induction xs arbitrary: ys)
  case (Cons x xs)
  show ?case
    by (cases "f x"; cases ys; cases "collect (map f xs)") (simp_all add: Cons.IH [symmetric])
qed auto

subsection \<open>Assertions\<close>

definition assertion_confidence :: "repository_assertion \<Rightarrow> confidence_assessment" where
  "assertion_confidence a =
     \<lparr>level = named_level (as_confidence a), evidence_strength = strength_direct,
      derivation_method = named_derivation (evidence_class_value (as_evidence_class a)),
      conf_authority = named_authority (as_authority a), completeness = comp_sufficient,
      conf_conflict_status = conflict_none\<rparr>"

definition assertion_evidence_value :: "repository_assertion \<Rightarrow> pyval" where
  "assertion_evidence_value a = PDict
     [(''assertion_id'', PStr (as_id a)), (''predicate'', PStr (as_predicate a)),
      (''object'', PStr (as_object a)), (''evidence_excerpt'', PStr (as_excerpt a)),
      (''extractor_id'', PStr (as_extractor a)),
      (''source_range'', PDict [(''start_line'', PInt (as_start_line a)),
         (''end_line'', PInt (as_end_line a))]),
      (''declared_authority'', PStr (as_authority a)),
      (''declared_confidence'', PStr (as_confidence a))]"

definition assertion_source_ref ::
  "repository_packet \<Rightarrow> repository_assertion \<Rightarrow> source_ref_error + evidence_source_ref" where
  "assertion_source_ref p a = make_source_ref
     \<lparr>uri = None, source_path = Some (as_source_path a), line_number = Some (as_start_line a),
      content_hash = Some (as_content_hash a), ref_packet_id = Some (rp_id p),
      ref_source_revision = Some (snapshot_revision (rp_snapshot p)), locator = None\<rparr>"

definition assertion_evidence_record ::
  "(string \<Rightarrow> string) \<Rightarrow> repository_packet \<Rightarrow> repository_assertion \<Rightarrow>
   source_ref_error + evidence_record" where
  "assertion_evidence_record sha p a = map_sum id (\<lambda>ref.
     make_evidence_record sha [] (as_subject a) (Some (as_predicate a)) assertion_evidence_stage
       (as_evidence_class a) type_file ref (assertion_evidence_value a) (assertion_confidence a)
       (producer_name (rp_producer p)) (producer_build (rp_producer p)) (Some evidence_created_at))
     (assertion_source_ref p a)"

definition packet_assertions :: "repository_packet \<Rightarrow> repository_assertion list" where
  "packet_assertions p = (case rp_payload p of
       None \<Rightarrow> [] | Some l \<Rightarrow> (case pl_assertions l of None \<Rightarrow> [] | Some as \<Rightarrow> as))"

definition assertion_evidence_records ::
  "(string \<Rightarrow> string) \<Rightarrow> repository_packet \<Rightarrow> source_ref_error + evidence_record list" where
  "assertion_evidence_records sha p =
     collect (map (assertion_evidence_record sha p) (packet_assertions p))"

definition assertion_semantic_input :: "repository_assertion \<Rightarrow> semantic_input" where
  "assertion_semantic_input a =
     \<lparr>input_id = as_id a, in_subject = as_subject a, in_predicate = as_predicate a,
      in_object = as_object a, in_authority = as_authority a, in_confidence = as_confidence a,
      in_evidence_class = evidence_class_value (as_evidence_class a),
      origin = ''repository-model''\<rparr>"

subsection \<open>Document work signals\<close>

definition signal_confidence :: "document_work_signal \<Rightarrow> confidence_assessment" where
  "signal_confidence s =
     \<lparr>level = named_level (sg_confidence s), evidence_strength = strength_direct,
      derivation_method = named_derivation (evidence_class_value (sg_evidence_class s)),
      conf_authority = named_authority (sg_authority s), completeness = comp_sufficient,
      conf_conflict_status = conflict_none\<rparr>"

text \<open>\<open>model_dump(mode="json")\<close> of a locator: a plain dictionary.\<close>

fun dumped :: "pyval \<Rightarrow> pyval" where
  "dumped (PModel kvs) = PDict kvs"
| "dumped v = v"

definition signal_evidence_value :: "document_work_signal \<Rightarrow> pyval" where
  "signal_evidence_value s = PDict
     [(''assertion_id'', PStr (sg_id s)), (''predicate'', PStr (sg_predicate s)),
      (''object'', PStr (sg_object s)), (''evidence_excerpt'', PStr (sg_excerpt s)),
      (''extractor_id'', PStr (sg_extractor s)), (''decoder_id'', PStr (sg_decoder s)),
      (''decoder_version'', PStr (sg_decoder_version s)),
      (''document_format'', PStr (sg_format s)), (''artifact_id'', PStr (sg_artifact s)),
      (''locator'', dumped (py_locator (sg_locator s))),
      (''declared_authority'', PStr (sg_authority s)),
      (''declared_confidence'', PStr (sg_confidence s))]"

definition signal_source_ref ::
  "corpus_packet \<Rightarrow> document_work_signal \<Rightarrow> source_ref_error + evidence_source_ref" where
  "signal_source_ref p s = make_source_ref
     \<lparr>uri = None, source_path = Some (sg_source_path s),
      line_number = (case sg_locator s of LineLocator a b \<Rightarrow> Some a | _ \<Rightarrow> None),
      content_hash = Some (sg_content_hash s), ref_packet_id = Some (cp_id p),
      ref_source_revision = None, locator = Some (sg_locator s)\<rparr>"

definition signal_evidence_record ::
  "(string \<Rightarrow> string) \<Rightarrow> corpus_packet \<Rightarrow> document_work_signal \<Rightarrow> source_ref_error + evidence_record" where
  "signal_evidence_record sha p s = map_sum id (\<lambda>ref.
     make_evidence_record sha [] (sg_subject s) (Some (sg_predicate s))
       document_signal_evidence_stage (sg_evidence_class s) type_file ref
       (signal_evidence_value s) (signal_confidence s) (producer_name (cp_producer p))
       (producer_build (cp_producer p)) (Some evidence_created_at))
     (signal_source_ref p s)"

definition packet_signals :: "corpus_packet \<Rightarrow> document_work_signal list" where
  "packet_signals p = (case cp_payload p of None \<Rightarrow> [] | Some l \<Rightarrow> work_signals l)"

definition signal_evidence_records ::
  "(string \<Rightarrow> string) \<Rightarrow> corpus_packet \<Rightarrow> source_ref_error + evidence_record list" where
  "signal_evidence_records sha p = collect (map (signal_evidence_record sha p) (packet_signals p))"

definition signal_semantic_input :: "document_work_signal \<Rightarrow> semantic_input" where
  "signal_semantic_input s =
     \<lparr>input_id = sg_id s, in_subject = sg_subject s, in_predicate = sg_predicate s,
      in_object = sg_object s, in_authority = sg_authority s, in_confidence = sg_confidence s,
      in_evidence_class = evidence_class_value (sg_evidence_class s),
      origin = ''corpus-document-signal''\<rparr>"

subsection \<open>Duplicates, roots and corpora\<close>

definition packet_duplicates :: "corpus_packet \<Rightarrow> exact_duplicate_relation list" where
  "packet_duplicates p = (case cp_payload p of None \<Rightarrow> [] | Some l \<Rightarrow> duplicate_relations l)"

definition bare_source_ref :: "ident \<Rightarrow> evidence_source_ref" where
  "bare_source_ref i =
     \<lparr>uri = None, source_path = None, line_number = None, content_hash = None,
      ref_packet_id = Some i, ref_source_revision = None, locator = None\<rparr>"

definition packet_evidence ::
  "(string \<Rightarrow> string) \<Rightarrow> corpus_packet \<Rightarrow> ident \<Rightarrow> string \<Rightarrow> string \<Rightarrow> evidence_class \<Rightarrow>
   evidence_source_ref \<Rightarrow> pyval \<Rightarrow> confidence_assessment \<Rightarrow> evidence_record" where
  "packet_evidence sha p subject fld stg cls ref val conf =
     make_evidence_record sha [] subject (Some fld) stg cls type_packet ref val conf
       (producer_name (cp_producer p)) (producer_build (cp_producer p)) (Some evidence_created_at)"

definition duplicate_evidence_record ::
  "(string \<Rightarrow> string) \<Rightarrow> corpus_packet \<Rightarrow> exact_duplicate_relation \<Rightarrow> evidence_record" where
  "duplicate_evidence_record sha p r = (case canonical_pair (artifact_a r) (artifact_b r) of (x, y) \<Rightarrow>
     packet_evidence sha p (duplicate_cluster_id r) ''artifact_ids'' ''ingest_exact_duplicates''
       class_observed ((bare_source_ref (cp_id p))\<lparr>content_hash := Some (dup_content_hash r)\<rparr>)
       (PDict [(''duplicate_cluster_id'', PStr (duplicate_cluster_id r)),
          (''artifact_a_id'', PStr x), (''artifact_b_id'', PStr y),
          (''content_hash'', PStr (dup_content_hash r)),
          (''method'', PStr exact_duplicate_method)])
       duplicate_confidence)"

definition duplicate_evidence_records ::
  "(string \<Rightarrow> string) \<Rightarrow> corpus_packet \<Rightarrow> evidence_record list" where
  "duplicate_evidence_records sha p =
     sort_key evidence_id (dvalues (index_by evidence_id
       (map (duplicate_evidence_record sha p) (packet_duplicates p))))"

definition evidenced_pair :: "evidence_record \<Rightarrow> (string \<times> string) option" where
  "evidenced_pair r = (case mapping_of (ev_value r) of
       None \<Rightarrow> None
     | Some d \<Rightarrow> (case (dget d ''artifact_a_id'', dget d ''artifact_b_id'') of
           (Some (PStr x), Some (PStr y)) \<Rightarrow> Some (x, y) | _ \<Rightarrow> None))"

definition duplicate_evidence_by_relation ::
  "(string \<Rightarrow> string) \<Rightarrow> corpus_packet \<Rightarrow> (ident, ident list) dict" where
  "duplicate_evidence_by_relation sha p =
     (let by_pair = fold (\<lambda>r d. case evidenced_pair r of
              None \<Rightarrow> d | Some q \<Rightarrow> dput q (evidence_id r) d) (duplicate_evidence_records sha p) [] in
      fold (\<lambda>r d. case dget by_pair (canonical_pair (artifact_a r) (artifact_b r)) of
          None \<Rightarrow> d | Some i \<Rightarrow> dput (relation_id r) [i] d) (packet_duplicates p) [])"

definition py_coverage :: "corpus_coverage \<Rightarrow> pyval" where
  "py_coverage c = PDict (map (\<lambda>(k, n). (k, PInt (int n)))
     [(''root_count_requested'', cov_roots_requested c),
      (''root_count_observed'', cov_roots_observed c), (''root_count_failed'', cov_roots_failed c),
      (''artifact_count'', cov_artifacts c), (''archive_count'', cov_archives c),
      (''archive_member_count'', cov_archive_members c),
      (''decoder_eligible_count'', cov_decoder_eligible c),
      (''normalized_document_count'', cov_normalized_documents c),
      (''interpreted_artifact_count'', cov_interpreted_artifacts c),
      (''unsupported_format_count'', cov_unsupported_formats c),
      (''coverage_gap_count'', cov_gaps c)])"

definition corpus_scope_stage :: string where
  "corpus_scope_stage = ''ingest_corpus_scope''"

definition corpus_descriptor_evidence ::
  "(string \<Rightarrow> string) \<Rightarrow> corpus_packet \<Rightarrow> evidence_record" where
  "corpus_descriptor_evidence sha p =
     (let d = cp_corpus p in
      packet_evidence sha p (desc_corpus_id d) ''corpus_source_snapshot_id'' corpus_scope_stage
        class_declared (bare_source_ref (cp_id p))
        (PDict [(''corpus_source_snapshot_id'', PStr (desc_snapshot_id d)),
           (''corpus_analysis_id'', PStr (desc_analysis_id d)),
           (''root_ids'', PSeq (map PStr (sort (map root_ref_id (desc_roots d))))),
           (''coverage'', py_coverage (desc_coverage d))])
        corpus_confidence)"

definition root_evidence ::
  "(string \<Rightarrow> string) \<Rightarrow> corpus_packet \<Rightarrow> corpus_root_ref \<Rightarrow> evidence_record" where
  "root_evidence sha p r =
     packet_evidence sha p (root_ref_id r) ''repository_model_packet_id'' corpus_scope_stage
       (if root_ref_class r = root_declared then class_declared else class_observed)
       ((bare_source_ref (pr_packet_id (root_ref_packet r)))
          \<lparr>ref_source_revision := (if root_ref_revision r = [] then None else Some (root_ref_revision r))\<rparr>)
       (PDict [(''identity_class'', PStr (root_class_value (root_ref_class r))),
          (''repository_model_packet_id'', PStr (pr_packet_id (root_ref_packet r))),
          (''repository_model_semantic_hash'', PStr (pr_semantic_hash (root_ref_packet r))),
          (''repository_id'', py_opt PStr (root_ref_repository r)),
          (''source_revision'', PStr (root_ref_revision r))])
       (root_confidence (root_ref_class r))"

definition corpus_scope_evidence_records ::
  "(string \<Rightarrow> string) \<Rightarrow> corpus_packet \<Rightarrow> evidence_record list" where
  "corpus_scope_evidence_records sha p =
     sort_key evidence_id
       (corpus_descriptor_evidence sha p # map (root_evidence sha p) (desc_roots (cp_corpus p)))"

definition corpus_evidence_by_subject ::
  "(string \<Rightarrow> string) \<Rightarrow> corpus_packet list \<Rightarrow> (ident, ident list) dict" where
  "corpus_evidence_by_subject sha ps =
     map (\<lambda>(k, v). (k, usort v))
       (sort_key fst (group_map ev_subject_id evidence_id
         (concat (map (corpus_scope_evidence_records sha) ps))))"

subsection \<open>Every statement is evidenced\<close>

lemma assertion_id_of_assertion:
  assumes "assertion_evidence_record sha p a = Inr r"
  shows "assertion_id_of r = Some (as_id a)" and "ev_subject_id r = as_subject a"
  using assms
  by (auto simp: assertion_evidence_record_def make_evidence_record_def assertion_id_of_def
      assertion_evidence_value_def map_sum_def split: sum.splits)

lemma assertion_id_of_signal:
  assumes "signal_evidence_record sha p s = Inr r"
  shows "assertion_id_of r = Some (sg_id s)" and "ev_subject_id r = sg_subject s"
  using assms
  by (auto simp: signal_evidence_record_def make_evidence_record_def assertion_id_of_def
      signal_evidence_value_def map_sum_def split: sum.splits)

text \<open>The evidence of every statement of a packet names the statement, on its own subject.\<close>

lemma assertion_evidence_complete:
  assumes "assertion_evidence_records sha p = Inr rs"
  shows "map (\<lambda>r. (ev_subject_id r, assertion_id_of r)) rs =
    map (\<lambda>a. (as_subject a, Some (as_id a))) (packet_assertions p)"
proof -
  have "list_all2 (\<lambda>a r. assertion_evidence_record sha p a = Inr r) (packet_assertions p) rs"
    using assms by (simp add: assertion_evidence_records_def collect_map)
  then show ?thesis
    by (induction rule: list_all2_induct) (auto simp: assertion_id_of_assertion)
qed

lemma signal_evidence_complete:
  assumes "signal_evidence_records sha p = Inr rs"
  shows "map (\<lambda>r. (ev_subject_id r, assertion_id_of r)) rs =
    map (\<lambda>s. (sg_subject s, Some (sg_id s))) (packet_signals p)"
proof -
  have "list_all2 (\<lambda>s r. signal_evidence_record sha p s = Inr r) (packet_signals p) rs"
    using assms by (simp add: signal_evidence_records_def collect_map)
  then show ?thesis
    by (induction rule: list_all2_induct) (auto simp: assertion_id_of_signal)
qed

end
