(* ===== verification/Payloads.thy ===== *)
theory Payloads
  imports Packets
begin

text \<open>
  What is hashed: the JSON views of the canonical records, the payload bytes and hashes of a
  topology (\<open>packets/payloads.py\<close>), and the semantic view of a Repository Model Packet
  (\<open>packets/validator.py\<close>). A view lists the fields of the model under their names; the order
  does not matter, since canonical data is sorted. The JSON text of a double is the parameter
  \<open>num\<close>.
\<close>

subsection \<open>Views of the records\<close>

definition strs :: "string list \<Rightarrow> pyval" where
  "strs xs = PSeq (map PStr xs)"

definition repository_view :: "repository_record \<Rightarrow> pyval" where
  "repository_view r = PModel
     [(''repository_id'', PStr (repo_id r)), (''name'', PStr (repo_name r)),
      (''source_revision'', PStr (repo_source_revision r)), (''packet_ref'', PStr (repo_packet_ref r)),
      (''primary_role'', PStr (primary_role r)), (''secondary_roles'', strs (secondary_roles r)),
      (''languages'', strs (languages r)), (''package_managers'', strs (package_managers r)),
      (''entrypoints'', strs (entrypoints r)), (''workflows'', strs (workflows r)),
      (''adr_refs'', strs (adr_refs r)), (''governance_refs'', strs (governance_refs r)),
      (''capability_ids'', strs (repo_capability_ids r)),
      (''artifact_ids'', strs (repo_artifact_ids r)),
      (''upstream_repository_ids'', strs (upstream_ids r)),
      (''downstream_repository_ids'', strs (downstream_ids r)),
      (''unresolved_dependencies'', strs (unresolved_dependencies r)),
      (''owner_ids'', strs (owner_ids r)), (''evidence_refs'', strs (repo_evidence_refs r)),
      (''confidence'', confidence_view (repo_confidence r))]"

definition artifact_view :: "artifact_record \<Rightarrow> pyval" where
  "artifact_view a = PModel
     [(''artifact_id'', PStr (art_id a)), (''repository_id'', PStr (art_repository_id a)),
      (''source_path'', PStr (art_source_path a)), (''artifact_type'', PStr (art_type a)),
      (''family'', py_opt PStr (art_family a)), (''content_hash'', PStr (art_content_hash a)),
      (''body_hash'', py_opt PStr (art_body_hash a)), (''capabilities'', strs (art_capabilities a)),
      (''dependencies'', strs (art_dependencies a)), (''evidence_refs'', strs (art_evidence_refs a)),
      (''packet_ref'', PStr (art_packet_ref a)), (''confidence'', confidence_view (art_confidence a))]"

definition capability_view :: "capability_record \<Rightarrow> pyval" where
  "capability_view c = PModel
     [(''capability_id'', PStr (cap_id c)), (''name'', PStr (cap_name c)),
      (''description'', PStr (cap_description c)), (''implemented_by'', strs (implemented_by c)),
      (''exposed_by'', strs (exposed_by c)), (''validated_by'', strs (validated_by c)),
      (''governed_by'', strs (governed_by c)), (''evidence_refs'', strs (cap_evidence_refs c)),
      (''confidence'', confidence_view (cap_confidence c))]"

definition edge_view :: "edge_record \<Rightarrow> pyval" where
  "edge_view e = PModel
     [(''edge_id'', PStr (edge_id e)), (''source_id'', PStr (edge_source e)),
      (''target_id'', PStr (edge_target e)), (''edge_type'', PStr (edge_type_value (edge_type_of e))),
      (''direction'', PStr (direction_value (edge_direction e))),
      (''properties'', PDict (edge_properties e)), (''evidence_refs'', strs (edge_evidence_refs e)),
      (''confidence'', confidence_view (edge_confidence e))]"

definition graph_view :: "graph_record \<Rightarrow> pyval" where
  "graph_view g = PModel
     [(''record_type'', PStr (case g_record_type g of rt_node \<Rightarrow> ''node'' | rt_edge \<Rightarrow> ''edge'')),
      (''label'', PStr (g_label g)), (''entity_id'', PStr (g_entity_id g)),
      (''properties'', PDict (g_properties g)), (''evidence_refs'', strs (g_evidence_refs g)),
      (''confidence'', confidence_view (g_confidence g))]"

definition flow_view :: "flow_record \<Rightarrow> pyval" where
  "flow_view f = PModel
     [(''flow_id'', PStr (flow_id f)), (''name'', PStr (flow_name f)),
      (''source_id'', PStr (flow_source f)), (''target_id'', PStr (flow_target f)),
      (''flow_type'', PStr (flow_type f)), (''packet_type'', py_opt PStr (flow_packet_type f)),
      (''description'', PStr (flow_description f)), (''stage_sequence'', strs (stage_sequence f)),
      (''evidence_refs'', strs (flow_evidence_refs f)),
      (''confidence'', confidence_view (flow_confidence f))]"

definition claim_view :: "semantic_claim \<Rightarrow> pyval" where
  "claim_view c = PModel
     [(''claim_id'', PStr (claim_id c)), (''subject_id'', PStr (claim_subject c)),
      (''predicate'', PStr (claim_predicate c)), (''object'', PStr (claim_object c)),
      (''source_assertion_ids'', strs (source_assertion_ids c)),
      (''evidence_refs'', strs (claim_evidence_refs c)),
      (''confidence'', confidence_view (claim_confidence c)),
      (''authority'', PStr (authority_value (claim_authority c))),
      (''cardinality'', PStr (case claim_cardinality c of
         card_single \<Rightarrow> ''single'' | card_set \<Rightarrow> ''set'' | card_unknown \<Rightarrow> ''unknown'')),
      (''support'', PStr (case claim_support c of
         support_set \<Rightarrow> ''set'' | support_single \<Rightarrow> ''single'' | support_auxiliary \<Rightarrow> ''auxiliary''
       | support_unsupported \<Rightarrow> ''unsupported'')),
      (''conflict_status'', PStr (conflict_status_value (claim_conflict_status c))),
      (''conflict_ids'', strs (conflict_ids c)), (''projected'', PBool (projected c)),
      (''projected_entity_ids'', strs (projected_entity_ids c))]"

definition risk_view :: "risk_record \<Rightarrow> pyval" where
  "risk_view r = PModel
     [(''risk_id'', PStr (risk_id r)), (''subject_id'', PStr (risk_subject r)),
      (''severity'', PStr (case severity r of
         sev_low \<Rightarrow> ''low'' | sev_medium \<Rightarrow> ''medium'' | sev_high \<Rightarrow> ''high'' | sev_critical \<Rightarrow> ''critical'')),
      (''category'', PStr (risk_category r)), (''description'', PStr (risk_description r)),
      (''rule_id'', PStr (risk_rule_id r)), (''rule_version'', PStr (risk_rule_version r)),
      (''evidence_refs'', strs (risk_evidence_refs r)), (''remediation'', py_opt PStr (remediation r)),
      (''status'', PStr (case risk_status r of risk_open \<Rightarrow> ''open'' | risk_accepted \<Rightarrow> ''accepted''
         | risk_mitigated \<Rightarrow> ''mitigated'' | risk_resolved \<Rightarrow> ''resolved''))]"

definition maturity_view :: "maturity_assessment \<Rightarrow> pyval" where
  "maturity_view m = PModel
     [(''subject_id'', PStr (mat_subject m)), (''profile_id'', PStr (mat_profile_id m)),
      (''profile_version'', PStr (mat_profile_version m)), (''score'', PInt (mat_score m)),
      (''maximum_score'', PInt (mat_maximum m)), (''band'', PStr (mat_band m)),
      (''dimensions'', PDict (map (\<lambda>(k, n). (k, PInt n)) (mat_dimensions m))),
      (''evidence_refs'', strs (mat_evidence_refs m))]"

definition impact_view :: "impact_index \<Rightarrow> pyval" where
  "impact_view i = PModel
     [(''subject_id'', PStr (imp_subject i)),
      (''direction'', PStr (case imp_direction i of
         upstream \<Rightarrow> ''upstream'' | downstream \<Rightarrow> ''downstream'' | both \<Rightarrow> ''both'')),
      (''maximum_depth'', PInt (imp_maximum_depth i)),
      (''affected_entity_ids'', strs (affected_entity_ids i)),
      (''paths'', PSeq (map strs (imp_paths i))),
      (''unresolved_edge_ids'', strs (unresolved_edge_ids i)),
      (''affected_repository_ids'', strs (affected_repository_ids i)),
      (''affected_capability_ids'', strs (affected_capability_ids i))]"

definition corpus_view :: "corpus_record \<Rightarrow> pyval" where
  "corpus_view c = PModel
     [(''corpus_id'', PStr (corpus_id c)),
      (''corpus_source_snapshot_id'', PStr (corpus_snapshot_id c)),
      (''corpus_analysis_id'', PStr (corpus_analysis_id c)), (''root_ids'', strs (corpus_root_ids c)),
      (''coverage_ref'', py_opt PStr (coverage_ref c)),
      (''evidence_refs'', strs (corpus_evidence_refs c)),
      (''confidence'', confidence_view (corpus_conf c))]"

definition root_view :: "root_record \<Rightarrow> pyval" where
  "root_view r = PModel
     [(''root_id'', PStr (root_id r)), (''identity_class'', PStr (root_class_value (root_class r))),
      (''source_revision'', PStr (root_revision r)),
      (''repository_model_packet_id'', PStr (root_packet_id r)),
      (''repository_id'', py_opt PStr (root_repository r)),
      (''evidence_refs'', strs (root_evidence_refs r)), (''confidence'', confidence_view (root_conf r))]"

definition candidate_relation_view :: "(score \<Rightarrow> pyval) \<Rightarrow> candidate_relation \<Rightarrow> pyval" where
  "candidate_relation_view num r = PModel
     [(''relation_id'', PStr (crel_id r)), (''source_artifact_id'', PStr (crel_source r)),
      (''target_artifact_id'', PStr (crel_target r)), (''methods'', strs (crel_methods r)),
      (''method_scores'', PSeq (map (\<lambda>(m, s). PModel [(''method'', PStr m), (''score'', num s)])
         (crel_scores r))),
      (''evidence_refs'', strs (crel_evidence_refs r)),
      (''confidence_class'', PStr (confidence_class_value (crel_class r))),
      (''analysis_profile'', PStr (crel_profile r)),
      (''upstream_candidate_id'', py_opt PStr (crel_upstream r)),
      (''confidence'', confidence_view (crel_conf r))]"

definition counts_view :: "(string, nat) dict \<Rightarrow> pyval" where
  "counts_view d = PDict (map (\<lambda>(k, n). (k, PInt (int n))) d)"

definition structure_view :: "structural_evidence \<Rightarrow> pyval" where
  "structure_view e = PModel
     (map (\<lambda>(k, n). (k, PInt (int n)))
        [(''member_count'', member_count e), (''repository_count'', repository_count e),
         (''root_count'', root_count e), (''archive_member_count'', archive_member_count e),
         (''internal_exact_duplicate_count'', internal_duplicates e),
         (''internal_explicit_reference_count'', internal_references e),
         (''internal_dependency_count'', internal_dependencies e),
         (''internal_supersession_count'', internal_supersessions e),
         (''blocker_count'', blocker_count e),
         (''conflicting_status_count'', conflicting_status_count e),
         (''capability_count'', capability_count e),
         (''external_dependency_count'', external_dependency_count e)] @
      [(''work_status_distribution'', counts_view (status_distribution e)),
       (''work_kind_distribution'', counts_view (kind_distribution e))])"

definition cluster_view :: "cluster_record \<Rightarrow> pyval" where
  "cluster_view c = PModel
     [(''candidate_id'', PStr (cl_id c)), (''candidate_type'', PStr (candidate_type_value (cl_type c))),
      (''member_entity_ids'', strs (cl_members c)), (''supporting_relation_ids'', strs (cl_relations c)),
      (''evidence_refs'', strs (cl_evidence_refs c)),
      (''confidence_class'', PStr (confidence_class_value (cl_class c))),
      (''ambiguity_flags'', strs (cl_flags c)), (''cross_root'', PBool (cl_cross_root c)),
      (''cross_archive'', PBool (cl_cross_archive c)), (''analysis_profile'', PStr (cl_profile c)),
      (''upstream_candidate_id'', py_opt PStr (cl_upstream c)),
      (''structural_evidence'', structure_view (cl_structure c)),
      (''readiness_evidence_ref'', py_opt PStr (cl_readiness c)),
      (''confidence'', confidence_view (cl_conf c))]"

definition readiness_view :: "readiness_record \<Rightarrow> pyval" where
  "readiness_view r = (let c = rd_counts r in PModel
     (map (\<lambda>(k, n). (k, PInt (int n)))
        [(''source_artifact_count'', n_source_artifacts c),
         (''test_artifact_count'', n_test_artifacts c), (''build_manifest_count'', n_build_manifests c),
         (''ci_definition_count'', n_ci_definitions c),
         (''deployment_definition_count'', n_deployment_definitions c),
         (''specification_count'', n_specifications c), (''documentation_count'', n_documentation c),
         (''plan_count'', n_plans c), (''roadmap_count'', n_roadmaps c), (''wip_count'', n_wips c),
         (''draft_count'', n_drafts c), (''blocked_count'', n_blocked c),
         (''open_task_count'', n_open_tasks c), (''completed_task_count'', n_completed_tasks c),
         (''milestone_count'', n_milestones c), (''exact_duplicate_count'', n_exact_duplicates c),
         (''near_duplicate_count'', n_near_duplicates c),
         (''consolidation_candidate_count'', n_consolidations c),
         (''coverage_gap_count'', n_coverage_gaps c)] @
      [(''readiness_id'', PStr (rd_id r)), (''subject_id'', PStr (rd_subject r)),
       (''profile_id'', PStr (rd_profile_id r)), (''profile_version'', PStr (rd_profile_version r)),
       (''evidence_refs'', strs (rd_evidence_refs r)), (''confidence'', confidence_view (rd_conf r))]))"

definition reasoning_view :: "reasoning_candidate \<Rightarrow> pyval" where
  "reasoning_view r = PModel
     [(''reasoning_candidate_id'', PStr (rc_id r)), (''candidate_id'', PStr (rc_candidate r)),
      (''upstream_recommended_reasoning_type'', py_opt (\<lambda>t. PStr (reasoning_type_value t)) (rc_upstream r)),
      (''topology_recommended_reasoning_type'', PStr (reasoning_type_value (rc_type r))),
      (''reason'', PStr (rc_reason r)), (''trigger_signals'', strs (rc_triggers r)),
      (''structural_signals'', strs (rc_signals r)), (''conflict_refs'', strs (rc_conflict_refs r)),
      (''unknown_refs'', strs (rc_unknown_refs r)), (''readiness_ref'', py_opt PStr (rc_readiness r)),
      (''evidence_refs'', strs (rc_evidence_refs r)),
      (''bounded_neighborhood_refs'', strs (rc_neighborhood r))]"

definition evidence_view :: "evidence_record \<Rightarrow> pyval" where
  "evidence_view r = PModel
     [(''evidence_id'', PStr (evidence_id r)), (''subject_id'', PStr (ev_subject_id r)),
      (''field'', py_opt PStr (ev_field r)), (''stage'', PStr (stage r)),
      (''evidence_class'', PStr (evidence_class_value (evidence_class r))),
      (''source_type'', PStr (source_type_value (source_type r))),
      (''source_ref'', py_source_ref (source_ref r)), (''value'', ev_value r),
      (''confidence'', confidence_view (ev_confidence r)), (''producer'', PStr (producer r)),
      (''producer_version'', PStr (producer_version r)), (''created_at'', PStr (created_at r))]"

definition diagnostic_view :: "diagnostic_record \<Rightarrow> pyval" where
  "diagnostic_view d = PModel
     [(''diagnostic_id'', PStr (diagnostic_id d)), (''source_packet_id'', PStr (diag_source_packet d)),
      (''stage'', PStr (diag_stage d)), (''severity'', PStr (case diag_severity d of
         diag_info \<Rightarrow> ''info'' | diag_warning \<Rightarrow> ''warning'' | diag_error \<Rightarrow> ''error'')),
      (''code'', PStr (diag_code d)), (''message'', PStr (diag_message d)),
      (''category'', PStr (diag_category d)), (''subject_id'', py_opt PStr (diag_subject d)),
      (''evidence_refs'', strs (diag_evidence_refs d)),
      (''disposition'', PStr (case disposition d of preserved \<Rightarrow> ''preserved''
         | translated \<Rightarrow> ''translated'' | suppressed \<Rightarrow> ''suppressed'' | rejected \<Rightarrow> ''rejected'')),
      (''details'', diag_details d)]"

definition unknown_view :: "unknown_record \<Rightarrow> pyval" where
  "unknown_view u = PModel
     [(''unknown_id'', PStr (unknown_id u)), (''subject_id'', PStr (unk_subject u)),
      (''field'', py_opt PStr (unk_field u)), (''reason'', PStr (unk_reason u)),
      (''evidence_refs'', strs (unk_evidence_refs u))]"

definition conflict_view :: "conflict_record \<Rightarrow> pyval" where
  "conflict_view c = PModel
     [(''conflict_id'', PStr (conflict_id c)), (''subject_id'', PStr (conf_subject c)),
      (''field'', PStr (conf_field c)), (''values'', strs (conf_values c)),
      (''evidence_refs'', strs (conf_evidence_refs c)), (''blocking'', PBool (blocking c)),
      (''resolution'', py_opt PStr (resolution c))]"

subsection \<open>Payloads of a topology\<close>

definition topology_payload :: "(score \<Rightarrow> pyval) \<Rightarrow> topology_state \<Rightarrow> (string, pyval) dict" where
  "topology_payload num s =
     [(''repository_records'', PSeq (map repository_view (repository_records s))),
      (''artifact_records'', PSeq (map artifact_view (artifact_records s))),
      (''capability_records'', PSeq (map capability_view (capability_records s))),
      (''semantic_claims'', PSeq (map claim_view (semantic_claims s))),
      (''edge_records'', PSeq (map edge_view (edge_records s))),
      (''flow_records'', PSeq (map flow_view (flow_records s))),
      (''graph_records'', PSeq (map graph_view (graph_records s))),
      (''risks'', PSeq (map risk_view (risks s))),
      (''maturity'', PSeq (map maturity_view (maturity s))),
      (''impact_indexes'', PSeq (map impact_view (impact_indexes s))),
      (''corpus_records'', PSeq (map corpus_view (corpus_records s))),
      (''root_records'', PSeq (map root_view (root_records s))),
      (''candidate_relations'', PSeq (map (candidate_relation_view num) (candidate_relations s))),
      (''candidate_clusters'', PSeq (map cluster_view (candidate_clusters s))),
      (''readiness_evidence'', PSeq (map readiness_view (readiness_evidence s))),
      (''topology_reasoning_candidates'', PSeq (map reasoning_view (reasoning_candidates s))),
      (''evidence'', PSeq (map evidence_view (state_evidence s))),
      (''diagnostics'', PSeq (map diagnostic_view (diagnostics s))),
      (''unknowns'', PSeq (map unknown_view (unknowns s))),
      (''conflicts'', PSeq (map conflict_view (conflicts s)))]"

definition topology_payload_bytes :: "(score \<Rightarrow> pyval) \<Rightarrow> topology_state \<Rightarrow> (string, string) dict" where
  "topology_payload_bytes num s =
     map (\<lambda>(k, v). (k, canonical_json v @ [CHR 0x0A])) (topology_payload num s)"

definition topology_payload_hashes ::
  "(string \<Rightarrow> string) \<Rightarrow> (score \<Rightarrow> pyval) \<Rightarrow> topology_state \<Rightarrow> (string, string) dict" where
  "topology_payload_hashes sha num s =
     map (\<lambda>(k, b). (k, artifact_hash sha b)) (topology_payload_bytes num s)"

definition topology_payload_path :: "string \<Rightarrow> string" where
  "topology_payload_path f =
     ''payload/'' @ map (\<lambda>c. if c = CHR ''_'' then CHR ''-'' else c) f @ ''.json''"

definition topology_payload_refs :: "(score \<Rightarrow> pyval) \<Rightarrow> topology_state \<Rightarrow> (string, string) dict" where
  "topology_payload_refs num s = map (\<lambda>k. (k, topology_payload_path k)) (dkeys (topology_payload num s))"

lemma payload_keys: "dkeys (topology_payload num s) = dkeys (topology_payload num s')"
  by (simp add: topology_payload_def)

lemma dget_map_value: "dget (map (\<lambda>(k, v). (k, f v)) d) k = map_option f (dget d k)"
  by (simp add: map_of_map)

lemma lookup_hash:
  "dget (topology_payload_hashes sha num s) k =
     map_option (\<lambda>v. artifact_hash sha (canonical_json v @ [CHR 0x0A])) (dget (topology_payload num s) k)"
  unfolding topology_payload_hashes_def topology_payload_bytes_def dget_map_value option.map_comp comp_def ..

text \<open>
  A payload hash locates what changed. If the digest does not collide on the two payloads of a
  domain, the hashes two topologies record for it agree exactly when the canonical data of that
  domain agree, whatever the other domains hold.
\<close>
theorem payload_hash_locates:
  assumes "dget (topology_payload num s) k = Some v" and "dget (topology_payload num s') k = Some w"
    and "wf_py v" and "wf_py w"
    and "sha (canonical_json v @ [CHR 0x0A]) = sha (canonical_json w @ [CHR 0x0A]) \<Longrightarrow>
      canonical_json v = canonical_json w"
  shows "dget (topology_payload_hashes sha num s) k = dget (topology_payload_hashes sha num s') k \<longleftrightarrow>
    canonical_data v = canonical_data w"
proof -
  have "canonical_json v = canonical_json w \<longleftrightarrow> canonical_data v = canonical_data w"
    using assms(3,4) by (simp add: canonical_json_def dumps_inj canonical_canonical_data)
  then show ?thesis
    using assms by (auto simp: lookup_hash artifact_hash_def sha256_bytes_def)
qed

definition sample_topology :: "unknown_record list \<Rightarrow> topology_state" where
  "sample_topology us = \<lparr>repository_records = [], artifact_records = [], capability_records = [],
     semantic_claims = [], edge_records = [], flow_records = [], graph_records = [], risks = [],
     maturity = [], impact_indexes = [], corpus_records = [], root_records = [],
     candidate_relations = [], candidate_clusters = [], readiness_evidence = [],
     reasoning_candidates = [], state_evidence = [], diagnostics = [], unknowns = us,
     conflicts = []\<rparr>"

definition sample_unknown :: unknown_record where
  "sample_unknown = \<lparr>unknown_id = ''unknown:1'', unk_subject = ''repo:a'', unk_field = None,
     unk_reason = ''not observed'', unk_evidence_refs = []\<rparr>"

theorem payload_hash_locates_witness:
  "dget (topology_payload_hashes (\<lambda>b. b) (\<lambda>_. PNone) (sample_topology [sample_unknown])) ''unknowns'' \<noteq>
   dget (topology_payload_hashes (\<lambda>b. b) (\<lambda>_. PNone) (sample_topology [])) ''unknowns''"
  by (subst payload_hash_locates
        [where v = "PSeq [unknown_view sample_unknown]" and w = "PSeq []"])
    (simp_all add: topology_payload_def sample_topology_def unknown_view_def sample_unknown_def py_opt_def
       strs_def)

subsection \<open>Volatile times in the payload\<close>

definition timed_evidence :: "string \<Rightarrow> evidence_record \<Rightarrow> topology_state \<Rightarrow> topology_state" where
  "timed_evidence t r s = s\<lparr>state_evidence := [r\<lparr>created_at := t\<rparr>]\<rparr>"

lemma evidence_view_time:
  "semantic_hash sha (evidence_view (r\<lparr>created_at := t\<rparr>)) =
   semantic_hash sha (evidence_view (r\<lparr>created_at := t'\<rparr>))"
proof -
  have "strip_data default_excluded (canonical_data (evidence_view (r\<lparr>created_at := t\<rparr>))) =
      strip_data default_excluded (canonical_data (evidence_view (r\<lparr>created_at := t'\<rparr>)))"
    unfolding evidence_view_def
    by (subst (1 2) strip_model_filter) (simp add: default_excluded_def)
  then show ?thesis by (simp add: semantic_hash_excluding_def excluded_or_default_def)
qed

lemma wf_evidence_view: "wf_py (ev_value r) \<Longrightarrow> wf_py (evidence_view r)"
  by (simp add: evidence_view_def confidence_view_def wf_py_source_ref wf_py_opt option.pred_True)

lemma model_data_entries:
  assumes "canonical_data (PModel fs) = JObj kvs"
  shows "set kvs = (\<lambda>(k, v). (k, canonical_data v)) ` {q \<in> set fs. snd q \<noteq> PNone}"
proof -
  have "kvs = sort_key fst (map (\<lambda>(k, v). (k, canonical_data v)) (filter (\<lambda>(k, v). v \<noteq> PNone) fs))"
    using assms by simp
  then show ?thesis by (simp only: set_sort set_map set_filter case_prod_unfold)
qed

lemma evidence_time_in_view:
  assumes same: "canonical_data (evidence_view (r\<lparr>created_at := t\<rparr>)) =
    canonical_data (evidence_view (r\<lparr>created_at := t'\<rparr>))"
  shows "t = t'"
proof -
  have time: "(''created_at'', JStr x) \<in> set kvs \<longleftrightarrow> x = u"
    if "canonical_data (evidence_view (r\<lparr>created_at := u\<rparr>)) = JObj kvs" for x u kvs
    unfolding model_data_entries [OF that [unfolded evidence_view_def]]
    by (auto simp: image_iff)
  obtain kvs where kvs: "canonical_data (evidence_view (r\<lparr>created_at := t\<rparr>)) = JObj kvs"
    unfolding evidence_view_def canonical_data.simps by blast
  with same have "canonical_data (evidence_view (r\<lparr>created_at := t'\<rparr>)) = JObj kvs" by (simp only:)
  with time [OF kvs, of t] time [of t' kvs t] show ?thesis by blast
qed

text \<open>
  The payload of a topology is not a function of the semantics of its inputs. Two evidence
  records that differ only in their volatile time have the same semantic hash, but the bytes of
  the evidence payload, and so the payload hash that enters the packet's identity, differ.
\<close>
theorem payload_depends_on_time:
  assumes "t \<noteq> t'" and "wf_py (ev_value r)"
  shows "semantic_hash sha (evidence_view (r\<lparr>created_at := t\<rparr>)) =
      semantic_hash sha (evidence_view (r\<lparr>created_at := t'\<rparr>)) \<and>
    dget (topology_payload_bytes num (timed_evidence t r s)) ''evidence'' \<noteq>
      dget (topology_payload_bytes num (timed_evidence t' r s)) ''evidence''"
proof
  let ?v = "\<lambda>t. PSeq [evidence_view (r\<lparr>created_at := t\<rparr>)]"
  have b: "dget (topology_payload_bytes num (timed_evidence t r s)) ''evidence'' =
      Some (canonical_json (?v t) @ [CHR 0x0A])" for t
    by (simp add: topology_payload_bytes_def topology_payload_def timed_evidence_def)
  have "canonical_data (evidence_view (r\<lparr>created_at := t\<rparr>)) \<noteq>
      canonical_data (evidence_view (r\<lparr>created_at := t'\<rparr>))"
    using assms(1) evidence_time_in_view by blast
  moreover have "canonical (canonical_data (?v t))" for t
    by (rule canonical_canonical_data) (simp add: wf_evidence_view assms(2))
  ultimately have "canonical_json (?v t) \<noteq> canonical_json (?v t')"
    unfolding canonical_json_def by (subst dumps_inj) simp_all
  then show "dget (topology_payload_bytes num (timed_evidence t r s)) ''evidence'' \<noteq>
      dget (topology_payload_bytes num (timed_evidence t' r s)) ''evidence''"
    by (simp add: b)
qed (rule evidence_view_time)

theorem payload_depends_on_time_witness:
  "let r = \<lparr>evidence_id = ''evidence:1'', ev_subject_id = ''repo:a'', ev_field = None, stage = ''scan'',
         evidence_class = class_declared, source_type = type_file, source_ref = sample_source_ref,
         ev_value = PStr ''v'', ev_confidence = confidence_unknown, producer = ''p'',
         producer_version = ''1'', created_at = ''0''\<rparr>;
       payload = (\<lambda>t. dget (topology_payload_bytes (\<lambda>_. PNone)
         (timed_evidence t r (sample_topology []))) ''evidence'')
   in payload ''1970-01-01T00:00:00Z'' \<noteq> payload ''2026-01-01T00:00:00Z''"
  unfolding Let_def by (rule payload_depends_on_time [THEN conjunct2]) simp_all

end
