(* ===== verification/Ingest.thy ===== *)
theory Ingest
  imports PacketEvidence Payloads Aggregate
begin

text \<open>
  Admission of Repository Model Packets: the semantic view and the checks of
  \<open>packets/validator.py\<close>, diagnostics (\<open>run/diagnostics.py\<close>), the adapter
  (\<open>packets/adapters/repository_model_v1.py\<close>), \<open>adapt_packets\<close> (\<open>stages/ingest_packets.py\<close>) and
  the flattening of \<open>stages/normalize_models.py\<close>. \<open>repr\<close> and \<open>str_of\<close> are Python's \<open>repr\<close> of a
  string and \<open>str\<close> of a value.
\<close>

subsection \<open>The semantic view of a Repository Model Packet\<close>

definition producer_view :: "producer_ref \<Rightarrow> pyval" where
  "producer_view p = PModel [(''name'', PStr (producer_name p)), (''version'', PStr (producer_build p))]"

definition profile_view :: "profile_ref \<Rightarrow> pyval" where
  "profile_view p = PModel
     [(''id'', PStr (profile_name p)), (''version'', PStr (profile_build p)),
      (''hash'', PStr (profile_digest p))]"

definition snapshot_view :: "source_snapshot \<Rightarrow> pyval" where
  "snapshot_view s = PModel
     [(''revision'', PStr (snapshot_revision s)), (''semantic_hash'', PStr (snapshot_hash s))]"

definition str_dict :: "(string, string) dict \<Rightarrow> pyval" where
  "str_dict d = PDict (map (\<lambda>(k, v). (k, PStr v)) d)"

definition assertion_view :: "repository_assertion \<Rightarrow> pyval" where
  "assertion_view a = PModel
     [(''assertion_id'', PStr (as_id a)), (''subject_id'', PStr (as_subject a)),
      (''predicate'', PStr (as_predicate a)), (''object'', PStr (as_object a)),
      (''source_path'', PStr (as_source_path a)),
      (''source_range'', PModel [(''start_line'', PInt (as_start_line a)),
         (''end_line'', PInt (as_end_line a))]),
      (''evidence_excerpt'', PStr (as_excerpt a)),
      (''source_content_hash'', PStr (as_content_hash a)),
      (''extractor_id'', PStr (as_extractor a)),
      (''evidence_class'', PStr (evidence_class_value (as_evidence_class a))),
      (''authority'', PStr (as_authority a)), (''confidence'', PStr (as_confidence a))]"

definition payload_view :: "repository_payload \<Rightarrow> pyval" where
  "payload_view l = PModel
     [(''repositories'', PSeq (map repository_view (pl_repositories l))),
      (''artifacts'', PSeq (map artifact_view (pl_artifacts l))),
      (''capabilities'', PSeq (map capability_view (pl_capabilities l))),
      (''relationships'', PSeq (map edge_view (pl_relationships l))),
      (''evidence'', PSeq (map evidence_view (pl_evidence l))),
      (''diagnostics'', PSeq (map PDict (pl_diagnostics l))),
      (''assertions'', py_opt (\<lambda>as. PSeq (map assertion_view as)) (pl_assertions l))]"

definition interpretation_view :: "interpretation_profile \<Rightarrow> pyval" where
  "interpretation_view i = PModel
     [(''profile_id'', PStr (ip_profile_id i)), (''profile_version'', PStr (ip_profile_version i)),
      (''profile_hash'', PStr (ip_profile_hash i)),
      (''extractor_versions'', str_dict (ip_extractor_versions i))]"

definition repository_model_semantic_view :: "repository_packet \<Rightarrow> pyval" where
  "repository_model_semantic_view p = PDict
     ([(''packet_type'', PStr (rp_packet_type p)), (''packet_version'', PStr (rp_version p)),
       (''subject'', PModel [(''repository_id'', PStr (rp_repository_id p))]),
       (''source_snapshot'', snapshot_view (rp_snapshot p)),
       (''producer'', producer_view (rp_producer p)), (''profile'', profile_view (rp_profile p)),
       (''schema_hash'', PStr (rp_schema_hash p)), (''payload_refs'', str_dict (rp_payload_refs p)),
       (''payload'', py_opt payload_view (rp_payload p))] @
      (case rp_interpretation p of
         None \<Rightarrow> [] | Some i \<Rightarrow> [(''interpretation_profile'', interpretation_view i)]))"

subsection \<open>Packet validation\<close>

definition supported_versions :: "string list" where
  "supported_versions = [''1.0.0'', ''1.1.0'']"

datatype ingest_error =
    packet_invalid string string
  | reference_invalid source_ref_error
  | version_unsupported string

definition validate_repository_packet ::
  "(string \<Rightarrow> string) \<Rightarrow> (string \<Rightarrow> string) \<Rightarrow> repository_packet \<Rightarrow> ingest_error + repository_payload" where
  "validate_repository_packet sha repr p =
     (if rp_version p \<notin> set supported_versions then Inl (packet_invalid ''unsupported-contract-version''
         (''repository model packet version '' @ repr (rp_version p) @ '' is not supported''))
      else if pv_status (rp_validation p) \<noteq> status_passed then Inl (packet_invalid ''input-validation-failed''
         (''parent packet validation status is '' @
          repr (validation_status_value (pv_status (rp_validation p)))))
      else if snapshot_revision (rp_snapshot p) = [] then
        Inl (packet_invalid ''missing-source-revision'' ''source revision is required'')
      else (case rp_payload p of
          None \<Rightarrow> Inl (packet_invalid ''missing-payload'' ''repository model payload is unresolved'')
        | Some l \<Rightarrow>
            (let calculated = semantic_hash sha (repository_model_semantic_view p) in
             if calculated \<noteq> rp_semantic_hash p then Inl (packet_invalid ''semantic-hash-mismatch''
               (''expected '' @ rp_semantic_hash p @ '', calculated '' @ calculated))
             else Inr l)))"

subsection \<open>Diagnostics\<close>

text \<open>JSON data read back as Python values.\<close>

fun py_json :: "json \<Rightarrow> pyval" where
  "py_json JNull = PNone"
| "py_json (JBool b) = PBool b"
| "py_json (JInt i) = PInt i"
| "py_json (JStr s) = PStr s"
| "py_json (JArr xs) = PSeq (map py_json xs)"
| "py_json (JObj kvs) = PDict (map (\<lambda>(k, v). (k, py_json v)) kvs)"

definition severity_of :: "string \<Rightarrow> diagnostic_severity" where
  "severity_of s = (if s = ''info'' then diag_info else if s = ''error'' then diag_error else diag_warning)"

fun severity_name :: "diagnostic_severity \<Rightarrow> string" where
  "severity_name diag_info = ''info''"
| "severity_name diag_warning = ''warning''"
| "severity_name diag_error = ''error''"

definition text_field :: "(pyval \<Rightarrow> string) \<Rightarrow> (string, pyval) dict \<Rightarrow> string \<Rightarrow> string \<Rightarrow> string" where
  "text_field str_of raw k dflt = (case dget raw k of None \<Rightarrow> dflt | Some v \<Rightarrow> str_of v)"

definition listed_refs :: "(pyval \<Rightarrow> string) \<Rightarrow> pyval option \<Rightarrow> string list" where
  "listed_refs str_of v = (case v of
       Some (PSeq xs) \<Rightarrow> sort (map str_of xs) | Some (PSet xs) \<Rightarrow> sort (map str_of xs) | _ \<Rightarrow> [])"

definition normalize_diagnostic ::
  "(string \<Rightarrow> string) \<Rightarrow> (pyval \<Rightarrow> string) \<Rightarrow> ident \<Rightarrow> nat \<times> (string, pyval) dict \<Rightarrow> diagnostic_record" where
  "normalize_diagnostic sha str_of source q = (case q of (index, raw) \<Rightarrow>
     (let severity = severity_of (str_lower (text_field str_of raw ''severity'' ''warning''));
          code = text_field str_of raw ''code'' ''upstream-diagnostic'';
          message = text_field str_of raw ''message''
            ''Upstream repository analysis emitted a diagnostic.'';
          stg = text_field str_of raw ''stage'' ''repository-model'';
          subject = (case dget raw ''subject_id'' of
              None \<Rightarrow> None | Some v \<Rightarrow> if v = PNone then None else Some (str_of v));
          kept = py_json (canonical_data (PDict raw));
          identity = PDict
            [(''source_packet_id'', PStr source), (''index'', PInt (int index)), (''stage'', PStr stg),
             (''severity'', PStr (severity_name severity)), (''code'', PStr code),
             (''message'', PStr message), (''subject_id'', py_opt PStr subject), (''raw'', kept)] in
      \<lparr>diagnostic_id = (case dget raw ''diagnostic_id'' of
           Some v \<Rightarrow> if truthy v then str_of v else stable_id sha ''diagnostic'' identity
         | None \<Rightarrow> stable_id sha ''diagnostic'' identity),
       diag_source_packet = source, diag_stage = stg, diag_severity = severity, diag_code = code,
       diag_message = message, diag_category = text_field str_of raw ''category'' ''upstream'',
       diag_subject = subject, diag_evidence_refs = listed_refs str_of (dget raw ''evidence_refs''),
       disposition = preserved, diag_details = PDict [(''raw'', kept)]\<rparr>))"

subsection \<open>The adapter and the flattening\<close>

record normalized_inputs =
  nm_repositories :: "repository_record list"
  nm_artifacts :: "artifact_record list"
  nm_capabilities :: "capability_record list"
  nm_relationships :: "edge_record list"
  nm_evidence :: "evidence_record list"
  nm_diagnostics :: "diagnostic_record list"
  nm_assertions :: "repository_assertion list"

record normalized_model = normalized_inputs +
  nm_packet_id :: ident

definition adapt_packet ::
  "(string \<Rightarrow> string) \<Rightarrow> (string \<Rightarrow> string) \<Rightarrow> (pyval \<Rightarrow> string) \<Rightarrow> repository_packet \<Rightarrow>
   ingest_error + normalized_model" where
  "adapt_packet sha repr str_of p =
     (case validate_repository_packet sha repr p of
        Inl e \<Rightarrow> Inl e
      | Inr l \<Rightarrow> map_sum reference_invalid (\<lambda>evs.
          \<lparr>nm_repositories = pl_repositories l, nm_artifacts = pl_artifacts l,
           nm_capabilities = pl_capabilities l, nm_relationships = pl_relationships l,
           nm_evidence = pl_evidence l @ evs,
           nm_diagnostics = map (normalize_diagnostic sha str_of (rp_id p))
             (enumerate 0 (pl_diagnostics l)),
           nm_assertions = packet_assertions p, nm_packet_id = rp_id p\<rparr>)
          (assertion_evidence_records sha p))"

definition adapt_packets ::
  "(string \<Rightarrow> string) \<Rightarrow> (string \<Rightarrow> string) \<Rightarrow> (pyval \<Rightarrow> string) \<Rightarrow> repository_packet list \<Rightarrow>
   ingest_error + normalized_model list" where
  "adapt_packets sha repr str_of ps =
     collect (map (\<lambda>p. if rp_version p \<notin> set supported_versions
        then Inl (version_unsupported (rp_version p)) else adapt_packet sha repr str_of p) ps)"

definition normalize_models :: "normalized_model list \<Rightarrow> normalized_inputs" where
  "normalize_models ms =
     \<lparr>nm_repositories = concat (map nm_repositories ms), nm_artifacts = concat (map nm_artifacts ms),
      nm_capabilities = concat (map nm_capabilities ms),
      nm_relationships = concat (map nm_relationships ms),
      nm_evidence = concat (map nm_evidence ms), nm_diagnostics = concat (map nm_diagnostics ms),
      nm_assertions = concat (map nm_assertions ms)\<rparr>"

subsection \<open>What admission keeps\<close>

lemma normalize_diagnostic_simps [simp]:
  "disposition (normalize_diagnostic sha str_of source q) = preserved"
  "diag_source_packet (normalize_diagnostic sha str_of source q) = source"
  by (simp_all add: normalize_diagnostic_def Let_def split: prod.split)

definition admissible :: "(string \<Rightarrow> string) \<Rightarrow> repository_packet \<Rightarrow> bool" where
  "admissible sha p \<longleftrightarrow>
     rp_version p \<in> set supported_versions \<and> pv_status (rp_validation p) = status_passed \<and>
     snapshot_revision (rp_snapshot p) \<noteq> [] \<and> rp_payload p \<noteq> None \<and>
     rp_semantic_hash p = semantic_hash sha (repository_model_semantic_view p)"

lemma validate_repository_packet_exact:
  "validate_repository_packet sha repr p = Inr l \<longleftrightarrow> admissible sha p \<and> rp_payload p = Some l"
  by (auto simp: validate_repository_packet_def admissible_def Let_def split: option.splits)

end
