(* ===== verification/CorpusValidator.thy ===== *)
theory CorpusValidator
  imports Packets
begin

text \<open>
  Referential integrity of a Corpus Intelligence Packet against the Repository Model Packets it
  analyses, \<open>packets/corpus_validator.py\<close>. The checks collect messages; the packet is refused
  when there is one. \<open>repr\<close> is Python's \<open>repr\<close> of a string, used in messages only.
\<close>

definition line_bearing_formats :: "string list" where
  "line_bearing_formats = [''text'', ''markdown'', ''csv'', ''html'', ''ipynb'']"

definition packet_payloads :: "repository_packet list \<Rightarrow> repository_payload list" where
  "packet_payloads ps = List.map_filter rp_payload ps"

definition artifact_only_identities :: "repository_packet list \<Rightarrow> ident list" where
  "artifact_only_identities ps = concat (map (\<lambda>l. map art_id (pl_artifacts l)) (packet_payloads ps))"

definition artifact_identities :: "repository_packet list \<Rightarrow> ident list" where
  "artifact_identities ps =
     map rp_repository_id ps @
     concat (map (\<lambda>l. map art_id (pl_artifacts l) @ map repo_id (pl_repositories l) @
       map cap_id (pl_capabilities l)) (packet_payloads ps))"

definition root_errors ::
  "(ident, repository_packet) dict \<Rightarrow> corpus_root_ref \<Rightarrow> string list" where
  "root_errors by_id r =
     (let ref = root_ref_packet r; i = pr_packet_id ref in
      case dget by_id i of
        None \<Rightarrow> [''root '' @ root_ref_id r @ '' references unresolved packet '' @ i]
      | Some m \<Rightarrow>
          (if pr_semantic_hash ref \<noteq> rp_semantic_hash m
           then [''root '' @ root_ref_id r @ '' binds '' @ i @ '' at semantic hash '' @
             pr_semantic_hash ref @ '', but the packet carries '' @ rp_semantic_hash m] else []) @
          (case pr_source_revision ref of
             None \<Rightarrow> []
           | Some v \<Rightarrow> if v \<noteq> snapshot_revision (rp_snapshot m)
               then [''root '' @ root_ref_id r @ '' binds '' @ i @ '' at revision '' @ v @
                 '', but the packet carries '' @ snapshot_revision (rp_snapshot m)] else []))"

definition missing_from :: "string list \<Rightarrow> string list \<Rightarrow> string list" where
  "missing_from xs ys = usort (filter (\<lambda>x. x \<notin> set ys) xs)"

definition check_roots :: "corpus_packet \<Rightarrow> repository_packet list \<Rightarrow> string list" where
  "check_roots p ps =
     (let loaded = map rp_id ps; declared = map pr_packet_id (cp_inputs p);
          roots = desc_roots (cp_corpus p);
          observed = map (\<lambda>r. pr_packet_id (root_ref_packet r)) roots in
      map (\<lambda>x. ''input repository-model packet did not resolve: '' @ x)
        (missing_from declared loaded) @
      map (\<lambda>x. ''repository-model packet was loaded but is not a declared input: '' @ x)
        (missing_from loaded declared) @
      concat (map (root_errors (index_by rp_id ps)) roots) @
      map (\<lambda>x. ''declared input packet '' @ x @ '' is not observed by any corpus root'')
        (missing_from declared observed))"

definition signal_errors ::
  "(string \<Rightarrow> string) \<Rightarrow> ident list \<Rightarrow> ident list \<Rightarrow> document_work_signal \<Rightarrow> string list" where
  "signal_errors repr ids arts s =
     (if sg_artifact s \<notin> set arts then [''document work signal '' @ sg_id s @
        '' was read from artifact '' @ sg_artifact s @ '', which no input packet carries''] else []) @
     (if sg_subject s \<notin> set ids then [''document work signal '' @ sg_id s @
        '' is about subject '' @ sg_subject s @ '', which no input packet observed''] else []) @
     (if locator_kind (sg_locator s) \<in> set line_locator_kinds \<and>
        sg_format s \<notin> set line_bearing_formats
      then [''document work signal '' @ sg_id s @ '' was decoded from '' @ repr (sg_format s) @
        '', which has no lines, but cites a line locator; a structured coordinate is required'']
      else [])"

definition py_list_repr :: "(string \<Rightarrow> string) \<Rightarrow> string list \<Rightarrow> string" where
  "py_list_repr repr xs = ''['' @ join '', '' (map repr xs) @ '']''"

definition hashes_by_cluster :: "exact_duplicate_relation list \<Rightarrow> (ident, string list) dict" where
  "hashes_by_cluster rs = group_map duplicate_cluster_id dup_content_hash rs"

definition endpoint_errors :: "string \<Rightarrow> ident \<Rightarrow> ident list \<Rightarrow> ident list \<Rightarrow> string list" where
  "endpoint_errors kind i ends arts =
     map (\<lambda>x. kind @ '' relation '' @ i @ '' names artifact '' @ x @
       '', which no input packet carries'') (filter (\<lambda>x. x \<notin> set arts) ends)"

definition check_duplicates ::
  "(string \<Rightarrow> string) \<Rightarrow> corpus_payload \<Rightarrow> ident list \<Rightarrow> string list" where
  "check_duplicates repr l arts =
     concat (map (\<lambda>r. endpoint_errors ''exact duplicate'' (relation_id r)
       [artifact_a r, artifact_b r] arts) (duplicate_relations l)) @
     map (\<lambda>(c, hs). ''duplicate cluster '' @ c @ '' carries more than one content hash: '' @
         py_list_repr repr (usort hs) @ ''; byte equality admits exactly one'')
       (filter (\<lambda>(c, hs). 1 < length (remdups hs))
         (sort_key fst (hashes_by_cluster (duplicate_relations l))))"

definition check_pairs :: "corpus_payload \<Rightarrow> ident list \<Rightarrow> string list" where
  "check_pairs l arts =
     concat (map (\<lambda>r. endpoint_errors ''semantic pair'' (pair_id r) [pair_source r, pair_target r] arts)
       (pair_relations l))"

definition candidate_errors :: "ident list \<Rightarrow> ident list \<Rightarrow> candidate_cluster \<Rightarrow> string list" where
  "candidate_errors arts rels c =
     map (\<lambda>m. ''candidate '' @ cc_id c @ '' names member '' @ m @ '', which no input packet carries'')
       (filter (\<lambda>m. m \<notin> set arts) (cc_members c)) @
     map (\<lambda>r. ''candidate '' @ cc_id c @ '' cites supporting relation '' @ r @
         '', which this packet does not carry'')
       (filter (\<lambda>r. r \<notin> set rels) (cc_relations c))"

definition carried_relations :: "corpus_payload \<Rightarrow> ident list" where
  "carried_relations l =
     map pair_id (pair_relations l) @ map relation_id (duplicate_relations l) @
     map duplicate_cluster_id (duplicate_relations l)"

definition check_candidates :: "corpus_payload \<Rightarrow> ident list \<Rightarrow> string list" where
  "check_candidates l arts =
     concat (map (candidate_errors arts (carried_relations l)) (all_candidates l))"

definition candidate_ids :: "corpus_payload \<Rightarrow> ident list" where
  "candidate_ids l = map cc_id (all_candidates l)"

definition check_readiness :: "corpus_payload \<Rightarrow> ident list \<Rightarrow> string list" where
  "check_readiness l ids =
     map (\<lambda>r. ''readiness evidence '' @ rm_id r @ '' measures subject '' @ rm_subject r @
         '', which is neither a candidate in this packet nor an entity any input packet observed'')
       (filter (\<lambda>r. rm_subject r \<notin> set (candidate_ids l) \<and> rm_subject r \<notin> set ids)
         (readiness_measurements l))"

definition request_errors :: "corpus_payload \<Rightarrow> ident list \<Rightarrow> reasoning_request \<Rightarrow> string list" where
  "request_errors l arts q =
     (if rq_candidate q \<notin> set (candidate_ids l) then [''reasoning candidate '' @ rq_id q @
        '' names candidate '' @ rq_candidate q @ '', which this packet does not carry''] else []) @
     map (\<lambda>m. ''reasoning candidate '' @ rq_id q @ '' names member '' @ m @
       '', which no input packet carries'') (filter (\<lambda>m. m \<notin> set arts) (rq_members q)) @
     (case rq_pack q of
        None \<Rightarrow> []
      | Some k \<Rightarrow> if k \<notin> set (evidence_pack_refs l) then [''reasoning candidate '' @ rq_id q @
          '' references evidence pack '' @ k @ '', which this packet does not declare''] else [])"

definition domain_empty :: "corpus_payload \<Rightarrow> string \<Rightarrow> bool" where
  "domain_empty l d \<longleftrightarrow>
     (if d = ''document_work_signals'' then work_signals l = []
      else if d = ''exact_duplicate_relations'' then duplicate_relations l = []
      else if d = ''semantic_pair_relations'' then pair_relations l = []
      else if d = ''topic_candidates'' then topic_candidates l = []
      else if d = ''project_candidates'' then project_candidates l = []
      else if d = ''consolidation_candidates'' then consolidation_candidates l = []
      else if d = ''readiness_evidence'' then readiness_measurements l = []
      else if d = ''reasoning_candidates'' then reasoning_requests l = []
      else evidence_pack_refs l = [])"

definition check_domains_not_run :: "corpus_packet \<Rightarrow> corpus_payload \<Rightarrow> string list" where
  "check_domains_not_run p l =
     (case cp_domains_not_run p of
        None \<Rightarrow> []
      | Some ds \<Rightarrow> map (\<lambda>s. ''domains_not_run declares '' @ not_run_domain s @
            '' not run, but that payload domain carries records'')
          (filter (\<lambda>s. \<not> domain_empty l (not_run_domain s)) ds))"

definition validate_corpus_packet ::
  "(string \<Rightarrow> string) \<Rightarrow> corpus_packet \<Rightarrow> repository_packet list \<Rightarrow> string list + unit" where
  "validate_corpus_packet repr p ps =
     (case cp_payload p of
        None \<Rightarrow> Inl [''corpus intelligence packet carries no materialized payload'']
      | Some l \<Rightarrow>
          (let ids = artifact_identities ps; arts = artifact_only_identities ps;
               errors = check_roots p ps @
                 concat (map (signal_errors repr ids arts) (work_signals l)) @
                 check_duplicates repr l arts @ check_pairs l arts @ check_candidates l arts @
                 check_readiness l ids @ concat (map (request_errors l arts) (reasoning_requests l)) @
                 check_domains_not_run p l in
           if errors \<noteq> [] then Inl (usort errors) else Inr ()))"

subsection \<open>What acceptance means\<close>

definition root_bound :: "repository_packet list \<Rightarrow> corpus_root_ref \<Rightarrow> bool" where
  "root_bound ps r \<longleftrightarrow>
     (case dget (index_by rp_id ps) (pr_packet_id (root_ref_packet r)) of
        None \<Rightarrow> False
      | Some m \<Rightarrow> pr_semantic_hash (root_ref_packet r) = rp_semantic_hash m \<and>
          pr_source_revision (root_ref_packet r) \<in> {None, Some (snapshot_revision (rp_snapshot m))})"

definition scope_sound :: "corpus_packet \<Rightarrow> repository_packet list \<Rightarrow> bool" where
  "scope_sound p ps \<longleftrightarrow>
     pr_packet_id ` set (cp_inputs p) = rp_id ` set ps \<and>
     list_all (root_bound ps) (desc_roots (cp_corpus p)) \<and>
     pr_packet_id ` set (cp_inputs p) \<subseteq>
       (\<lambda>r. pr_packet_id (root_ref_packet r)) ` set (desc_roots (cp_corpus p))"

definition signal_sound :: "repository_packet list \<Rightarrow> document_work_signal \<Rightarrow> bool" where
  "signal_sound ps s \<longleftrightarrow>
     sg_artifact s \<in> set (artifact_only_identities ps) \<and>
     sg_subject s \<in> set (artifact_identities ps) \<and>
     (locator_kind (sg_locator s) = ''line'' \<longrightarrow> sg_format s \<in> set line_bearing_formats)"

definition duplicates_sound :: "repository_packet list \<Rightarrow> exact_duplicate_relation list \<Rightarrow> bool" where
  "duplicates_sound ps rs \<longleftrightarrow>
     list_all (\<lambda>r. {artifact_a r, artifact_b r} \<subseteq> set (artifact_only_identities ps)) rs \<and>
     list_all (\<lambda>r. list_all (\<lambda>r'. duplicate_cluster_id r = duplicate_cluster_id r' \<longrightarrow>
       dup_content_hash r = dup_content_hash r') rs) rs"

definition candidate_sound :: "repository_packet list \<Rightarrow> corpus_payload \<Rightarrow> candidate_cluster \<Rightarrow> bool" where
  "candidate_sound ps l c \<longleftrightarrow>
     set (cc_members c) \<subseteq> set (artifact_only_identities ps) \<and>
     set (cc_relations c) \<subseteq> set (carried_relations l)"

definition request_sound :: "repository_packet list \<Rightarrow> corpus_payload \<Rightarrow> reasoning_request \<Rightarrow> bool" where
  "request_sound ps l q \<longleftrightarrow>
     rq_candidate q \<in> set (candidate_ids l) \<and>
     set (rq_members q) \<subseteq> set (artifact_only_identities ps) \<and>
     pred_option (\<lambda>k. k \<in> set (evidence_pack_refs l)) (rq_pack q)"

definition payload_sound :: "corpus_packet \<Rightarrow> repository_packet list \<Rightarrow> corpus_payload \<Rightarrow> bool" where
  "payload_sound p ps l \<longleftrightarrow>
     list_all (signal_sound ps) (work_signals l) \<and>
     duplicates_sound ps (duplicate_relations l) \<and>
     list_all (\<lambda>r. {pair_source r, pair_target r} \<subseteq> set (artifact_only_identities ps))
       (pair_relations l) \<and>
     list_all (candidate_sound ps l) (all_candidates l) \<and>
     list_all (\<lambda>r. rm_subject r \<in> set (candidate_ids l) \<union> set (artifact_identities ps))
       (readiness_measurements l) \<and>
     list_all (request_sound ps l) (reasoning_requests l) \<and>
     list_all (\<lambda>s. domain_empty l (not_run_domain s))
       (case cp_domains_not_run p of None \<Rightarrow> [] | Some ds \<Rightarrow> ds)"

lemma missing_from_Nil: "missing_from xs ys = [] \<longleftrightarrow> set xs \<subseteq> set ys"
  by (auto simp: missing_from_def filter_empty_conv)

lemma root_errors_Nil: "root_errors (index_by rp_id ps) r = [] \<longleftrightarrow> root_bound ps r"
  by (auto simp: root_errors_def root_bound_def Let_def split: option.splits)

lemma check_roots_Nil: "check_roots p ps = [] \<longleftrightarrow> scope_sound p ps"
  by (auto simp: check_roots_def scope_sound_def Let_def missing_from_Nil root_errors_Nil
      list_all_iff)

lemma signal_errors_Nil:
  "signal_errors repr (artifact_identities ps) (artifact_only_identities ps) s = [] \<longleftrightarrow>
     signal_sound ps s"
  by (auto simp: signal_errors_def signal_sound_def line_locator_kinds_def)

lemma endpoint_errors_Nil: "endpoint_errors kind i ends arts = [] \<longleftrightarrow> set ends \<subseteq> set arts"
  by (auto simp: endpoint_errors_def filter_empty_conv)

lemma single_hash: "length (remdups hs) \<le> 1 \<longleftrightarrow> (\<forall>x \<in> set hs. \<forall>y \<in> set hs. x = y)"
proof
  assume "length (remdups hs) \<le> 1"
  then have "card (set hs) \<le> Suc 0" by (simp add: length_remdups_card_conv)
  then show "\<forall>x \<in> set hs. \<forall>y \<in> set hs. x = y" by (simp add: card_le_Suc0_iff_eq)
qed (simp add: length_remdups_card_conv card_le_Suc0_iff_eq)

lemma many_hashes: "(\<not> 1 < length (remdups hs)) \<longleftrightarrow> (\<forall>x \<in> set hs. \<forall>y \<in> set hs. x = y)"
  using single_hash [of hs] by (simp add: not_less)

lemma one_value_per_key:
  "(\<forall>(c, hs) \<in> set (group_map k v xs). \<not> 1 < length (remdups hs)) \<longleftrightarrow>
     (\<forall>x \<in> set xs. \<forall>y \<in> set xs. k x = k y \<longrightarrow> v x = v y)"
  (is "?l \<longleftrightarrow> ?r")
proof
  assume l: ?l
  show ?r
  proof (intro ballI impI)
    fix x y assume x: "x \<in> set xs" "y \<in> set xs" "k x = k y"
    have "(k x, map v (filter (\<lambda>z. k z = k x) xs)) \<in> set (group_map k v xs)"
      using x(1) by (simp add: set_group_map)
    from bspec [OF l this] have "\<not> 1 < length (remdups (map v (filter (\<lambda>z. k z = k x) xs)))"
      by simp
    note same = this [unfolded many_hashes, rule_format]
    show "v x = v y" by (rule same) (use x in auto)
  qed
next
  assume r: ?r
  show ?l
  proof (rule ballI, rule case_prodI2)
    fix q c hs assume "q \<in> set (group_map k v xs)" "q = (c, hs)"
    then have "hs = map v (filter (\<lambda>z. k z = c) xs)" using group_map_entry(1) by metis
    then have "\<forall>a \<in> set hs. \<forall>b \<in> set hs. a = b" using r by fastforce
    then show "\<not> 1 < length (remdups hs)" by (simp only: many_hashes)
  qed
qed

lemma check_duplicates_Nil:
  "check_duplicates repr l (artifact_only_identities ps) = [] \<longleftrightarrow>
     duplicates_sound ps (duplicate_relations l)"
  using one_value_per_key [of duplicate_cluster_id dup_content_hash "duplicate_relations l"]
  by (simp add: check_duplicates_def duplicates_sound_def endpoint_errors_Nil list_all_iff
      filter_empty_conv case_prod_unfold hashes_by_cluster_def)

lemma check_pairs_Nil:
  "check_pairs l (artifact_only_identities ps) = [] \<longleftrightarrow>
     list_all (\<lambda>r. {pair_source r, pair_target r} \<subseteq> set (artifact_only_identities ps)) (pair_relations l)"
  by (simp add: check_pairs_def endpoint_errors_Nil list_all_iff)

lemma check_candidates_Nil:
  "check_candidates l (artifact_only_identities ps) = [] \<longleftrightarrow>
     list_all (candidate_sound ps l) (all_candidates l)"
  by (auto simp: check_candidates_def candidate_errors_def candidate_sound_def filter_empty_conv
      list_all_iff)

lemma check_readiness_Nil:
  "check_readiness l (artifact_identities ps) = [] \<longleftrightarrow>
     list_all (\<lambda>r. rm_subject r \<in> set (candidate_ids l) \<union> set (artifact_identities ps))
       (readiness_measurements l)"
  by (auto simp: check_readiness_def filter_empty_conv list_all_iff)

lemma request_errors_Nil:
  "request_errors l (artifact_only_identities ps) q = [] \<longleftrightarrow> request_sound ps l q"
  by (cases "rq_pack q") (auto simp: request_errors_def request_sound_def filter_empty_conv)

lemma check_domains_not_run_Nil:
  "check_domains_not_run p l = [] \<longleftrightarrow>
     list_all (\<lambda>s. domain_empty l (not_run_domain s))
       (case cp_domains_not_run p of None \<Rightarrow> [] | Some ds \<Rightarrow> ds)"
  by (auto simp: check_domains_not_run_def filter_empty_conv list_all_iff split: option.split)

lemma if_not_Inr: "((if xs \<noteq> [] then Inl e else Inr u) = Inr u) \<longleftrightarrow> xs = []"
  by simp

lemma validate_corpus_packet_exact:
  "validate_corpus_packet repr p ps = Inr () \<longleftrightarrow>
     scope_sound p ps \<and> pred_option (payload_sound p ps) (cp_payload p) \<and> cp_payload p \<noteq> None"
proof (cases "cp_payload p")
  case (Some l)
  have "concat (map f xs) = [] \<longleftrightarrow> list_all g xs" if "\<And>x. f x = [] \<longleftrightarrow> g x"
    for f :: "'x \<Rightarrow> string list" and g xs using that by (simp add: list_all_iff)
  note each = this [of "signal_errors repr (artifact_identities ps) (artifact_only_identities ps)",
      OF signal_errors_Nil] this [of "request_errors l (artifact_only_identities ps)",
      OF request_errors_Nil]
  have "validate_corpus_packet repr p ps = Inr () \<longleftrightarrow> scope_sound p ps \<and> payload_sound p ps l"
    unfolding validate_corpus_packet_def Some Let_def payload_sound_def option.case if_not_Inr
      append_is_Nil_conv check_roots_Nil each check_duplicates_Nil check_pairs_Nil
      check_candidates_Nil check_readiness_Nil check_domains_not_run_Nil by simp
  with Some show ?thesis by simp
qed (simp add: validate_corpus_packet_def)

text \<open>
  C23: A corpus packet is accepted exactly when every identity in it resolves. Its inputs are the
  loaded packets, each observed by a root bound to its hash and revision; signals, duplicates,
  pairs, candidates and requests name artifacts the inputs carry; a duplicate cluster has one
  content hash; supporting relations, readiness subjects, requested candidates and evidence packs
  exist; no format without lines cites a line; and no domain declared not run carries records.
\<close>
theorem corpus_validation_exact:
  "validate_corpus_packet repr p ps = Inr () \<longleftrightarrow>
     scope_sound p ps \<and> pred_option (payload_sound p ps) (cp_payload p) \<and> cp_payload p \<noteq> None"
  by (rule validate_corpus_packet_exact)

end
