(* ===== verification/ClaimProjection.thy ===== *)
theory ClaimProjection
  imports Impact
begin

text \<open>
  Projection of reconciled claims into relations, \<open>topology/claim_projection.py\<close>: the shared
  eligibility decision, the projector of each of the five projecting predicates, and the
  stamping of claims with what they produced. \<open>repr\<close> is Python's \<open>repr\<close> of a string.
\<close>

definition external_package_prefix :: string where
  "external_package_prefix = ''package''"

definition repository_reference_prefix :: string where
  "repository_reference_prefix = ''repository-reference''"

definition contract_reference_prefix :: string where
  "contract_reference_prefix = ''contract-reference''"

definition service_action_prefix :: string where
  "service_action_prefix = ''capability:service-action''"

definition http_route_prefix :: string where
  "http_route_prefix = ''capability:http-route''"

subsection \<open>Eligibility\<close>

datatype projection_ineligibility = predicate_not_projectable | conflicted

definition projection_ineligibility :: "semantic_claim \<Rightarrow> projection_ineligibility option" where
  "projection_ineligibility c =
     (if \<not> is_projectable (claim_predicate c) then Some predicate_not_projectable
      else if claim_conflict_status c \<in> set projection_withheld_conflict_statuses \<or>
              conflict_ids c \<noteq> [] then Some conflicted
      else None)"

definition eligible_for_canonical_projection :: "semantic_claim \<Rightarrow> bool" where
  "eligible_for_canonical_projection c \<longleftrightarrow> projection_ineligibility c = None"

subsection \<open>Projectors\<close>

definition external_id :: "string \<Rightarrow> string \<Rightarrow> ident" where
  "external_id pre v = pre @ '':'' @ v"

definition claim_node :: "ident \<Rightarrow> string \<Rightarrow> semantic_claim \<Rightarrow> properties \<Rightarrow> graph_record" where
  "claim_node entity lbl c props =
     graph_node lbl entity props (claim_evidence_refs c) (claim_confidence c)"

definition claim_edge ::
  "(string \<Rightarrow> string) \<Rightarrow> ident \<Rightarrow> ident \<Rightarrow> edge_type \<Rightarrow> semantic_claim \<Rightarrow> properties \<Rightarrow> edge_record"
  where
  "claim_edge sha source target ty c props =
     \<lparr>edge_id = stable_id sha ''edge'' (graph_edge_identity source target ty props),
      edge_source = source, edge_target = target, edge_type_of = ty, edge_direction = outbound,
      edge_properties = props, edge_evidence_refs = claim_evidence_refs c,
      edge_confidence = claim_confidence c\<rparr>"

definition claim_properties :: "semantic_claim \<Rightarrow> properties" where
  "claim_properties c =
     [(''projected_from_claim_id'', PStr (claim_id c)),
      (''assertion_predicate'', PStr (claim_predicate c)),
      (''assertion_object'', PStr (claim_object c))]"

type_synonym projected = "capability_record list \<times> edge_record list \<times> graph_record list"

definition project_dependency :: "(string \<Rightarrow> string) \<Rightarrow> semantic_claim \<Rightarrow> projected" where
  "project_dependency sha c =
     (let target = external_id external_package_prefix (claim_object c);
          props = claim_properties c @
            [(endpoint_kind_property, PStr external_package_endpoint),
             (''package_name'', PStr (claim_object c))] in
      ([], [claim_edge sha (claim_subject c) target DEPENDS_ON c props],
       [claim_node target ''ExternalPackage'' c
          [(''package_name'', PStr (claim_object c)), (''observed_as_repository'', PBool False),
           (''projected_from_claim_id'', PStr (claim_id c))]]))"

definition project_canonical_contract :: "(string \<Rightarrow> string) \<Rightarrow> semantic_claim \<Rightarrow> projected" where
  "project_canonical_contract sha c =
     (let target = external_id contract_reference_prefix (claim_object c);
          props = claim_properties c @
            [(endpoint_kind_property, PStr ''declared-contract-reference''),
             (''contract_reference'', PStr (claim_object c))] in
      ([], [claim_edge sha (claim_subject c) target GOVERNED_BY c props],
       [claim_node target ''ContractReference'' c
          [(''contract_reference'', PStr (claim_object c)), (''resolved_to_artifact'', PBool False),
           (''projected_from_claim_id'', PStr (claim_id c))]]))"

definition project_replaced_by :: "(string \<Rightarrow> string) \<Rightarrow> semantic_claim \<Rightarrow> projected" where
  "project_replaced_by sha c =
     (let successor = external_id repository_reference_prefix (claim_object c);
          props = claim_properties c @
            [(endpoint_kind_property, PStr ''declared-repository-reference''),
             (''declared_by'', PStr (claim_subject c))] in
      ([], [claim_edge sha successor (claim_subject c) SUPERSEDES c props],
       [claim_node successor ''RepositoryReference'' c
          [(''reference'', PStr (claim_object c)), (''observed_in_constellation'', PBool False),
           (''projected_from_claim_id'', PStr (claim_id c))]]))"

definition project_service_action ::
  "(string \<Rightarrow> string) \<Rightarrow> (string \<Rightarrow> string) \<Rightarrow> semantic_claim \<Rightarrow> projected" where
  "project_service_action sha repr c =
     ([\<lparr>cap_id = stable_id sha service_action_prefix (PDict
           [(''subject_id'', PStr (claim_subject c)), (''action'', PStr (claim_object c))]),
         cap_name = claim_object c,
         cap_description = ''Service action '' @ repr (claim_object c) @ '' declared by '' @
           claim_subject c @ ''. '' @
           ''Declaration only: no implementation completeness is asserted.'',
         implemented_by = [claim_subject c], exposed_by = [], validated_by = [], governed_by = [],
         cap_evidence_refs = claim_evidence_refs c, cap_confidence = claim_confidence c\<rparr>], [], [])"

definition project_http_route ::
  "(string \<Rightarrow> string) \<Rightarrow> (string \<Rightarrow> string) \<Rightarrow> semantic_claim \<Rightarrow> projected" where
  "project_http_route sha repr c =
     ([\<lparr>cap_id = stable_id sha http_route_prefix (PDict
           [(''subject_id'', PStr (claim_subject c)), (''route'', PStr (claim_object c))]),
         cap_name = claim_object c,
         cap_description = ''HTTP route '' @ repr (claim_object c) @ '' observed in '' @
           claim_subject c @ ''. '' @
           ''Observation only: neither production reachability nor handler '' @
           ''completeness is asserted.'',
         implemented_by = [], exposed_by = [claim_subject c], validated_by = [], governed_by = [],
         cap_evidence_refs = claim_evidence_refs c, cap_confidence = claim_confidence c\<rparr>], [], [])"

definition projectors ::
  "(string \<Rightarrow> string) \<Rightarrow> (string \<Rightarrow> string) \<Rightarrow> (string, semantic_claim \<Rightarrow> projected) dict" where
  "projectors sha repr =
     [(''authority.canonical_contract'', project_canonical_contract sha),
      (''http.route'', project_http_route sha repr),
      (''package.dependency'', project_dependency sha),
      (''repository.replaced_by'', project_replaced_by sha),
      (''service.action'', project_service_action sha repr)]"

definition projected_predicates :: "string list" where
  "projected_predicates =
     [''authority.canonical_contract'', ''http.route'', ''package.dependency'',
      ''repository.replaced_by'', ''service.action'']"

subsection \<open>\<open>project_claims\<close>\<close>

record claim_projection =
  proj_capabilities :: "capability_record list"
  proj_edges :: "edge_record list"
  proj_nodes :: "graph_record list"
  proj_entities :: "(ident, ident list) dict"

record projection_state =
  ps_capabilities :: "capability_record list"
  ps_edges :: "(ident, edge_record) dict"
  ps_nodes :: "(ident, graph_record) dict"
  ps_entities :: "(ident, ident list) dict"

definition produced_ids :: "projected \<Rightarrow> ident list" where
  "produced_ids out = (case out of (caps, es, ns) \<Rightarrow>
     usort (map cap_id caps @ map edge_id es @ map g_entity_id ns))"

definition project_claim ::
  "(string \<Rightarrow> string) \<Rightarrow> (string \<Rightarrow> string) \<Rightarrow> semantic_claim \<Rightarrow> projected option" where
  "project_claim sha repr c =
     (case dget (projectors sha repr) (claim_predicate c) of
        None \<Rightarrow> None
      | Some projector \<Rightarrow>
          if eligible_for_canonical_projection c then Some (projector c) else None)"

definition project_step ::
  "(string \<Rightarrow> string) \<Rightarrow> (string \<Rightarrow> string) \<Rightarrow> semantic_claim \<Rightarrow> projection_state \<Rightarrow>
   projection_state" where
  "project_step sha repr c st =
     (case project_claim sha repr c of
        None \<Rightarrow> st
      | Some (caps, es, ns) \<Rightarrow>
          \<lparr>ps_capabilities = ps_capabilities st @ caps,
           ps_edges = fold (\<lambda>e. dput (edge_id e) e) es (ps_edges st),
           ps_nodes = fold (\<lambda>n. dsetdefault (g_entity_id n) n) ns (ps_nodes st),
           ps_entities = (if produced_ids (caps, es, ns) = [] then ps_entities st
             else dput (claim_id c) (produced_ids (caps, es, ns)) (ps_entities st))\<rparr>)"

definition project_claims ::
  "(string \<Rightarrow> string) \<Rightarrow> (string \<Rightarrow> string) \<Rightarrow> semantic_claim list \<Rightarrow> claim_projection" where
  "project_claims sha repr claims =
     (let st = fold (project_step sha repr) (sort_key claim_id claims)
            \<lparr>ps_capabilities = [], ps_edges = [], ps_nodes = [], ps_entities = []\<rparr> in
      \<lparr>proj_capabilities = sort_key cap_id (ps_capabilities st),
       proj_edges = sort_key edge_id (dvalues (ps_edges st)),
       proj_nodes = sort_key g_entity_id (dvalues (ps_nodes st)),
       proj_entities = ps_entities st\<rparr>)"

definition merge_projected_entities :: "(ident, ident list) dict list \<Rightarrow> (ident, ident list) dict" where
  "merge_projected_entities maps =
     (let merged = fold (\<lambda>m d. fold (\<lambda>(k, ids) d. dput k (dget_default [] d k @ ids) d) m d) maps [] in
      map (\<lambda>k. (k, usort (dget_default [] merged k))) (sort (dkeys merged)))"

definition apply_projection ::
  "semantic_claim list \<Rightarrow> (ident, ident list) dict \<Rightarrow> semantic_claim list" where
  "apply_projection claims entities =
     map (\<lambda>c. c\<lparr>projected := dget entities (claim_id c) \<noteq> None,
                projected_entity_ids := dget_default [] entities (claim_id c)\<rparr>) claims"

subsection \<open>What projects, and into what\<close>

lemma projectors_keys: "dkeys (projectors sha repr) = projected_predicates"
  by (simp add: projectors_def projected_predicates_def)

definition projects :: "(string \<Rightarrow> string) \<Rightarrow> (string \<Rightarrow> string) \<Rightarrow> semantic_claim \<Rightarrow> bool" where
  "projects sha repr c \<longleftrightarrow> project_claim sha repr c \<noteq> None"

lemma projects_iff:
  "projects sha repr c \<longleftrightarrow>
     eligible_for_canonical_projection c \<and> claim_predicate c \<in> set projected_predicates"
proof -
  have "dget (projectors sha repr) (claim_predicate c) \<noteq> None \<longleftrightarrow>
      claim_predicate c \<in> set projected_predicates"
    using projectors_keys [of sha repr] by (metis map_of_eq_None_iff set_map)
  then show ?thesis
    by (cases "dget (projectors sha repr) (claim_predicate c)";
        cases "eligible_for_canonical_projection c") (simp_all add: projects_def project_claim_def)
qed

lemma project_claim_cases:
  assumes "project_claim sha repr c = Some out"
  obtains "out = project_canonical_contract sha c" | "out = project_http_route sha repr c"
    | "out = project_dependency sha c" | "out = project_replaced_by sha c"
    | "out = project_service_action sha repr c"
  using assms by (auto simp: project_claim_def projectors_def split: option.splits if_splits)

lemmas projector_defs = project_canonical_contract_def project_http_route_def
  project_dependency_def project_replaced_by_def project_service_action_def

definition external_node :: "ident \<Rightarrow> bool" where
  "external_node k \<longleftrightarrow> prefix ''package:'' k \<or> prefix ''contract-reference:'' k \<or>
     prefix ''repository-reference:'' k"

lemma external_not_repository: "external_node k \<Longrightarrow> \<not> prefix ''repo:'' k"
  by (auto simp: external_node_def prefix_def)

lemma projector_facts:
  assumes "project_claim sha repr c = Some (caps, es, ns)"
  shows "produced_ids (caps, es, ns) \<noteq> []"
    and "e \<in> set es \<Longrightarrow> {edge_source e, edge_target e} \<subseteq> {claim_subject c} \<union> g_entity_id ` set ns"
    and "n \<in> set ns \<Longrightarrow> external_node (g_entity_id n)"
    and "k \<in> set caps \<Longrightarrow> set (implemented_by k @ exposed_by k) = {claim_subject c} \<and>
      cap_evidence_refs k = claim_evidence_refs c"
  using assms
  by (auto elim!: project_claim_cases simp: projector_defs Let_def produced_ids_def claim_edge_def
      claim_node_def external_node_def external_id_def external_package_prefix_def
      contract_reference_prefix_def repository_reference_prefix_def)

definition projection_invariant ::
  "(string \<Rightarrow> string) \<Rightarrow> (string \<Rightarrow> string) \<Rightarrow> semantic_claim list \<Rightarrow> projection_state \<Rightarrow> bool" where
  "projection_invariant sha repr cs st \<longleftrightarrow>
     fst ` set (ps_entities st) = claim_id ` {c \<in> set cs. projects sha repr c} \<and>
     (\<forall>k e. (k, e) \<in> set (ps_edges st) \<longrightarrow> k = edge_id e \<and>
        {edge_source e, edge_target e} \<subseteq> claim_subject ` set cs \<union> fst ` set (ps_nodes st)) \<and>
     (\<forall>k n. (k, n) \<in> set (ps_nodes st) \<longrightarrow> k = g_entity_id n \<and> external_node k) \<and>
     (\<forall>k. k \<in> set (ps_capabilities st) \<longrightarrow>
        set (implemented_by k @ exposed_by k) \<subseteq> claim_subject ` set cs) \<and>
     (\<forall>k ids. (k, ids) \<in> set (ps_entities st) \<longrightarrow> set ids \<subseteq>
        cap_id ` set (ps_capabilities st) \<union> fst ` set (ps_edges st) \<union> fst ` set (ps_nodes st))"

lemma projection_invariantD:
  assumes "projection_invariant sha repr cs st"
  shows "fst ` set (ps_entities st) = claim_id ` {c \<in> set cs. projects sha repr c}"
    and "(k, e) \<in> set (ps_edges st) \<Longrightarrow> k = edge_id e \<and> {edge_source e, edge_target e} \<subseteq>
      claim_subject ` set cs \<union> fst ` set (ps_nodes st)"
    and "(k, n) \<in> set (ps_nodes st) \<Longrightarrow> k = g_entity_id n \<and> external_node k"
    and "c \<in> set (ps_capabilities st) \<Longrightarrow>
      set (implemented_by c @ exposed_by c) \<subseteq> claim_subject ` set cs"
    and "(i, ids) \<in> set (ps_entities st) \<Longrightarrow> set ids \<subseteq> cap_id ` set (ps_capabilities st) \<union>
      fst ` set (ps_edges st) \<union> fst ` set (ps_nodes st)"
  using assms
  by (simp_all only: projection_invariant_def)

lemma set_dput_entry: "(k, v) \<in> set (dput k' v' d) \<Longrightarrow> (k, v) = (k', v') \<or> (k, v) \<in> set d"
  using set_dput_subset by fastforce

lemma fill_entry:
  "(k, x) \<in> set (fold (\<lambda>x. dput (key x) x) xs d) \<Longrightarrow> (k, x) \<in> set d \<or> x \<in> set xs \<and> k = key x"
  using set_fill_subset [of key "\<lambda>x. x" xs d] by auto

lemma setdefault_fold:
  "(k, x) \<in> set (fold (\<lambda>x. dsetdefault (key x) x) xs d) \<Longrightarrow>
     (k, x) \<in> set d \<or> x \<in> set xs \<and> k = key x"
  "fst ` set (fold (\<lambda>x. dsetdefault (key x) x) xs d) = fst ` set d \<union> key ` set xs"
proof -
  show "(k, x) \<in> set (fold (\<lambda>x. dsetdefault (key x) x) xs d) \<Longrightarrow>
      (k, x) \<in> set d \<or> x \<in> set xs \<and> k = key x"
  proof (induction xs arbitrary: d)
    case (Cons y ys)
    from Cons.IH [of "dsetdefault (key y) y d"] Cons.prems show ?case
      by (auto simp: dsetdefault_def split: if_splits dest: set_dput_entry)
  qed simp
qed (rule keys_dsetdefault_fold)

lemma projection_invariant_step:
  assumes inv: "projection_invariant sha repr cs st"
  shows "projection_invariant sha repr (cs @ [c]) (project_step sha repr c st)"
proof (cases "project_claim sha repr c")
  case None
  then have "\<not> projects sha repr c" by (simp add: projects_def)
  with inv None show ?thesis by (auto simp: projection_invariant_def project_step_def)
next
  case (Some out)
  obtain caps es ns where out: "out = (caps, es, ns)" by (cases out) auto
  note facts = projector_facts [OF Some [unfolded out]]
  have proj: "projects sha repr c" by (simp add: projects_def Some)
  let ?E = "fold (\<lambda>e. dput (edge_id e) e) es (ps_edges st)"
  let ?N = "fold (\<lambda>n. dsetdefault (g_entity_id n) n) ns (ps_nodes st)"
  let ?P = "produced_ids (caps, es, ns)"
  have st: "project_step sha repr c st = \<lparr>ps_capabilities = ps_capabilities st @ caps,
      ps_edges = ?E, ps_nodes = ?N, ps_entities = dput (claim_id c) ?P (ps_entities st)\<rparr>"
    using Some out facts(1) by (simp add: project_step_def)
  have kN: "fst ` set ?N = fst ` set (ps_nodes st) \<union> g_entity_id ` set ns"
    by (rule setdefault_fold(2))
  have kE: "fst ` set ?E = fst ` set (ps_edges st) \<union> edge_id ` set es"
    using dict.keys_fill [where key = edge_id and val = "\<lambda>e. e"] by simp
  have "fst ` set (dput (claim_id c) ?P (ps_entities st)) =
      claim_id ` {x \<in> set (cs @ [c]). projects sha repr x}"
    using inv proj by (auto simp: projection_invariant_def dict.keys_put)
  moreover have "k = edge_id e \<and> {edge_source e, edge_target e} \<subseteq>
      claim_subject ` set (cs @ [c]) \<union> fst ` set ?N" if "(k, e) \<in> set ?E" for k e
    using fill_entry [OF that]
  proof
    assume "(k, e) \<in> set (ps_edges st)"
    from projection_invariantD(2) [OF inv this] kN show ?thesis by auto
  next
    assume "e \<in> set es \<and> k = edge_id e"
    with facts(2) kN show ?thesis by auto
  qed
  moreover have "k = g_entity_id n \<and> external_node k" if "(k, n) \<in> set ?N" for k n
    using setdefault_fold(1) [OF that] projection_invariantD(3) [OF inv] facts(3) by blast
  moreover have "set (implemented_by k @ exposed_by k) \<subseteq> claim_subject ` set (cs @ [c])"
    if "k \<in> set (ps_capabilities st @ caps)" for k
    using that projection_invariantD(4) [OF inv, of k] facts(4) [of k] by auto
  moreover have "set ids \<subseteq>
      cap_id ` set (ps_capabilities st @ caps) \<union> fst ` set ?E \<union> fst ` set ?N"
    if "(k, ids) \<in> set (dput (claim_id c) ?P (ps_entities st))" for k ids
    unfolding kN kE using set_dput_entry [OF that]
  proof
    assume "(k, ids) = (claim_id c, ?P)"
    then show "set ids \<subseteq> cap_id ` set (ps_capabilities st @ caps) \<union>
      (fst ` set (ps_edges st) \<union> edge_id ` set es) \<union>
      (fst ` set (ps_nodes st) \<union> g_entity_id ` set ns)" by (auto simp: produced_ids_def)
  next
    assume "(k, ids) \<in> set (ps_entities st)"
    from projection_invariantD(5) [OF inv this]
    show "set ids \<subseteq> cap_id ` set (ps_capabilities st @ caps) \<union>
      (fst ` set (ps_edges st) \<union> edge_id ` set es) \<union>
      (fst ` set (ps_nodes st) \<union> g_entity_id ` set ns)" by auto
  qed
  ultimately show ?thesis
    unfolding st projection_invariant_def projection_state.simps
    by (intro conjI allI impI) (assumption | simp only:)+
qed

lemma projection_invariant_fold:
  "projection_invariant sha repr cs0 st \<Longrightarrow>
     projection_invariant sha repr (cs0 @ cs) (fold (project_step sha repr) cs st)"
proof (induction cs arbitrary: cs0 st)
  case (Cons c cs)
  from Cons.IH [OF projection_invariant_step [OF Cons.prems]] show ?case by simp
qed simp

lemma projection_final:
  obtains st where "projection_invariant sha repr (sort_key claim_id claims) st"
    and "project_claims sha repr claims =
      \<lparr>proj_capabilities = sort_key cap_id (ps_capabilities st),
       proj_edges = sort_key edge_id (dvalues (ps_edges st)),
       proj_nodes = sort_key g_entity_id (dvalues (ps_nodes st)),
       proj_entities = ps_entities st\<rparr>"
proof -
  have "projection_invariant sha repr []
      \<lparr>ps_capabilities = [], ps_edges = [], ps_nodes = [], ps_entities = []\<rparr>"
    by (simp add: projection_invariant_def)
  from projection_invariant_fold [OF this, of "sort_key claim_id claims"] that show ?thesis
    by (simp add: project_claims_def Let_def)
qed

lemma values_keyed: "\<forall>(k, x) \<in> set d. k = key x \<Longrightarrow> key ` set (dvalues d) = fst ` set d"
  by (force simp: image_iff)

text \<open>
  C13: The projection boundary. The claims recorded as having produced something are exactly
  those whose predicate has a projector, is one the registry permits to project, and whose
  claim is in no conflict, possible or confirmed.
\<close>
theorem projection_gate:
  "fst ` set (proj_entities (project_claims sha repr claims)) =
     claim_id ` {c \<in> set claims. claim_predicate c \<in> set projected_predicates \<and>
       is_projectable (claim_predicate c) \<and> claim_conflict_status c = conflict_none \<and>
       conflict_ids c = []}"
proof -
  have e: "eligible_for_canonical_projection c \<longleftrightarrow> is_projectable (claim_predicate c) \<and>
      claim_conflict_status c = conflict_none \<and> conflict_ids c = []" for c
    by (cases "claim_conflict_status c")
      (auto simp: eligible_for_canonical_projection_def projection_ineligibility_def
        projection_withheld_conflict_statuses_def)
  obtain st where "projection_invariant sha repr (sort_key claim_id claims) st"
    and p: "proj_entities (project_claims sha repr claims) = ps_entities st"
    by (rule projection_final [of sha repr claims]) simp
  from projection_invariantD(1) [OF this(1)] show ?thesis
    unfolding p projects_iff e by (auto simp: conj_ac)
qed

text \<open>
  External identities stay external. Every projected node is a labelled package, contract or
  repository reference, never a \<open>repo:\<close> identity; every endpoint of a projected edge is the
  subject of some claim or one of those nodes; and a projected capability is implemented or
  exposed by claim subjects only.
\<close>
theorem projection_external:
  "list_all (\<lambda>n. external_node (g_entity_id n) \<and> \<not> prefix ''repo:'' (g_entity_id n))
     (proj_nodes (project_claims sha repr claims)) \<and>
   list_all (\<lambda>e. {edge_source e, edge_target e} \<subseteq> claim_subject ` set claims \<union>
       g_entity_id ` set (proj_nodes (project_claims sha repr claims)))
     (proj_edges (project_claims sha repr claims)) \<and>
   list_all (\<lambda>k. set (implemented_by k @ exposed_by k) \<subseteq> claim_subject ` set claims)
     (proj_capabilities (project_claims sha repr claims))"
proof -
  obtain st where inv: "projection_invariant sha repr (sort_key claim_id claims) st"
    and p: "project_claims sha repr claims =
      \<lparr>proj_capabilities = sort_key cap_id (ps_capabilities st),
       proj_edges = sort_key edge_id (dvalues (ps_edges st)),
       proj_nodes = sort_key g_entity_id (dvalues (ps_nodes st)),
       proj_entities = ps_entities st\<rparr>"
    by (rule projection_final)
  have "g_entity_id ` set (dvalues (ps_nodes st)) = fst ` set (ps_nodes st)"
    by (rule values_keyed) (use projection_invariantD(3) [OF inv] in auto)
  note n = this
  show ?thesis
    unfolding p list_all_iff claim_projection.simps set_sort n
  proof (intro conjI ballI)
    fix x assume "x \<in> set (dvalues (ps_nodes st))"
    then obtain k where "(k, x) \<in> set (ps_nodes st)" by auto
    from projection_invariantD(3) [OF inv this]
    show "external_node (g_entity_id x)" and "\<not> prefix ''repo:'' (g_entity_id x)"
      using external_not_repository by auto
  next
    fix e assume "e \<in> set (dvalues (ps_edges st))"
    then obtain k where "(k, e) \<in> set (ps_edges st)" by auto
    from projection_invariantD(2) [OF inv this]
    show "{edge_source e, edge_target e} \<subseteq> claim_subject ` set claims \<union> fst ` set (ps_nodes st)"
      by simp
  next
    fix k assume "k \<in> set (ps_capabilities st)"
    from projection_invariantD(4) [OF inv this]
    show "set (implemented_by k @ exposed_by k) \<subseteq> claim_subject ` set claims" by simp
  qed
qed

text \<open>
  C34: After stamping, a claim is marked projected only if it is in no conflict and its predicate
  may project, and every entity it names as produced is one of the projection's capabilities,
  edges or nodes. Claim identities are assumed distinct, as the validator requires.
\<close>
theorem projected_claims_sound:
  assumes "distinct (map claim_id claims)"
  shows "list_all (\<lambda>c. projected c \<longrightarrow>
      claim_conflict_status c = conflict_none \<and> conflict_ids c = [] \<and>
      is_projectable (claim_predicate c) \<and>
      set (projected_entity_ids c) \<subseteq>
        cap_id ` set (proj_capabilities (project_claims sha repr claims)) \<union>
        edge_id ` set (proj_edges (project_claims sha repr claims)) \<union>
        g_entity_id ` set (proj_nodes (project_claims sha repr claims)))
    (apply_projection claims (proj_entities (project_claims sha repr claims)))"
proof -
  obtain st where inv: "projection_invariant sha repr (sort_key claim_id claims) st"
    and p: "project_claims sha repr claims =
      \<lparr>proj_capabilities = sort_key cap_id (ps_capabilities st),
       proj_edges = sort_key edge_id (dvalues (ps_edges st)),
       proj_nodes = sort_key g_entity_id (dvalues (ps_nodes st)),
       proj_entities = ps_entities st\<rparr>"
    by (rule projection_final)
  have k: "g_entity_id ` set (dvalues (ps_nodes st)) = fst ` set (ps_nodes st)"
    "edge_id ` set (dvalues (ps_edges st)) = fst ` set (ps_edges st)"
    using projection_invariantD(2,3) [OF inv] by (intro values_keyed; force)+
  have ids: "set ids \<subseteq> cap_id ` set (ps_capabilities st) \<union> edge_id ` set (dvalues (ps_edges st)) \<union>
      g_entity_id ` set (dvalues (ps_nodes st))" if "dget (ps_entities st) i = Some ids" for i ids
    using projection_invariantD(5) [OF inv map_of_SomeD [OF that]] by (simp only: k)
  have gate: "claim_conflict_status c = conflict_none \<and> conflict_ids c = [] \<and>
      is_projectable (claim_predicate c)"
    if "c \<in> set claims" "dget (ps_entities st) (claim_id c) = Some ids" for c ids
  proof -
    have "claim_id c \<in> fst ` set (ps_entities st)" using map_of_SomeD [OF that(2)] by force
    with projection_invariantD(1) [OF inv]
    obtain c' where c': "c' \<in> set claims" "projects sha repr c'" "claim_id c' = claim_id c" by auto
    with assms that(1) have "c' = c" by (simp add: distinct_map inj_on_def)
    with c' have "eligible_for_canonical_projection c" by (simp add: projects_iff)
    then show ?thesis
      by (cases "claim_conflict_status c")
        (auto simp: eligible_for_canonical_projection_def projection_ineligibility_def
          projection_withheld_conflict_statuses_def split: if_splits)
  qed
  have "claim_conflict_status c = conflict_none \<and> conflict_ids c = [] \<and>
      is_projectable (claim_predicate c) \<and> set (projected_entity_ids c) \<subseteq>
        cap_id ` set (ps_capabilities st) \<union> edge_id ` set (dvalues (ps_edges st)) \<union>
        g_entity_id ` set (dvalues (ps_nodes st))"
    if c: "c \<in> set (apply_projection claims (ps_entities st))" and pr: "projected c" for c
  proof -
    from c obtain c0 where c0: "c0 \<in> set claims" and eq: "c = c0\<lparr>projected :=
        dget (ps_entities st) (claim_id c0) \<noteq> None,
        projected_entity_ids := dget_default [] (ps_entities st) (claim_id c0)\<rparr>"
      by (auto simp: apply_projection_def)
    with pr obtain i where i: "dget (ps_entities st) (claim_id c0) = Some i" by auto
    with gate [OF c0 i] ids [OF i] eq show ?thesis by (simp add: dget_default_def)
  qed
  then show ?thesis
    by (simp only: p list_all_iff claim_projection.simps set_sort) blast
qed

definition sample_claim :: "string \<Rightarrow> conflict_status \<Rightarrow> semantic_claim" where
  "sample_claim obj status =
     \<lparr>claim_id = obj, claim_subject = ''repo:a'', claim_predicate = ''package.dependency'',
      claim_object = obj, source_assertion_ids = [], claim_evidence_refs = [''e1''],
      claim_confidence = confidence_unknown, claim_authority = auth_unknown,
      claim_cardinality = card_set, claim_support = support_set, claim_conflict_status = status,
      conflict_ids = [], projected = False, projected_entity_ids = []\<rparr>"

theorem projected_claims_sound_witness:
  "distinct (map claim_id [sample_claim ''x'' conflict_none, sample_claim ''y'' conflict_possible]) \<and>
   list_all (\<lambda>c. projected c \<longrightarrow> claim_conflict_status c = conflict_none \<and>
       is_projectable (claim_predicate c))
     (apply_projection [sample_claim ''x'' conflict_none, sample_claim ''y'' conflict_possible]
       (proj_entities (project_claims id id
         [sample_claim ''x'' conflict_none, sample_claim ''y'' conflict_possible])))"
proof
  show d: "distinct (map claim_id
      [sample_claim ''x'' conflict_none, sample_claim ''y'' conflict_possible])"
    by (simp add: sample_claim_def)
  from projected_claims_sound [OF d, of id id]
  show "list_all (\<lambda>c. projected c \<longrightarrow> claim_conflict_status c = conflict_none \<and>
       is_projectable (claim_predicate c))
     (apply_projection [sample_claim ''x'' conflict_none, sample_claim ''y'' conflict_possible]
       (proj_entities (project_claims id id
         [sample_claim ''x'' conflict_none, sample_claim ''y'' conflict_possible])))"
    by (simp only: list_all_iff) blast
qed

end
