(* ===== verification/CorpusScope.thy ===== *)
theory CorpusScope
  imports PacketEvidence GraphBuilder
begin

text \<open>
  Corpora and roots above repositories (\<open>topology/corpus_model.py\<close>), and readiness measurements
  (\<open>topology/readiness.py\<close>): counts carried across, with a confidence that is never source
  authority.
\<close>

subsection \<open>Scope records\<close>

definition root_record_of :: "corpus_root_ref \<Rightarrow> root_record" where
  "root_record_of r =
     \<lparr>root_id = root_ref_id r, root_class = root_ref_class r, root_revision = root_ref_revision r,
      root_packet_id = pr_packet_id (root_ref_packet r), root_repository = root_ref_repository r,
      root_evidence_refs = [], root_conf = root_confidence (root_ref_class r)\<rparr>"

definition corpus_record_of :: "corpus_packet \<Rightarrow> corpus_record" where
  "corpus_record_of p =
     (let d = cp_corpus p in
      \<lparr>corpus_id = desc_corpus_id d, corpus_snapshot_id = desc_snapshot_id d,
       corpus_analysis_id = desc_analysis_id d,
       corpus_root_ids = sort (map root_ref_id (desc_roots d)), coverage_ref = Some (cp_id p),
       corpus_evidence_refs = [], corpus_conf = corpus_confidence\<rparr>)"

text \<open>The first packet that names a root decides its record.\<close>

definition packet_roots :: "corpus_packet list \<Rightarrow> corpus_root_ref list" where
  "packet_roots ps = concat (map (\<lambda>p. desc_roots (cp_corpus p)) ps)"

definition compile_corpus_scope :: "corpus_packet list \<Rightarrow> corpus_record list \<times> root_record list" where
  "compile_corpus_scope ps =
     (let roots = fold (\<lambda>r. dsetdefault (root_ref_id r) (root_record_of r)) (packet_roots ps) [] in
      (sort_key corpus_id (map corpus_record_of ps), sort_key root_id (dvalues roots)))"

definition stamp_scope ::
  "(ident, ident list) dict \<Rightarrow> corpus_record list \<times> root_record list \<Rightarrow>
   corpus_record list \<times> root_record list" where
  "stamp_scope refs q = (case q of (cs, rs) \<Rightarrow>
     (map (\<lambda>c. c\<lparr>corpus_evidence_refs := dget_default [] refs (corpus_id c)\<rparr>) cs,
      map (\<lambda>r. r\<lparr>root_evidence_refs := dget_default [] refs (root_id r)\<rparr>) rs))"

subsection \<open>Scope graph\<close>

definition containment_edge ::
  "(string \<Rightarrow> string) \<Rightarrow> ident \<Rightarrow> ident \<Rightarrow> confidence_assessment \<Rightarrow> ident list \<Rightarrow> edge_record" where
  "containment_edge sha s t conf refs =
     \<lparr>edge_id = stable_id sha ''edge'' (graph_edge_identity s t CONTAINS []),
      edge_source = s, edge_target = t, edge_type_of = CONTAINS, edge_direction = outbound,
      edge_properties = [], edge_evidence_refs = refs, edge_confidence = conf\<rparr>"

definition corpus_node :: "corpus_record \<Rightarrow> graph_record" where
  "corpus_node c =
     \<lparr>g_record_type = rt_node, g_label = ''Corpus'', g_entity_id = corpus_id c,
      g_properties =
        [(''corpus_source_snapshot_id'', PStr (corpus_snapshot_id c)),
         (''corpus_analysis_id'', PStr (corpus_analysis_id c)),
         (''root_ids'', py_strs (corpus_root_ids c)),
         (''coverage_ref'', py_opt PStr (coverage_ref c))],
      g_evidence_refs = corpus_evidence_refs c, g_confidence = corpus_conf c\<rparr>"

definition root_node :: "root_record \<Rightarrow> graph_record" where
  "root_node r =
     \<lparr>g_record_type = rt_node, g_label = ''Root'', g_entity_id = root_id r,
      g_properties =
        [(''identity_class'', PStr (root_class_value (root_class r))),
         (''source_revision'', PStr (root_revision r)),
         (''repository_model_packet_id'', PStr (root_packet_id r)),
         (''repository_id'', py_opt PStr (root_repository r))],
      g_evidence_refs = root_evidence_refs r, g_confidence = root_conf r\<rparr>"

definition scope_edges ::
  "(string \<Rightarrow> string) \<Rightarrow> corpus_record list \<Rightarrow> root_record list \<Rightarrow> edge_record list" where
  "scope_edges sha cs rs =
     concat (map (\<lambda>c. map (\<lambda>r. containment_edge sha (corpus_id c) r (corpus_conf c)
       (corpus_evidence_refs c)) (corpus_root_ids c)) cs) @
     concat (map (\<lambda>r. case root_repository r of
         None \<Rightarrow> []
       | Some k \<Rightarrow> [containment_edge sha (root_id r) k (root_conf r) (root_evidence_refs r)]) rs)"

definition corpus_scope_graph ::
  "(string \<Rightarrow> string) \<Rightarrow> corpus_record list \<times> root_record list \<Rightarrow>
   graph_record list \<times> edge_record list" where
  "corpus_scope_graph sha q = (case q of (cs, rs) \<Rightarrow>
     (sort_key g_entity_id (map corpus_node cs @ map root_node rs),
      sort_key edge_id (dvalues (index_by edge_id (scope_edges sha cs rs)))))"

definition root_by_artifact ::
  "corpus_packet list \<Rightarrow> (ident, ident) dict \<Rightarrow> (ident, ident) dict" where
  "root_by_artifact ps artifact_repository =
     (let by_repository = fold (\<lambda>r d. case root_ref_repository r of
              None \<Rightarrow> d | Some k \<Rightarrow> dsetdefault k (root_ref_id r) d) (packet_roots ps) [] in
      List.map_filter (\<lambda>(a, k). map_option (Pair a) (dget by_repository k)) artifact_repository)"

subsection \<open>Readiness\<close>

definition measured_total :: "readiness_counts \<Rightarrow> nat" where
  "measured_total c =
     n_source_artifacts c + n_test_artifacts c + n_build_manifests c + n_ci_definitions c +
     n_deployment_definitions c + n_specifications c + n_documentation c + n_coverage_gaps c"

text \<open>
  The ratio of two counts exceeds a tenth. The code divides in double precision and compares
  with the double nearest to a tenth; for counts below \<open>2 ^ 50\<close> the quotient, correctly rounded,
  is on the same side, because a quotient other than a tenth differs from it by more than the
  rounding error.
\<close>

definition thin_coverage :: "readiness_counts \<Rightarrow> bool" where
  "thin_coverage c \<longleftrightarrow> measured_total c < 10 * n_coverage_gaps c"

definition readiness_confidence :: "readiness_counts \<Rightarrow> confidence_assessment" where
  "readiness_confidence c =
     \<lparr>level = (if thin_coverage c then level_low else level_medium),
      evidence_strength = (if thin_coverage c then strength_weak else strength_corroborated),
      derivation_method = method_deterministic, conf_authority = auth_derived,
      completeness = (if thin_coverage c then comp_partial else comp_sufficient),
      conf_conflict_status = conflict_none\<rparr>"

definition readiness_record_of :: "readiness_measurement \<Rightarrow> readiness_record" where
  "readiness_record_of m =
     \<lparr>rd_id = rm_id m, rd_subject = rm_subject m, rd_profile_id = rm_profile_id m,
      rd_profile_version = rm_profile_version m, rd_counts = rm_counts m,
      rd_evidence_refs = usort (rm_evidence_refs m), rd_conf = readiness_confidence (rm_counts m)\<rparr>"

definition compile_readiness_evidence :: "corpus_packet \<Rightarrow> readiness_record list" where
  "compile_readiness_evidence p = (case cp_payload p of
       None \<Rightarrow> []
     | Some l \<Rightarrow> sort_key rd_id (map readiness_record_of (readiness_measurements l)))"

definition readiness_by_subject :: "readiness_record list \<Rightarrow> (ident, ident) dict" where
  "readiness_by_subject rs = fold (\<lambda>r. dsetdefault (rd_subject r) (rd_id r)) rs []"

end
