(* ===== verification/Candidates.thy ===== *)
theory Candidates
  imports CorpusScope
begin

text \<open>
  Candidate relations and clusters, \<open>topology/candidates.py\<close>: what a corpus analysis proposes,
  measured against the compiled graph and graded downward only. Unordered endpoint pairs, which
  the code keeps as frozen sets, are ordered pairs of \<open>canonical_pair\<close>.
\<close>

definition status_predicate :: string where
  "status_predicate = ''work.status''"

definition kind_predicate :: string where
  "kind_predicate = ''work.kind''"

fun level_by_class :: "confidence_class \<Rightarrow> confidence_level" where
  "level_by_class weak = level_low"
| "level_by_class moderate = level_low"
| "level_by_class strong = level_medium"

definition candidate_confidence :: "confidence_class \<Rightarrow> bool \<Rightarrow> confidence_assessment" where
  "candidate_confidence c conflicted =
     \<lparr>level = level_by_class c, evidence_strength = strength_weak,
      derivation_method = method_heuristic, conf_authority = auth_candidate,
      completeness = comp_partial,
      conf_conflict_status = (if conflicted then conflict_possible else conflict_none)\<rparr>"

definition profile_label :: "analysis_profile_ref \<Rightarrow> string" where
  "profile_label p = ap_id p @ ''/'' @ ap_version p"

definition candidate_relation_of :: "semantic_pair_relation \<Rightarrow> candidate_relation" where
  "candidate_relation_of r =
     \<lparr>crel_id = pair_id r, crel_source = pair_source r, crel_target = pair_target r,
      crel_methods = usort (pair_methods r), crel_scores = sort_key fst (pair_scores r),
      crel_evidence_refs = usort (pair_evidence_refs r), crel_class = pair_class r,
      crel_profile = profile_label (pair_profile r), crel_upstream = pair_upstream r,
      crel_conf = candidate_confidence (pair_class r) False\<rparr>"

definition compile_candidate_relations :: "corpus_packet \<Rightarrow> candidate_relation list" where
  "compile_candidate_relations p = (case cp_payload p of
       None \<Rightarrow> []
     | Some l \<Rightarrow> sort_key crel_id (map candidate_relation_of (pair_relations l)))"

subsection \<open>The structural index\<close>

record structural_index =
  ix_repositories :: "(ident, ident) dict"
  ix_capabilities :: "(ident, ident list) dict"
  ix_archived :: "ident list"
  ix_roots :: "(ident, ident) dict"
  ix_pairs :: "(edge_type, (ident \<times> ident) list) dict"
  ix_external :: "ident list"
  ix_claims :: "(ident, semantic_claim list) dict"
  ix_conflicted :: "ident list"

fun contains_substring :: "string \<Rightarrow> string \<Rightarrow> bool" where
  "contains_substring needle [] \<longleftrightarrow> needle = []"
| "contains_substring needle (c # s) \<longleftrightarrow>
     startswith (c # s) needle \<or> contains_substring needle s"

definition structural_index_of ::
  "artifact_record list \<Rightarrow> edge_record list \<Rightarrow> semantic_claim list \<Rightarrow> conflict_record list \<Rightarrow>
   (ident, ident) dict \<Rightarrow> structural_index" where
  "structural_index_of arts edges claims confs roots =
     \<lparr>ix_repositories = fold (\<lambda>a. dput (art_id a) (art_repository_id a)) arts [],
      ix_capabilities = fold (\<lambda>a. dput (art_id a) (art_capabilities a)) arts [],
      ix_archived = map art_id (filter (\<lambda>a. contains_substring ''!/'' (art_source_path a)) arts),
      ix_roots = roots,
      ix_pairs = map (\<lambda>(t, ps). (t, remdups ps))
        (group_map edge_type_of (\<lambda>e. canonical_pair (edge_source e) (edge_target e)) edges),
      ix_external = remdups (map edge_target (filter (\<lambda>e. edge_type_of e = DEPENDS_ON \<and>
        startswith (edge_target e) ''package:'') edges)),
      ix_claims = group_by claim_subject claims,
      ix_conflicted = map conf_subject (filter (\<lambda>c. conf_field c \<in>
        {status_predicate, kind_predicate}) confs)\<rparr>"

definition pairs_of :: "structural_index \<Rightarrow> edge_type \<Rightarrow> (ident \<times> ident) list" where
  "pairs_of ix t = dget_default [] (ix_pairs ix) t"

definition internal_pairs :: "structural_index \<Rightarrow> edge_type \<Rightarrow> ident list \<Rightarrow> nat" where
  "internal_pairs ix t members =
     length (filter (\<lambda>(x, y). x \<noteq> y \<and> x \<in> set members \<and> y \<in> set members) (pairs_of ix t))"

definition subjects_for :: "structural_index \<Rightarrow> ident list \<Rightarrow> ident list" where
  "subjects_for ix members =
     remdups (members @ map snd (filter (\<lambda>(a, k). a \<in> set members) (ix_repositories ix)))"

definition declared_claims :: "structural_index \<Rightarrow> ident list \<Rightarrow> string \<Rightarrow> semantic_claim list" where
  "declared_claims ix subjects predicate =
     filter (\<lambda>c. claim_predicate c = predicate)
       (concat (map (dget_default [] (ix_claims ix)) (sort subjects)))"

definition distribution :: "structural_index \<Rightarrow> ident list \<Rightarrow> string \<Rightarrow> (string, nat) dict" where
  "distribution ix subjects predicate =
     (let objects = map claim_object (declared_claims ix subjects predicate) in
      map (\<lambda>x. (x, count_list objects x)) (usort objects))"

definition touches :: "ident list \<Rightarrow> ident \<times> ident \<Rightarrow> bool" where
  "touches members q \<longleftrightarrow> fst q \<in> set members \<or> snd q \<in> set members"

definition structural_evidence_of :: "structural_index \<Rightarrow> candidate_cluster \<Rightarrow> structural_evidence" where
  "structural_evidence_of ix c =
     (let members = remdups (cc_members c); subjects = subjects_for ix members;
          known = List.map_filter (dget (ix_repositories ix)) members in
      \<lparr>member_count = length members,
       repository_count = length (remdups known),
       root_count = length (remdups (List.map_filter (dget (ix_roots ix)) members)),
       archive_member_count = length (filter (\<lambda>m. m \<in> set (ix_archived ix)) members),
       internal_duplicates = internal_pairs ix DUPLICATE_OF members,
       internal_references = internal_pairs ix REFERENCES members,
       internal_dependencies = internal_pairs ix DEPENDS_ON members,
       internal_supersessions = internal_pairs ix SUPERSEDES members,
       blocker_count = length (filter (touches members) (pairs_of ix BLOCKED_BY)),
       status_distribution = distribution ix subjects status_predicate,
       kind_distribution = distribution ix subjects kind_predicate,
       conflicting_status_count = length (filter (\<lambda>s. s \<in> set (ix_conflicted ix)) subjects),
       capability_count = length (remdups (concat (map (dget_default [] (ix_capabilities ix)) members))),
       external_dependency_count = length (filter (\<lambda>t. list_ex (\<lambda>q. (fst q = t \<or> snd q = t) \<and>
          touches members q) (pairs_of ix DEPENDS_ON)) (ix_external ix))\<rparr>)"

definition ambiguity_flags_of :: "candidate_cluster \<Rightarrow> structural_evidence \<Rightarrow> string list" where
  "ambiguity_flags_of c e =
     usort (cc_flags c @
       (if conflicting_status_count e \<noteq> 0 \<or> 1 < length (status_distribution e)
        then [ambiguity_conflicting_status] else []) @
       (if 1 < member_count e \<and> structural_support_count e = 0
        then [ambiguity_disconnected] else []) @
       (if 1 < root_count e then [ambiguity_cross_root] else []))"

definition graded_class :: "confidence_class \<Rightarrow> string list \<Rightarrow> confidence_class" where
  "graded_class c flags =
     (if ambiguity_conflicting_status \<in> set flags then weaken_to c weak
      else if ambiguity_disconnected \<in> set flags then weaken_to c moderate else c)"

definition cluster_record_of ::
  "structural_index \<Rightarrow> (ident, ident) dict \<Rightarrow> candidate_cluster \<Rightarrow> cluster_record" where
  "cluster_record_of ix readiness c =
     (let e = structural_evidence_of ix c; flags = ambiguity_flags_of c e;
          cls = graded_class (cc_class c) flags in
      \<lparr>cl_id = cc_id c, cl_type = cc_type c, cl_members = usort (cc_members c),
       cl_relations = usort (cc_relations c), cl_evidence_refs = usort (cc_evidence_refs c),
       cl_class = cls, cl_flags = flags, cl_cross_root = (1 < root_count e \<or> cc_cross_root c),
       cl_cross_archive = cc_cross_archive c, cl_profile = profile_label (cc_profile c),
       cl_upstream = (case cc_upstream c of
           Some (x # xs) \<Rightarrow> Some (x # xs) | _ \<Rightarrow> Some (cc_id c)),
       cl_structure = e, cl_readiness = dget readiness (cc_id c),
       cl_conf = candidate_confidence cls (ambiguity_conflicting_status \<in> set flags)\<rparr>)"

definition compile_candidate_clusters ::
  "structural_index \<Rightarrow> (ident, ident) dict \<Rightarrow> corpus_packet \<Rightarrow> cluster_record list" where
  "compile_candidate_clusters ix readiness p = (case cp_payload p of
       None \<Rightarrow> []
     | Some l \<Rightarrow> sort_key cl_id (map (cluster_record_of ix readiness) (all_candidates l)))"

subsection \<open>The graph projection\<close>

definition cluster_node :: "cluster_record \<Rightarrow> graph_record" where
  "cluster_node c =
     \<lparr>g_record_type = rt_node, g_label = ''CandidateCluster'', g_entity_id = cl_id c,
      g_properties =
        [(''canonical'', PBool False), (''candidate_type'', PStr (candidate_type_value (cl_type c))),
         (''confidence_class'', PStr (confidence_class_value (cl_class c))),
         (''member_entity_ids'', py_strs (cl_members c)),
         (''member_count'', PInt (int (member_count (cl_structure c)))),
         (''structural_support_count'', PInt (int (structural_support_count (cl_structure c)))),
         (''ambiguity_flags'', py_strs (cl_flags c)), (''cross_root'', PBool (cl_cross_root c)),
         (''analysis_profile'', PStr (cl_profile c))],
      g_evidence_refs = cl_evidence_refs c, g_confidence = cl_conf c\<rparr>"

definition relation_node :: "candidate_relation \<Rightarrow> graph_record" where
  "relation_node r =
     \<lparr>g_record_type = rt_node, g_label = ''CandidateRelation'', g_entity_id = crel_id r,
      g_properties =
        [(''canonical'', PBool False), (''source_artifact_id'', PStr (crel_source r)),
         (''target_artifact_id'', PStr (crel_target r)),
         (''confidence_class'', PStr (confidence_class_value (crel_class r))),
         (''methods'', py_strs (crel_methods r)), (''analysis_profile'', PStr (crel_profile r))],
      g_evidence_refs = crel_evidence_refs r, g_confidence = crel_conf r\<rparr>"

definition candidate_graph_records ::
  "candidate_relation list \<Rightarrow> cluster_record list \<Rightarrow> graph_record list" where
  "candidate_graph_records rels cls =
     sort_key g_entity_id (map cluster_node cls @ map relation_node rels)"

subsection \<open>Grading moves downward only\<close>

lemma weaken_to_le: "weaken_to c d \<le> c"
  by (simp add: weaken_to_def)

lemma graded_class_le: "graded_class c flags \<le> c"
  by (simp add: graded_class_def weaken_to_le)

lemma level_by_class_mono: "c \<le> d \<Longrightarrow> level_by_class c \<le> level_by_class d"
  by (cases c; cases d) (simp_all add: less_eq_confidence_class_def rank_defs)

lemma cluster_record_of_simps [simp]:
  "cl_id (cluster_record_of ix rd c) = cc_id c"
  "cl_type (cluster_record_of ix rd c) = cc_type c"
  "cl_class (cluster_record_of ix rd c) = graded_class (cc_class c)
     (ambiguity_flags_of c (structural_evidence_of ix c))"
  "cl_flags (cluster_record_of ix rd c) = ambiguity_flags_of c (structural_evidence_of ix c)"
  "cl_conf (cluster_record_of ix rd c) = candidate_confidence
     (graded_class (cc_class c) (ambiguity_flags_of c (structural_evidence_of ix c)))
     (ambiguity_conflicting_status \<in> set (ambiguity_flags_of c (structural_evidence_of ix c)))"
  "cl_structure (cluster_record_of ix rd c) = structural_evidence_of ix c"
  "set (cl_members (cluster_record_of ix rd c)) = set (cc_members c)"
  by (simp_all add: cluster_record_of_def Let_def)

definition packet_candidates :: "corpus_packet \<Rightarrow> candidate_cluster list" where
  "packet_candidates p = (case cp_payload p of None \<Rightarrow> [] | Some l \<Rightarrow> all_candidates l)"

lemma compile_candidate_clusters_eq:
  "compile_candidate_clusters ix rd p =
     sort_key cl_id (map (cluster_record_of ix rd) (packet_candidates p))"
  by (simp add: compile_candidate_clusters_def packet_candidates_def split: option.split)

text \<open>
  C29: Topology never raises a candidate. Every compiled cluster is one of the producer's
  candidates, none is lost, its class is at most the producer's and its confidence level at most
  what that class supports, it keeps every ambiguity flag the producer raised, and its authority
  is that of a candidate whatever the structure says.
\<close>
theorem candidates_never_raised:
  "mset (map cl_id (compile_candidate_clusters ix rd p)) = mset (map cc_id (packet_candidates p)) \<and>
   list_all (\<lambda>r. list_ex (\<lambda>c. cl_id r = cc_id c \<and> cl_type r = cc_type c \<and>
       cl_class r \<le> cc_class c \<and> level (cl_conf r) \<le> level_by_class (cc_class c) \<and>
       conf_authority (cl_conf r) = auth_candidate \<and> set (cc_flags c) \<subseteq> set (cl_flags r) \<and>
       cl_structure r = structural_evidence_of ix c) (packet_candidates p))
     (compile_candidate_clusters ix rd p)"
proof -
  have "level (cl_conf (cluster_record_of ix rd c)) \<le> level_by_class (cc_class c)" for c
    by (simp add: candidate_confidence_def level_by_class_mono graded_class_le)
  moreover have "x \<in> set (cc_flags c) \<Longrightarrow> x \<in> set (ambiguity_flags_of c e)" for c x e
    by (simp add: ambiguity_flags_of_def)
  ultimately have each: "list_ex (\<lambda>c. cl_id r = cc_id c \<and> cl_type r = cc_type c \<and>
       cl_class r \<le> cc_class c \<and> level (cl_conf r) \<le> level_by_class (cc_class c) \<and>
       conf_authority (cl_conf r) = auth_candidate \<and> set (cc_flags c) \<subseteq> set (cl_flags r) \<and>
       cl_structure r = structural_evidence_of ix c) (packet_candidates p)"
    if "r \<in> cluster_record_of ix rd ` set (packet_candidates p)" for r
    using that by (auto simp: list_ex_iff graded_class_le candidate_confidence_def
        intro!: bexI [rotated])
  have "image_mset cl_id (image_mset (cluster_record_of ix rd) m) = image_mset cc_id m" for m
    by (simp add: multiset.map_comp comp_def)
  then show ?thesis
    using each by (simp add: compile_candidate_clusters_eq list_all_iff)
qed

subsection \<open>What the counts count\<close>

lemma pairs_of_index:
  "set (pairs_of (structural_index_of arts edges claims confs roots) t) =
     (\<lambda>e. canonical_pair (edge_source e) (edge_target e)) ` {e \<in> set edges. edge_type_of e = t}"
  "distinct (pairs_of (structural_index_of arts edges claims confs roots) t)"
proof -
  have d: "dget_default [] (map (\<lambda>(t, ps). (t, remdups ps)) d) t = remdups (dget_default [] d t)"
    for d :: "(edge_type, (ident \<times> ident) list) dict"
    by (simp add: dget_default_def map_of_map split: option.split)
  have "pairs_of (structural_index_of arts edges claims confs roots) t =
      remdups (map (\<lambda>e. canonical_pair (edge_source e) (edge_target e))
        (filter (\<lambda>e. edge_type_of e = t) edges))"
    by (simp add: pairs_of_def structural_index_of_def d dget_group_map)
  then show "set (pairs_of (structural_index_of arts edges claims confs roots) t) =
     (\<lambda>e. canonical_pair (edge_source e) (edge_target e)) ` {e \<in> set edges. edge_type_of e = t}"
    and "distinct (pairs_of (structural_index_of arts edges claims confs roots) t)" by simp_all
qed

definition joined_inside :: "edge_record list \<Rightarrow> edge_type \<Rightarrow> ident list \<Rightarrow> ident set set" where
  "joined_inside edges t members =
     (\<lambda>e. {edge_source e, edge_target e}) ` {e \<in> set edges. edge_type_of e = t \<and>
        edge_source e \<noteq> edge_target e \<and> {edge_source e, edge_target e} \<subseteq> set members}"

lemma canonical_pair_set: "{fst (canonical_pair x y), snd (canonical_pair x y)} = {x, y}"
  by (auto simp: canonical_pair_def)

lemma ordered_pairs_inj: "inj_on (\<lambda>q. {fst q, snd q}) {q :: string \<times> string. fst q \<le> snd q}"
  by (auto simp: inj_on_def doubleton_eq_iff)

lemma canonical_pair_ordered: "fst (canonical_pair x y) \<le> snd (canonical_pair x y)"
  by (auto simp: canonical_pair_def)

lemma internal_pairs_card:
  "internal_pairs (structural_index_of arts edges claims confs roots) t members =
     card (joined_inside edges t members)"
proof -
  let ?ix = "structural_index_of arts edges claims confs roots"
  let ?f = "\<lambda>e. canonical_pair (edge_source e) (edge_target e)"
  let ?E = "{e \<in> set edges. edge_type_of e = t \<and> edge_source e \<noteq> edge_target e \<and>
      {edge_source e, edge_target e} \<subseteq> set members}"
  have "internal_pairs ?ix t members =
      card {q \<in> set (pairs_of ?ix t). fst q \<noteq> snd q \<and> fst q \<in> set members \<and> snd q \<in> set members}"
    by (simp add: internal_pairs_def case_prod_unfold distinct_card [symmetric] pairs_of_index(2))
  also have "{q \<in> set (pairs_of ?ix t). fst q \<noteq> snd q \<and> fst q \<in> set members \<and> snd q \<in> set members}
      = ?f ` ?E"
    by (auto simp: pairs_of_index(1) canonical_pair_def split: if_splits)
  also have "card (?f ` ?E) = card ((\<lambda>q. {fst q, snd q}) ` ?f ` ?E)"
    by (rule card_image [symmetric], rule inj_on_subset [OF ordered_pairs_inj])
      (auto simp: canonical_pair_ordered)
  also have "(\<lambda>q. {fst q, snd q}) ` ?f ` ?E = joined_inside edges t members"
    by (simp add: image_image canonical_pair_set joined_inside_def)
  finally show ?thesis .
qed

text \<open>
  The structural counts of a cluster are the numbers of unordered pairs of distinct members
  that some compiled edge of the type joins, whichever way the edges point and however often they
  repeat: duplicates, references, dependencies and supersessions.
\<close>
theorem structural_counts_exact:
  "structural_support_count (structural_evidence_of
       (structural_index_of arts edges claims confs roots) c) =
     (\<Sum>t \<leftarrow> [DUPLICATE_OF, REFERENCES, DEPENDS_ON, SUPERSEDES].
        card (joined_inside edges t (cc_members c))) \<and>
   member_count (structural_evidence_of (structural_index_of arts edges claims confs roots) c) =
     card (set (cc_members c))"
proof -
  have "joined_inside edges t (remdups ms) = joined_inside edges t ms" for t ms
    by (simp add: joined_inside_def)
  then show ?thesis
    by (simp add: structural_evidence_of_def Let_def structural_support_count_def
        internal_pairs_card length_remdups_card_conv)
qed

end
