(* ===== verification/WorkProjection.thy ===== *)
theory WorkProjection
  imports ClaimProjection
begin

text \<open>
  Projection of explicit work relations, \<open>topology/work_projection.py\<close>: exact resolution of the
  targets documents name against the observed artifacts, and the edges, reference nodes and
  unknowns each eligible claim yields.
\<close>

definition work_reference_prefix :: string where
  "work_reference_prefix = ''work-reference''"

definition archive_member_separator :: string where
  "archive_member_separator = ''!/''"

definition ambiguous_target_reason :: string where
  "ambiguous_target_reason =
     ''an explicit work relation named a target that matches more than one observed '' @
     ''artifact, so it was preserved as an external reference rather than resolved to '' @
     ''one of them by guessing''"

definition work_edge_projections :: "(string, edge_type \<times> bool) dict" where
  "work_edge_projections =
     [(''work.depends_on'', (DEPENDS_ON, False)), (''work.blocked_by'', (BLOCKED_BY, False)),
      (''work.references'', (REFERENCES, False)), (''work.supersedes'', (SUPERSEDES, False)),
      (''work.superseded_by'', (SUPERSEDES, True))]"

subsection \<open>The target index\<close>

record work_target_index =
  by_artifact_id :: "ident list"
  by_source_path :: "(string, ident list) dict"
  by_archive_path :: "(string, ident list) dict"

definition work_target_index_build :: "artifact_record list \<Rightarrow> work_target_index" where
  "work_target_index_build arts =
     (let by_path = fold (\<lambda>a. dappend (art_source_path a) (art_id a)) arts [];
          by_archive = fold (\<lambda>a. dappend (art_source_path a) (art_id a))
            (filter (\<lambda>a. sublist archive_member_separator (art_source_path a)) arts) [];
          finish = (\<lambda>d. map (\<lambda>(k, v). (k, sort v)) (sort_key fst d)) in
      \<lparr>by_artifact_id = map art_id arts, by_source_path = finish by_path,
       by_archive_path = finish by_archive\<rparr>)"

fun resolve_indexes :: "(string, ident list) dict list \<Rightarrow> string \<Rightarrow> ident option \<times> ident list" where
  "resolve_indexes [] target = (None, [])"
| "resolve_indexes (ix # ixs) target =
     (case dget_default [] ix target of
        [] \<Rightarrow> resolve_indexes ixs target
      | [m] \<Rightarrow> (Some m, [m])
      | ms \<Rightarrow> (None, ms))"

definition work_target_resolve :: "work_target_index \<Rightarrow> string \<Rightarrow> ident option \<times> ident list" where
  "work_target_resolve ix target =
     (if target \<in> set (by_artifact_id ix) then (Some target, [target])
      else resolve_indexes [by_archive_path ix, by_source_path ix] target)"

subsection \<open>Edges, reference nodes and unknowns\<close>

definition after_colon :: "string \<Rightarrow> string" where
  "after_colon s = tl (dropWhile (\<lambda>c. c \<noteq> CHR '':'') s)"

definition external_target_id :: "(string \<Rightarrow> string) \<Rightarrow> string \<Rightarrow> ident" where
  "external_target_id sha target = work_reference_prefix @ '':'' @
     after_colon (stable_id sha ''target'' (PDict [(''target'', PStr target)]))"

definition external_target ::
  "semantic_claim \<Rightarrow> ident \<Rightarrow> ident list \<Rightarrow> string \<Rightarrow> graph_record" where
  "external_target c target matches res =
     claim_node target ''WorkReference'' c
       [(''reference'', PStr (claim_object c)), (''observed_in_corpus'', PBool False),
        (''resolution'', PStr res), (''ambiguous_matches'', py_strs matches),
        (''projected_from_claim_id'', PStr (claim_id c))]"

definition ambiguous_unknown ::
  "(string \<Rightarrow> string) \<Rightarrow> semantic_claim \<Rightarrow> ident list \<Rightarrow> unknown_record" where
  "ambiguous_unknown sha c matches =
     \<lparr>unknown_id = stable_id sha ''unknown'' (PDict
        [(''subject_id'', PStr (claim_subject c)), (''field'', PStr (claim_predicate c)),
         (''values'', py_strs (sort matches)), (''target'', PStr (claim_object c))]),
      unk_subject = claim_subject c, unk_field = Some (claim_predicate c),
      unk_reason = ambiguous_target_reason, unk_evidence_refs = claim_evidence_refs c\<rparr>"

definition relation_edge ::
  "(string \<Rightarrow> string) \<Rightarrow> semantic_claim \<Rightarrow> ident \<Rightarrow> edge_type \<Rightarrow> bool \<Rightarrow> string \<Rightarrow> edge_record" where
  "relation_edge sha c target ty reverse res =
     (let props = claim_properties c @ [(target_resolution_property, PStr res),
            (''declared_by'', PStr (claim_subject c))];
          (s, t) = (if reverse then (target, claim_subject c) else (claim_subject c, target)) in
      claim_edge sha s t ty c props)"

subsection \<open>\<open>project_work_relations\<close>\<close>

record work_projection =
  wp_edges :: "edge_record list"
  wp_nodes :: "graph_record list"
  wp_unknowns :: "unknown_record list"
  wp_entities :: "(ident, ident list) dict"

record work_state =
  ws_edges :: "(ident, edge_record) dict"
  ws_nodes :: "(ident, graph_record) dict"
  ws_unknowns :: "(ident, unknown_record) dict"
  ws_produced :: "(ident, ident list) dict"

definition unresolved_label :: "ident list \<Rightarrow> string" where
  "unresolved_label matches = (if matches \<noteq> [] then ''ambiguous'' else ''unresolved'')"

text \<open>What one claim yields: its edge, and the node and the unknown of an unresolved target.\<close>

definition work_outcome ::
  "(string \<Rightarrow> string) \<Rightarrow> work_target_index \<Rightarrow> semantic_claim \<Rightarrow>
   (edge_record \<times> graph_record list \<times> unknown_record list) option" where
  "work_outcome sha ix c =
     (case dget work_edge_projections (claim_predicate c) of
        None \<Rightarrow> None
      | Some (ty, reverse) \<Rightarrow>
          if \<not> eligible_for_canonical_projection c then None
          else (case work_target_resolve ix (claim_object c) of
              (Some a, matches) \<Rightarrow> Some (relation_edge sha c a ty reverse resolved_target_resolution, [], [])
            | (None, matches) \<Rightarrow>
                (let target = external_target_id sha (claim_object c);
                     res = unresolved_label matches in
                 Some (relation_edge sha c target ty reverse res,
                   [external_target c target matches res],
                   if matches \<noteq> [] then [ambiguous_unknown sha c matches] else []))))"

definition work_step ::
  "(string \<Rightarrow> string) \<Rightarrow> work_target_index \<Rightarrow> semantic_claim \<Rightarrow> work_state \<Rightarrow> work_state" where
  "work_step sha ix c st =
     (case work_outcome sha ix c of
        None \<Rightarrow> st
      | Some (e, ns, us) \<Rightarrow>
          \<lparr>ws_edges = dput (edge_id e) e (ws_edges st),
           ws_nodes = fold (\<lambda>n. dsetdefault (g_entity_id n) n) ns (ws_nodes st),
           ws_unknowns = fold (\<lambda>u. dsetdefault (unknown_id u) u) us (ws_unknowns st),
           ws_produced = dput (claim_id c) (dget_default [] (ws_produced st) (claim_id c) @
             edge_id e # map g_entity_id ns) (ws_produced st)\<rparr>)"

definition project_work_relations ::
  "(string \<Rightarrow> string) \<Rightarrow> semantic_claim list \<Rightarrow> artifact_record list \<Rightarrow> work_projection" where
  "project_work_relations sha claims arts =
     (let ix = work_target_index_build arts;
          st = fold (work_step sha ix) (sort_key claim_id claims)
            \<lparr>ws_edges = [], ws_nodes = [], ws_unknowns = [], ws_produced = []\<rparr> in
      \<lparr>wp_edges = sort_key edge_id (dvalues (ws_edges st)),
       wp_nodes = sort_key g_entity_id (dvalues (ws_nodes st)),
       wp_unknowns = sort_key unknown_id (dvalues (ws_unknowns st)),
       wp_entities = map (\<lambda>(k, ids). (k, usort ids)) (sort_key fst (ws_produced st))\<rparr>)"

subsection \<open>Resolution is exact and unique\<close>

lemma map_of_sort_key:
  "distinct (map fst d) \<Longrightarrow> map_of (map (\<lambda>(k, v). (k, f v)) (sort_key fst d)) k =
     map_option f (map_of d k)"
proof -
  assume d: "distinct (map fst d)"
  have "distinct (map fst (sort_key fst d))"
    using d by (simp add: distinct_map)
  then have "map_of (sort_key fst d) = map_of d"
    using d by (intro map_of_inject_set [THEN iffD2]) auto
  then show ?thesis by (simp add: map_of_map)
qed

lemma path_index:
  fixes key :: "'a \<Rightarrow> string"
  shows "dget_default [] (map (\<lambda>(k, v). (k, sort v)) (sort_key fst
       (fold (\<lambda>a. dappend (key a) (val a)) xs []))) k = sort (map val (filter (\<lambda>a. key a = k) xs))"
proof -
  let ?d = "fold (\<lambda>a. dappend (key a) (val a)) xs []"
  have "distinct (dkeys d) \<Longrightarrow> distinct (dkeys (fold (\<lambda>a. dappend (key a) (val a)) xs d))" for d
    by (induction xs arbitrary: d) (auto simp: dappend_def distinct_update)
  then have "distinct (dkeys ?d)" by simp
  then have "dget_default [] (map (\<lambda>(k, v). (k, sort v)) (sort_key fst ?d)) k =
      sort (dget_default [] ?d k)"
    by (simp add: dget_default_def map_of_sort_key split: option.split)
  then show ?thesis by (simp add: dget_dappend_fold)
qed

lemma resolve_two_indexes:
  assumes "dget_default [] ia target = (if b then ms else [])" and "dget_default [] ib target = ms"
  shows "resolve_indexes [ia, ib] target = (if length ms = 1 then Some (hd ms) else None, ms)"
  using assms by (cases b; cases ms; cases "tl ms") simp_all

definition path_matches :: "artifact_record list \<Rightarrow> string \<Rightarrow> ident list" where
  "path_matches arts target = sort (map art_id (filter (\<lambda>a. art_source_path a = target) arts))"

lemma work_target_resolve_eq:
  "work_target_resolve (work_target_index_build arts) target =
     (if target \<in> art_id ` set arts then (Some target, [target])
      else (if length (path_matches arts target) = 1 then Some (hd (path_matches arts target))
            else None, path_matches arts target))"
proof -
  let ?ms = "path_matches arts target"
  have "filter (\<lambda>a. art_source_path a = target)
      (filter (\<lambda>a. sublist archive_member_separator (art_source_path a)) arts) =
    (if sublist archive_member_separator target then filter (\<lambda>a. art_source_path a = target) arts
     else [])"
    by (auto simp: filter_empty_conv intro: filter_cong)
  then have a: "dget_default [] (by_archive_path (work_target_index_build arts)) target =
      (if sublist archive_member_separator target then ?ms else [])"
    by (simp add: work_target_index_build_def Let_def path_index path_matches_def del: filter_filter)
  have b: "dget_default [] (by_source_path (work_target_index_build arts)) target = ?ms"
    by (simp add: work_target_index_build_def Let_def path_index path_matches_def)
  have i: "set (by_artifact_id (work_target_index_build arts)) = art_id ` set arts"
    by (simp add: work_target_index_build_def Let_def)
  show ?thesis
    unfolding work_target_resolve_def i resolve_two_indexes [OF a b] by (rule refl)
qed

lemma work_resolution_artifact:
  assumes "work_target_resolve (work_target_index_build arts) t = (Some a, ms)"
  shows "a \<in> art_id ` set arts"
proof (cases "t \<in> art_id ` set arts")
  case True
  with assms show ?thesis by (simp add: work_target_resolve_eq)
next
  case False
  with assms have "length (path_matches arts t) = 1" "a = hd (path_matches arts t)"
    by (auto simp: work_target_resolve_eq split: if_splits)
  then have "a \<in> set (path_matches arts t)" by (cases "path_matches arts t") simp_all
  then show ?thesis by (auto simp: path_matches_def)
qed

text \<open>
  A target resolves only to what it names exactly. It resolves to itself when it is an
  artifact's identity; otherwise to the artifact whose source path it is, when exactly one
  record carries that path; with several, all of them are reported and none is chosen, and with
  none, nothing is. The archive index adds nothing to this.
\<close>
theorem work_target_exact:
  "work_target_resolve (work_target_index_build arts) target =
     (if target \<in> art_id ` set arts then (Some target, [target])
      else (case sort (map art_id (filter (\<lambda>a. art_source_path a = target) arts)) of
          [] \<Rightarrow> (None, [])
        | [m] \<Rightarrow> (Some m, [m])
        | m # m' # ms \<Rightarrow> (None, m # m' # ms)))"
  unfolding work_target_resolve_eq path_matches_def [symmetric]
  by (cases "path_matches arts target"; cases "tl (path_matches arts target)") simp_all

subsection \<open>What work claims yield\<close>

definition work_projects :: "semantic_claim \<Rightarrow> bool" where
  "work_projects c \<longleftrightarrow> eligible_for_canonical_projection c \<and>
     claim_predicate c \<in> set (dkeys work_edge_projections)"

lemma work_outcome_None: "work_outcome sha ix c = None \<longleftrightarrow> \<not> work_projects c"
proof -
  have "dget work_edge_projections (claim_predicate c) = None \<longleftrightarrow>
      claim_predicate c \<notin> set (dkeys work_edge_projections)"
    by (simp add: map_of_eq_None_iff)
  then show ?thesis
    by (auto simp: work_outcome_def work_projects_def Let_def split: option.splits prod.splits)
qed


definition work_reference_node :: "ident \<Rightarrow> bool" where
  "work_reference_node k \<longleftrightarrow> prefix (work_reference_prefix @ '':'') k"

lemma get_value_relation_edge:
  "get_value (edge_properties (relation_edge sha c t ty rv res)) target_resolution_property =
     Some (PStr res)"
  by (simp add: relation_edge_def Let_def claim_edge_def claim_properties_def get_value_def
      target_resolution_property_def split: prod.split)

lemma relation_edge_resolved:
  "edge_is_resolved (relation_edge sha c t ty rv res) observed \<longleftrightarrow>
     res = resolved_target_resolution"
  by (simp add: edge_is_resolved_def dependency_target_resolution_def get_value_relation_edge)

lemma relation_edge_ends:
  "{edge_source (relation_edge sha c t ty rv res), edge_target (relation_edge sha c t ty rv res)} =
     {claim_subject c, t}"
  by (auto simp: relation_edge_def claim_edge_def Let_def)

text \<open>What holds of the one edge of a claim, given the nodes that end up in the graph.\<close>

definition work_edge_ok ::
  "artifact_record list \<Rightarrow> semantic_claim list \<Rightarrow> ident list \<Rightarrow> ident set \<Rightarrow> edge_record \<Rightarrow> bool" where
  "work_edge_ok arts claims observed nodes e \<longleftrightarrow>
     (if edge_is_resolved e observed
      then {edge_source e, edge_target e} \<subseteq> claim_subject ` set claims \<union> art_id ` set arts
      else {edge_source e, edge_target e} \<subseteq> claim_subject ` set claims \<union> nodes)"

lemma work_outcome_unresolved:
  assumes "dget work_edge_projections (claim_predicate c) = Some (ty, rv)"
    and "eligible_for_canonical_projection c"
    and "work_target_resolve ix (claim_object c) = (None, ms)"
  shows "work_outcome sha ix c =
      Some (relation_edge sha c (external_target_id sha (claim_object c)) ty rv
          (unresolved_label ms),
        [external_target c (external_target_id sha (claim_object c)) ms (unresolved_label ms)],
        if ms \<noteq> [] then [ambiguous_unknown sha c ms] else [])"
  using assms(2) by (simp only: work_outcome_def assms(1,3) option.case prod.case if_False
      if_True not_True_eq_False Let_def)

lemma work_reference_external: "work_reference_node (external_target_id sha t)"
  by (simp add: work_reference_node_def external_target_id_def)

lemma work_outcome_nodes:
  assumes "work_outcome sha ix c = Some (e, ns, us)"
  shows "\<forall>n \<in> set ns. work_reference_node (g_entity_id n)"
proof -
  obtain ty rv where t: "dget work_edge_projections (claim_predicate c) = Some (ty, rv)"
    using assms by (auto simp: work_outcome_def split: option.splits)
  have el: "eligible_for_canonical_projection c"
    using assms t by (cases "eligible_for_canonical_projection c") (simp_all add: work_outcome_def)
  obtain r ms where r: "work_target_resolve ix (claim_object c) = (r, ms)"
    by (cases "work_target_resolve ix (claim_object c)")
  show ?thesis
  proof (cases r)
    case None
    then have "work_outcome sha ix c =
      Some (relation_edge sha c (external_target_id sha (claim_object c)) ty rv
          (unresolved_label ms),
        [external_target c (external_target_id sha (claim_object c)) ms (unresolved_label ms)],
        if ms \<noteq> [] then [ambiguous_unknown sha c ms] else [])"
      using r t el by (intro work_outcome_unresolved) simp_all
    then have "ns = [external_target c (external_target_id sha (claim_object c)) ms
        (unresolved_label ms)]"
      using assms by (simp only: option.inject prod.inject)
    then show ?thesis
      by (simp add: external_target_def claim_node_def work_reference_external)
  next
    case (Some a)
    with assms t r el have "ns = []" unfolding work_outcome_def by simp
    then show ?thesis by simp
  qed
qed

lemma work_outcome_facts:
  assumes "work_outcome sha (work_target_index_build arts) c = Some (e, ns, us)"
  shows "if edge_is_resolved e observed
      then ns = [] \<and> {edge_source e, edge_target e} \<subseteq> {claim_subject c} \<union> art_id ` set arts
      else {edge_source e, edge_target e} \<subseteq> {claim_subject c} \<union> g_entity_id ` set ns"
    and "n \<in> set ns \<Longrightarrow> work_reference_node (g_entity_id n)"
proof -
  obtain ty rv where t: "dget work_edge_projections (claim_predicate c) = Some (ty, rv)"
    using assms by (auto simp: work_outcome_def split: option.splits)
  obtain r ms where r: "work_target_resolve (work_target_index_build arts) (claim_object c) = (r, ms)"
    by (cases "work_target_resolve (work_target_index_build arts) (claim_object c)")
  have x: "''ambiguous'' \<noteq> resolved_target_resolution" "''unresolved'' \<noteq> resolved_target_resolution"
    by (simp_all add: resolved_target_resolution_def)
  show "if edge_is_resolved e observed
      then ns = [] \<and> {edge_source e, edge_target e} \<subseteq> {claim_subject c} \<union> art_id ` set arts
      else {edge_source e, edge_target e} \<subseteq> {claim_subject c} \<union> g_entity_id ` set ns"
  proof (cases r)
    case (Some a)
    with assms t r have e: "e = relation_edge sha c a ty rv resolved_target_resolution"
      and ns: "ns = []"
      by (simp_all add: work_outcome_def split: if_splits)
    have a: "a \<in> art_id ` set arts"
      using work_resolution_artifact r unfolding Some by blast
    have "edge_is_resolved e observed" unfolding e relation_edge_resolved by (rule refl)
    moreover have "{edge_source e, edge_target e} = {claim_subject c, a}"
      unfolding e by (rule relation_edge_ends)
    ultimately show ?thesis using ns a by simp
  next
    case None
    have "eligible_for_canonical_projection c"
      using assms t by (cases "eligible_for_canonical_projection c") (simp_all add: work_outcome_def)
    then have out: "work_outcome sha (work_target_index_build arts) c =
      Some (relation_edge sha c (external_target_id sha (claim_object c)) ty rv
          (unresolved_label ms),
        [external_target c (external_target_id sha (claim_object c)) ms (unresolved_label ms)],
        if ms \<noteq> [] then [ambiguous_unknown sha c ms] else [])"
      using r t None by (intro work_outcome_unresolved) simp_all
    have e: "e = relation_edge sha c (external_target_id sha (claim_object c)) ty rv
        (unresolved_label ms)"
      and ns: "ns = [external_target c (external_target_id sha (claim_object c)) ms
        (unresolved_label ms)]"
      using assms unfolding out by (simp_all only: option.inject prod.inject)
    have n: "g_entity_id ` set ns = {external_target_id sha (claim_object c)}"
      unfolding ns by (simp add: external_target_def claim_node_def split del: if_split)
    have "\<not> edge_is_resolved e observed"
      unfolding e relation_edge_resolved by (simp add: unresolved_label_def x)
    moreover have "{edge_source e, edge_target e} =
        {claim_subject c, external_target_id sha (claim_object c)}"
      unfolding e by (rule relation_edge_ends)
    ultimately show ?thesis using n by simp
  qed
  show "n \<in> set ns \<Longrightarrow> work_reference_node (g_entity_id n)"
    using work_outcome_nodes [OF assms] by blast
qed

definition work_invariant ::
  "(string \<Rightarrow> string) \<Rightarrow> artifact_record list \<Rightarrow> ident list \<Rightarrow> semantic_claim list \<Rightarrow> work_state \<Rightarrow>
   bool" where
  "work_invariant sha arts observed cs st \<longleftrightarrow>
     fst ` set (ws_produced st) = claim_id ` {x \<in> set cs. work_projects x} \<and>
     (\<forall>k e. (k, e) \<in> set (ws_edges st) \<longrightarrow>
        work_edge_ok arts cs observed (fst ` set (ws_nodes st)) e) \<and>
     (\<forall>k n. (k, n) \<in> set (ws_nodes st) \<longrightarrow> k = g_entity_id n \<and> work_reference_node k)"

lemma work_invariantD:
  assumes "work_invariant sha arts observed cs st"
  shows "fst ` set (ws_produced st) = claim_id ` {x \<in> set cs. work_projects x}"
    and "(k, e) \<in> set (ws_edges st) \<Longrightarrow> work_edge_ok arts cs observed (fst ` set (ws_nodes st)) e"
    and "(k, n) \<in> set (ws_nodes st) \<Longrightarrow> k = g_entity_id n \<and> work_reference_node k"
  using assms by (simp_all only: work_invariant_def)

lemma work_edge_ok_mono:
  "work_edge_ok arts cs observed N e \<Longrightarrow> N \<subseteq> N' \<Longrightarrow> work_edge_ok arts (cs @ [c]) observed N' e"
  by (auto simp: work_edge_ok_def split: if_splits)

lemma work_invariant_step:
  assumes inv: "work_invariant sha arts observed cs st"
  shows "work_invariant sha arts observed (cs @ [c]) (work_step sha (work_target_index_build arts) c st)"
proof (cases "work_outcome sha (work_target_index_build arts) c")
  case None
  then have "\<not> work_projects c" by (simp add: work_outcome_None)
  then have "fst ` set (ws_produced st) = claim_id ` {x \<in> set (cs @ [c]). work_projects x}"
    using work_invariantD(1) [OF inv] by auto
  moreover have "work_step sha (work_target_index_build arts) c st = st"
    using None by (simp add: work_step_def)
  ultimately show ?thesis
    using work_invariantD(3) [OF inv] work_edge_ok_mono [OF work_invariantD(2) [OF inv] subset_refl]
    unfolding work_invariant_def by (intro conjI allI impI) simp_all
next
  case (Some out)
  obtain e ns us where out: "out = (e, ns, us)" by (cases out) auto
  note facts = work_outcome_facts [OF Some [unfolded out]]
  have p: "work_projects c" using work_outcome_None Some by (metis option.distinct(1))
  let ?N = "fold (\<lambda>n. dsetdefault (g_entity_id n) n) ns (ws_nodes st)"
  let ?E = "dput (edge_id e) e (ws_edges st)"
  let ?st = "work_step sha (work_target_index_build arts) c st"
  have st: "ws_nodes ?st = ?N" "ws_edges ?st = ?E"
    "fst ` set (ws_produced ?st) = insert (claim_id c) (fst ` set (ws_produced st))"
    using Some out by (simp_all add: work_step_def dict.keys_put)
  have kN: "fst ` set ?N = fst ` set (ws_nodes st) \<union> g_entity_id ` set ns"
    by (rule setdefault_fold(2))
  have "fst ` set (ws_produced ?st) = claim_id ` {x \<in> set (cs @ [c]). work_projects x}"
    unfolding st work_invariantD(1) [OF inv] using p by auto
  moreover have "work_edge_ok arts (cs @ [c]) observed (fst ` set ?N) e'"
    if "(k, e') \<in> set ?E" for k e'
    using set_dput_entry [OF that]
  proof
    assume "(k, e') = (edge_id e, e)"
    then show ?thesis using facts(1) [of observed] by (auto simp: work_edge_ok_def kN split: if_splits)
  next
    assume "(k, e') \<in> set (ws_edges st)"
    from work_edge_ok_mono [OF work_invariantD(2) [OF inv this]] show ?thesis by (simp add: kN)
  qed
  moreover have "k = g_entity_id n \<and> work_reference_node k" if "(k, n) \<in> set ?N" for k n
    using setdefault_fold(1) [OF that] work_invariantD(3) [OF inv] facts(2) by blast
  ultimately show ?thesis
    unfolding work_invariant_def st by blast
qed

lemma work_invariant_fold:
  "work_invariant sha arts observed cs0 st \<Longrightarrow> work_invariant sha arts observed (cs0 @ cs)
     (fold (work_step sha (work_target_index_build arts)) cs st)"
proof (induction cs arbitrary: cs0 st)
  case (Cons c cs)
  from Cons.IH [OF work_invariant_step [OF Cons.prems]] show ?case by simp
qed simp


end
