(* ===== verification/ReasoningRouter.thy ===== *)
theory ReasoningRouter
  imports Candidates WorkProjection
begin

text \<open>
  Routing of candidates to a later reasoner, \<open>topology/reasoning_router.py\<close>: signals are
  collected from recorded structure, then a decision table turns them into a request type and
  the reason recorded beside it.
\<close>

fun default_by_type :: "candidate_type \<Rightarrow> reasoning_type" where
  "default_by_type topic_candidate = rt_none"
| "default_by_type project_candidate = rt_same_body_of_work"
| "default_by_type consolidation_candidate = rt_consolidation"

definition bounded_neighborhood :: "ident list \<Rightarrow> edge_record list \<Rightarrow> ident list" where
  "bounded_neighborhood members edges =
     usort (List.map_filter (\<lambda>e.
       if edge_source e \<in> set members \<and> edge_target e \<notin> set members then Some (edge_target e)
       else if edge_target e \<in> set members \<and> edge_source e \<notin> set members then Some (edge_source e)
       else None) edges)"

definition inside :: "ident list \<Rightarrow> edge_record \<Rightarrow> bool" where
  "inside members e \<longleftrightarrow> edge_source e \<in> set members \<and> edge_target e \<in> set members"

definition cluster_of_edge :: "edge_record \<Rightarrow> string option" where
  "cluster_of_edge e =
     (case dget (edge_properties e) ''duplicate_cluster_id'' of Some (PStr k) \<Rightarrow> Some k | _ \<Rightarrow> None)"

definition members_wholly_duplicated :: "ident list \<Rightarrow> edge_record list \<Rightarrow> bool" where
  "members_wholly_duplicated members edges \<longleftrightarrow>
     (let links = filter (\<lambda>e. edge_type_of e = DUPLICATE_OF \<and> inside members e) edges;
          touched = map edge_source links @ map edge_target links;
          clusters = remdups (List.map_filter cluster_of_edge links) in
      2 \<le> length (remdups members) \<and> length clusters = 1 \<and> set touched = set members)"

definition resolution_of :: "edge_record \<Rightarrow> pyval option" where
  "resolution_of e = dget (edge_properties e) target_resolution_property"

definition explained_by_exact_relation :: "ident list \<Rightarrow> edge_record list \<Rightarrow> bool" where
  "explained_by_exact_relation members edges \<longleftrightarrow>
     list_ex (\<lambda>e. edge_type_of e = SUPERSEDES \<and> inside members e \<and>
       resolution_of e = Some (PStr ''exact-artifact'')) edges"

definition ambiguous_supersession :: "ident list \<Rightarrow> edge_record list \<Rightarrow> bool" where
  "ambiguous_supersession members edges \<longleftrightarrow>
     list_ex (\<lambda>e. edge_type_of e = SUPERSEDES \<and>
       (edge_source e \<in> set members \<or> edge_target e \<in> set members) \<and>
       resolution_of e \<in> {Some (PStr ''ambiguous''), Some (PStr ''unresolved'')}) edges"

record signals =
  sg_structural :: "string list"
  sg_conflicts :: "ident list"
  sg_unknowns :: "ident list"
  sg_escalate :: bool
  sg_deescalate :: bool

definition raised_signals ::
  "cluster_record \<Rightarrow> edge_record list \<Rightarrow> conflict_record list \<Rightarrow> unknown_record list \<Rightarrow> string list" where
  "raised_signals c edges confs unks =
     (let members = cl_members c in
      (if list_ex (\<lambda>x. conf_subject x \<in> set members) confs \<or>
          ambiguity_conflicting_status \<in> set (cl_flags c) then [signal_confirmed_conflict] else []) @
      (if list_ex (\<lambda>u. unk_reason u = ambiguous_target_reason \<and> unk_subject u \<in> set members) unks
       then [signal_unresolved_reference] else []) @
      (if ambiguous_supersession members edges then [signal_ambiguous_supersession] else []) @
      (if cl_type c = project_candidate \<and> ambiguity_disconnected \<in> set (cl_flags c)
       then [signal_disconnected] else []) @
      (if cl_cross_root c \<and> internal_supersessions (cl_structure c) \<noteq> 0
       then [signal_spans_roots] else []))"

definition collect_signals ::
  "cluster_record \<Rightarrow> edge_record list \<Rightarrow> conflict_record list \<Rightarrow> unknown_record list \<Rightarrow> signals" where
  "collect_signals c edges confs unks =
     (let members = cl_members c;
          raised = raised_signals c edges confs unks;
          lowered = (if raised \<noteq> [] then []
            else if members_wholly_duplicated members edges then [signal_exact_duplicate_only]
            else if explained_by_exact_relation members edges then [signal_explained] else []) in
      \<lparr>sg_structural = usort (raised @ lowered),
       sg_conflicts = sort (map conflict_id (filter (\<lambda>x. conf_subject x \<in> set members) confs)),
       sg_unknowns = sort (map unknown_id (filter (\<lambda>u. unk_subject u \<in> set members) unks)),
       sg_escalate = (raised \<noteq> []), sg_deescalate = (lowered \<noteq> [])\<rparr>)"

definition escalated_type :: "signals \<Rightarrow> reasoning_type option \<Rightarrow> reasoning_type \<Rightarrow> reasoning_type" where
  "escalated_type s up dflt =
     (if signal_confirmed_conflict \<in> set (sg_structural s) then rt_conflict_resolution
      else if up \<noteq> None \<and> up \<noteq> Some rt_none then the up
      else if dflt \<noteq> rt_none then dflt
      else rt_same_body_of_work)"

definition decide ::
  "signals \<Rightarrow> reasoning_type option \<Rightarrow> reasoning_type \<Rightarrow> reasoning_type \<times> string" where
  "decide s up dflt =
     (if sg_deescalate s then (rt_none,
        ''topology de-escalated: the grouping is already explained by an exact '' @
        ''relation this compile resolved, so there is nothing left to adjudicate'')
      else if sg_escalate s then (escalated_type s up dflt,
        ''topology escalated on structural evidence the corpus pass did not hold: '' @
        join '', '' (sg_structural s))
      else (case up of
          Some t \<Rightarrow> (t, ''topology found no structural evidence to change the producer's routing'')
        | None \<Rightarrow> (dflt, ''no upstream recommendation; routed by candidate type with no structural signal either way'')))"

definition route_candidate ::
  "(string \<Rightarrow> string) \<Rightarrow> reasoning_request option \<Rightarrow> edge_record list \<Rightarrow> conflict_record list \<Rightarrow>
   unknown_record list \<Rightarrow> cluster_record \<Rightarrow> reasoning_candidate" where
  "route_candidate sha req edges confs unks c =
     (let s = collect_signals c edges confs unks;
          up = map_option rq_type req;
          (decided, reason) = decide s up (default_by_type (cl_type c)) in
      \<lparr>rc_id = stable_id sha ''reasoning-candidate'' (PDict
         [(''candidate_id'', PStr (cl_id c)),
          (''reasoning_type'', PStr (reasoning_type_value decided))]),
       rc_candidate = cl_id c, rc_upstream = up, rc_type = decided, rc_reason = reason,
       rc_triggers = usort (cl_flags c), rc_signals = sg_structural s,
       rc_conflict_refs = sg_conflicts s, rc_unknown_refs = sg_unknowns s,
       rc_readiness = cl_readiness c, rc_evidence_refs = cl_evidence_refs c,
       rc_neighborhood = bounded_neighborhood (cl_members c) edges\<rparr>)"

definition upstream_requests :: "corpus_packet list \<Rightarrow> (ident, reasoning_request) dict" where
  "upstream_requests ps =
     fold (\<lambda>q. dsetdefault (rq_candidate q) q)
       (concat (map (\<lambda>p. case cp_payload p of None \<Rightarrow> [] | Some l \<Rightarrow> reasoning_requests l) ps)) []"

definition route_reasoning_candidates ::
  "(string \<Rightarrow> string) \<Rightarrow> cluster_record list \<Rightarrow> corpus_packet list \<Rightarrow> edge_record list \<Rightarrow>
   conflict_record list \<Rightarrow> unknown_record list \<Rightarrow> reasoning_candidate list" where
  "route_reasoning_candidates sha clusters ps edges confs unks =
     sort_key rc_id (map (\<lambda>c. route_candidate sha (dget (upstream_requests ps) (cl_id c))
       edges confs unks c) clusters)"

subsection \<open>Routing changes only for a recorded reason\<close>

definition escalation_signals :: "string list" where
  "escalation_signals =
     [signal_confirmed_conflict, signal_unresolved_reference, signal_ambiguous_supersession,
      signal_disconnected, signal_spans_roots]"

lemmas signal_defs = signal_confirmed_conflict_def signal_unresolved_reference_def
  signal_ambiguous_supersession_def signal_disconnected_def signal_spans_roots_def
  signal_exact_duplicate_only_def signal_explained_def

lemma raised_are_escalations: "set (raised_signals c edges confs unks) \<subseteq> set escalation_signals"
  by (auto simp: raised_signals_def escalation_signals_def Let_def)

lemma raised_conflict:
  "list_ex (\<lambda>x. conf_subject x \<in> set (cl_members c)) confs \<Longrightarrow>
     signal_confirmed_conflict \<in> set (raised_signals c edges confs unks)"
  by (simp add: raised_signals_def Let_def)

lemma escalations_distinct:
  "signal_exact_duplicate_only \<notin> set escalation_signals" "signal_explained \<notin> set escalation_signals"
  by (simp_all add: escalation_signals_def signal_defs)

lemma escalated_type_not_none: "escalated_type s up dflt \<noteq> rt_none"
  by (auto simp: escalated_type_def)

lemma collect_cases:
  obtains (escalate) "raised_signals c edges confs unks \<noteq> []"
      "sg_structural (collect_signals c edges confs unks) = usort (raised_signals c edges confs unks)"
      "sg_escalate (collect_signals c edges confs unks)"
      "\<not> sg_deescalate (collect_signals c edges confs unks)"
  | (lower) s where "raised_signals c edges confs unks = []"
      "sg_structural (collect_signals c edges confs unks) = [s]"
      "s = signal_exact_duplicate_only \<and> members_wholly_duplicated (cl_members c) edges \<or>
       s = signal_explained \<and> explained_by_exact_relation (cl_members c) edges"
      "sg_deescalate (collect_signals c edges confs unks)"
  | (quiet) "raised_signals c edges confs unks = []"
      "sg_structural (collect_signals c edges confs unks) = []"
      "\<not> sg_escalate (collect_signals c edges confs unks)"
      "\<not> sg_deescalate (collect_signals c edges confs unks)"
      "\<not> members_wholly_duplicated (cl_members c) edges"
      "\<not> explained_by_exact_relation (cl_members c) edges"
proof (cases "raised_signals c edges confs unks = []")
  case False
  then show ?thesis by (intro escalate) (simp_all add: collect_signals_def Let_def)
next
  case True
  then show ?thesis
    by (cases "members_wholly_duplicated (cl_members c) edges";
        cases "explained_by_exact_relation (cl_members c) edges")
      (rule lower [of signal_exact_duplicate_only] lower [of signal_explained] quiet,
        simp_all add: collect_signals_def Let_def usort_def)+
qed


definition sample_cluster :: "ident list \<Rightarrow> cluster_record" where
  "sample_cluster ms = cluster_record_of (structural_index_of [] [] [] [] []) []
     \<lparr>cc_id = ''c'', cc_type = topic_candidate, cc_members = ms, cc_relations = [],
      cc_evidence_refs = [], cc_class = strong, cc_flags = [], cc_cross_root = False,
      cc_cross_archive = False,
      cc_profile = \<lparr>ap_id = ''p'', ap_version = ''1'', ap_hash = ''h''\<rparr>, cc_upstream = None\<rparr>"


subsection \<open>Duplicates that are not drawn between the members\<close>

lemma star_has_representative:
  assumes "e \<in> set (build_duplicate_edges sha rels by)"
  shows "edge_type_of e = DUPLICATE_OF \<and>
    (\<exists>k \<in> set (cluster_relations rels). representative_id k \<in> {edge_source e, edge_target e})"
proof -
  have "e \<in> set (concat (map (cluster_edges sha (evidence_by_cluster by rels)) (cluster_relations rels)))"
    using assms unfolding build_duplicate_edges_def set_sort
    by (rule subsetD [OF values_index_by_subset])
  then obtain k where k: "k \<in> set (cluster_relations rels)"
    and "e \<in> set (cluster_edges sha (evidence_by_cluster by rels) k)" by auto
  then obtain m where "e = star_edge sha k
      (usort (dget_default [] (evidence_by_cluster by rels) (cluster_id k))) m"
    by (auto simp: cluster_edges_def)
  then have "edge_type_of e = DUPLICATE_OF \<and> representative_id k \<in> {edge_source e, edge_target e}"
    by (auto simp: star_edge_def canonical_pair_def split: if_splits)
  with k show ?thesis by blast
qed

text \<open>
  Byte identity between members is seen only through the representative of their cluster.
  Duplicates are drawn as a star around the least artifact of a cluster, so a candidate whose
  members are all copies of one file, but do not include that artifact, counts no duplicate
  among them: it is flagged as structurally disconnected, loses a strong class, and is not
  recognized as wholly duplicated.
\<close>
theorem duplicates_without_representative:
  assumes "list_all (\<lambda>k. representative_id k \<notin> set (cc_members c)) (cluster_relations rels)"
    and "1 < card (set (cc_members c))"
  shows "(let edges = build_duplicate_edges sha rels by;
              r = cluster_record_of (structural_index_of arts edges claims confs roots) rd c in
     internal_duplicates (cl_structure r) = 0 \<and> ambiguity_disconnected \<in> set (cl_flags r) \<and>
     cl_class r \<noteq> strong \<and> \<not> members_wholly_duplicated (cl_members r) edges)"
proof -
  let ?edges = "build_duplicate_edges sha rels by"
  let ?ix = "structural_index_of arts ?edges claims confs roots"
  have out: "\<not> (edge_source e \<in> set (cc_members c) \<and> edge_target e \<in> set (cc_members c))"
    if "e \<in> set ?edges" for e
    using star_has_representative [OF that] assms(1) by (auto simp: list_all_iff)
  then have j: "joined_inside ?edges t ms = {}" if "set ms \<subseteq> set (cc_members c)" for t ms
    using that unfolding joined_inside_def by blast
  have i: "internal_pairs ?ix t (remdups (cc_members c)) = 0" for t
    by (simp add: internal_pairs_card j)
  have flag: "ambiguity_disconnected \<in> set (ambiguity_flags_of c (structural_evidence_of ?ix c))"
    using assms(2) by (simp add: ambiguity_flags_of_def structural_evidence_of_def Let_def i
        structural_support_count_def length_remdups_card_conv)
  then have cls: "graded_class (cc_class c) (ambiguity_flags_of c (structural_evidence_of ?ix c)) \<noteq> strong"
    by (auto simp: graded_class_def weaken_to_def min_def less_eq_confidence_class_def)
  have none: "filter (\<lambda>e. edge_type_of e = DUPLICATE_OF \<and> inside (cl_members (cluster_record_of ?ix rd c)) e)
      ?edges = []"
    using out by (auto simp: filter_empty_conv inside_def)
  have wd: "\<not> members_wholly_duplicated (cl_members (cluster_record_of ?ix rd c)) ?edges"
    unfolding members_wholly_duplicated_def Let_def none by simp
  show ?thesis
    unfolding Let_def using flag cls wd i
    by (simp add: structural_evidence_of_def Let_def)
qed

definition sample_duplicates :: "exact_duplicate_relation list" where
  "sample_duplicates =
     [\<lparr>relation_id = ''r1'', artifact_a = ''a'', artifact_b = ''b'', dup_content_hash = ''h'',
       duplicate_cluster_id = ''k''\<rparr>,
      \<lparr>relation_id = ''r2'', artifact_a = ''a'', artifact_b = ''c'', dup_content_hash = ''h'',
       duplicate_cluster_id = ''k''\<rparr>]"

definition sample_copies :: candidate_cluster where
  "sample_copies =
     \<lparr>cc_id = ''c'', cc_type = consolidation_candidate, cc_members = [''b'', ''c''],
      cc_relations = [''k''], cc_evidence_refs = [], cc_class = strong, cc_flags = [],
      cc_cross_root = False, cc_cross_archive = False,
      cc_profile = \<lparr>ap_id = ''p'', ap_version = ''1'', ap_hash = ''h''\<rparr>, cc_upstream = None\<rparr>"

lemma sample_duplicate_clusters:
  "cluster_relations sample_duplicates =
     [\<lparr>cluster_id = ''k'', cluster_hash = ''h'', member_ids = [''a'', ''b'', ''c'']\<rparr>]"
  by (simp add: cluster_relations_def sample_duplicates_def Let_def usort_def dget_default_def)

theorem duplicates_without_representative_witness:
  "list_ex (\<lambda>k. set (cc_members sample_copies) \<subseteq> set (member_ids k)) (cluster_relations sample_duplicates) \<and>
   cl_class (cluster_record_of (structural_index_of [] (build_duplicate_edges id sample_duplicates [])
     [] [] []) [] sample_copies) \<noteq> strong"
proof
  have "list_all (\<lambda>k. representative_id k \<notin> set (cc_members sample_copies))
      (cluster_relations sample_duplicates)"
    by (simp add: sample_duplicate_clusters representative_id_def sample_copies_def)
  note all = duplicates_without_representative [OF this, of id "[]" "[]" "[]" "[]" "[]" "[]",
      unfolded Let_def]
  have "1 < card (set (cc_members sample_copies))" by (simp add: sample_copies_def)
  from all [OF this] show "cl_class (cluster_record_of (structural_index_of [] (build_duplicate_edges id
      sample_duplicates []) [] [] []) [] sample_copies) \<noteq> strong"
    by (elim conjE)
qed (simp add: sample_duplicate_clusters sample_copies_def)

end
