(* ===== verification/Assessment.thy ===== *)
theory Assessment
  imports Candidates
begin

text \<open>
  Profile-driven assessments: maturity (\<open>topology/maturity.py\<close>) and risk (\<open>topology/risk.py\<close>).
  A profile is the parsed content of its YAML file, with the keys a rule may lack as options; the
  values have the types the code converts them to. The legacy v4 scores are not part of this
  theory.
\<close>

text \<open>\<open>bool(getattr(repository, name, ()))\<close>\<close>

definition repository_field :: "repository_record \<Rightarrow> string \<Rightarrow> bool" where
  "repository_field r f =
     (if f = ''repository_id'' then repo_id r \<noteq> []
      else if f = ''name'' then repo_name r \<noteq> []
      else if f = ''source_revision'' then repo_source_revision r \<noteq> []
      else if f = ''packet_ref'' then repo_packet_ref r \<noteq> []
      else if f = ''primary_role'' then primary_role r \<noteq> []
      else if f = ''secondary_roles'' then secondary_roles r \<noteq> []
      else if f = ''languages'' then languages r \<noteq> []
      else if f = ''package_managers'' then package_managers r \<noteq> []
      else if f = ''entrypoints'' then entrypoints r \<noteq> []
      else if f = ''workflows'' then workflows r \<noteq> []
      else if f = ''adr_refs'' then adr_refs r \<noteq> []
      else if f = ''governance_refs'' then governance_refs r \<noteq> []
      else if f = ''capability_ids'' then repo_capability_ids r \<noteq> []
      else if f = ''artifact_ids'' then repo_artifact_ids r \<noteq> []
      else if f = ''upstream_repository_ids'' then upstream_ids r \<noteq> []
      else if f = ''downstream_repository_ids'' then downstream_ids r \<noteq> []
      else if f = ''unresolved_dependencies'' then unresolved_dependencies r \<noteq> []
      else if f = ''owner_ids'' then owner_ids r \<noteq> []
      else if f = ''evidence_refs'' then repo_evidence_refs r \<noteq> []
      else f = ''confidence'')"

datatype assessment_error = unknown_level string | no_band | score_out_of_range int int

definition parse_level :: "string \<Rightarrow> assessment_error + confidence_level" where
  "parse_level s = (case dget level_by_name s of None \<Rightarrow> Inl (unknown_level s) | Some l \<Rightarrow> Inr l)"

subsection \<open>Maturity\<close>

record maturity_rule =
  mr_weight :: int
  mr_field :: "string option"
  mr_contains :: "string option"
  mr_minimum :: "string option"

record maturity_profile =
  mp_id :: string
  mp_version :: string
  mp_maximum :: int
  mp_bands :: "(string, int) dict"
  mp_dimensions :: "(string, maturity_rule) dict"

definition band_for :: "int \<Rightarrow> (string, int) dict \<Rightarrow> assessment_error + string" where
  "band_for score bands =
     (case filter (\<lambda>(t, label). t \<le> score) (rev (sort (map (\<lambda>(label, t). (t, label)) bands))) of
        [] \<Rightarrow> Inl no_band | (t, label) # _ \<Rightarrow> Inr label)"

definition cites_path :: "string \<Rightarrow> evidence_record \<Rightarrow> bool" where
  "cites_path needle e \<longleftrightarrow> (case source_path (source_ref e) of
       None \<Rightarrow> False
     | Some p \<Rightarrow> p \<noteq> [] \<and> contains_substring (str_lower needle) (str_lower p))"

definition award ::
  "repository_record \<Rightarrow> evidence_record list \<Rightarrow> maturity_rule \<Rightarrow> assessment_error + int" where
  "award r evs rule =
     (let by_field = (case mr_field rule of None \<Rightarrow> False | Some f \<Rightarrow> repository_field r f);
          by_evidence = (case mr_contains rule of
              None \<Rightarrow> False | Some n \<Rightarrow> list_ex (cites_path n) evs) in
      case (case mr_minimum rule of
              None \<Rightarrow> Inr False
            | Some s \<Rightarrow> (case parse_level s of
                  Inl e \<Rightarrow> Inl e | Inr l \<Rightarrow> Inr (l \<le> level (repo_confidence r)))) of
        Inl e \<Rightarrow> Inl e
      | Inr by_level \<Rightarrow> Inr (if by_field \<or> by_evidence \<or> by_level then mr_weight rule else 0))"

definition banded ::
  "maturity_profile \<Rightarrow> repository_record \<Rightarrow> (string, int) dict \<Rightarrow> int \<Rightarrow>
   assessment_error + maturity_assessment" where
  "banded prof r dims score =
     (case band_for score (mp_bands prof) of
        Inl e \<Rightarrow> Inl e
      | Inr label \<Rightarrow>
          if score < 0 \<or> mp_maximum prof \<le> 0 then Inl (score_out_of_range score (mp_maximum prof))
          else Inr \<lparr>mat_subject = repo_id r, mat_profile_id = mp_id prof,
            mat_profile_version = mp_version prof, mat_score = score,
            mat_maximum = mp_maximum prof, mat_band = label, mat_dimensions = dims,
            mat_evidence_refs = repo_evidence_refs r\<rparr>)"

definition assess_repository ::
  "maturity_profile \<Rightarrow> evidence_record list \<Rightarrow> repository_record \<Rightarrow>
   assessment_error + maturity_assessment" where
  "assess_repository prof evidence r =
     (let evs = filter (\<lambda>e. ev_subject_id e = repo_id r) evidence in
      case collect (map (\<lambda>(d, rule). award r evs rule) (mp_dimensions prof)) of
        Inl e \<Rightarrow> Inl e
      | Inr awards \<Rightarrow> banded prof r (zip (dkeys (mp_dimensions prof)) awards)
          (min (mp_maximum prof) (sum_list awards)))"

definition assess_maturity ::
  "repository_record list \<Rightarrow> evidence_record list \<Rightarrow> maturity_profile \<Rightarrow>
   assessment_error + maturity_assessment list" where
  "assess_maturity repos evidence prof = collect (map (assess_repository prof evidence) repos)"

subsection \<open>Risk\<close>

record risk_rule =
  rr_id :: string
  rr_version :: string
  rr_kind :: string
  rr_field :: string
  rr_threshold :: "string option"
  rr_severity :: risk_severity
  rr_category :: string
  rr_description :: string
  rr_remediation :: "string option"

definition triggered :: "repository_record \<Rightarrow> risk_rule \<Rightarrow> assessment_error + bool" where
  "triggered r rule =
     (if rr_kind rule = ''empty'' then Inr (\<not> repository_field r (rr_field rule))
      else if rr_kind rule = ''confidence_below''
      then (case parse_level (case rr_threshold rule of None \<Rightarrow> ''medium'' | Some s \<Rightarrow> s) of
          Inl e \<Rightarrow> Inl e | Inr l \<Rightarrow> Inr (level (repo_confidence r) < l))
      else Inr False)"

definition rule_risk :: "(string \<Rightarrow> string) \<Rightarrow> repository_record \<Rightarrow> risk_rule \<Rightarrow> risk_record" where
  "rule_risk sha r rule =
     \<lparr>risk_id = stable_id sha ''risk'' (PDict
        [(''subject'', PStr (repo_id r)), (''rule'', PStr (rr_id rule)),
         (''version'', PStr (rr_version rule))]),
      risk_subject = repo_id r, severity = rr_severity rule, risk_category = rr_category rule,
      risk_description = rr_description rule, risk_rule_id = rr_id rule,
      risk_rule_version = rr_version rule, risk_evidence_refs = repo_evidence_refs r,
      remediation = (case rr_remediation rule of Some (x # xs) \<Rightarrow> Some (x # xs) | _ \<Rightarrow> None),
      risk_status = risk_open\<rparr>"

definition dependency_risk ::
  "(string \<Rightarrow> string) \<Rightarrow> (string \<Rightarrow> string) \<Rightarrow> repository_record \<Rightarrow> string \<Rightarrow> risk_record" where
  "dependency_risk sha repr r d =
     \<lparr>risk_id = stable_id sha ''risk'' (PDict
        [(''subject'', PStr (repo_id r)), (''dependency'', PStr d)]),
      risk_subject = repo_id r, severity = sev_medium, risk_category = ''unresolved_dependency'',
      risk_description = ''Dependency '' @ repr d @ '' does not resolve to an input repository.'',
      risk_rule_id = ''unresolved-dependency'', risk_rule_version = ''1.0.0'',
      risk_evidence_refs = repo_evidence_refs r,
      remediation = Some (''Provide the missing Repository Model Packet or mark the dependency external.''),
      risk_status = risk_open\<rparr>"

definition repository_risks ::
  "(string \<Rightarrow> string) \<Rightarrow> (string \<Rightarrow> string) \<Rightarrow> risk_rule list \<Rightarrow> repository_record \<Rightarrow>
   assessment_error + risk_record list" where
  "repository_risks sha repr rules r =
     (case collect (map (\<lambda>rule. map_sum id (\<lambda>b. (b, rule)) (triggered r rule)) rules) of
        Inl e \<Rightarrow> Inl e
      | Inr qs \<Rightarrow> Inr (map (\<lambda>q. rule_risk sha r (snd q)) (filter fst qs) @
          map (dependency_risk sha repr r) (unresolved_dependencies r)))"

definition assess_topology_risks ::
  "(string \<Rightarrow> string) \<Rightarrow> (string \<Rightarrow> string) \<Rightarrow> repository_record list \<Rightarrow> risk_rule list \<Rightarrow>
   assessment_error + risk_record list" where
  "assess_topology_risks sha repr repos rules =
     (case collect (map (repository_risks sha repr rules) repos) of
        Inl e \<Rightarrow> Inl e | Inr rs \<Rightarrow> Inr (sort_key risk_id (concat rs)))"

subsection \<open>Scores and bands\<close>

definition profile_sound :: "maturity_profile \<Rightarrow> bool" where
  "profile_sound prof \<longleftrightarrow>
     0 < mp_maximum prof \<and> list_ex (\<lambda>(label, t). t \<le> 0) (mp_bands prof) \<and>
     list_all (\<lambda>(d, rule). 0 \<le> mr_weight rule \<and>
       pred_option (\<lambda>s. s \<in> set (dkeys level_by_name)) (mr_minimum rule)) (mp_dimensions prof)"

lemma award_sound:
  assumes "0 \<le> mr_weight rule" and "pred_option (\<lambda>s. s \<in> set (dkeys level_by_name)) (mr_minimum rule)"
  shows "\<exists>n. award r evs rule = Inr n \<and> 0 \<le> n"
proof -
  have "\<exists>l. parse_level s = Inr l" if "s \<in> set (dkeys level_by_name)" for s
  proof -
    have "dget level_by_name s \<noteq> None" using that by (simp add: map_of_eq_None_iff)
    then show ?thesis by (auto simp: parse_level_def)
  qed
  then obtain b where "(case mr_minimum rule of None \<Rightarrow> Inr False
      | Some s \<Rightarrow> (case parse_level s of Inl e \<Rightarrow> Inl e
          | Inr l \<Rightarrow> Inr (l \<le> level (repo_confidence r)))) = (Inr b :: assessment_error + bool)"
    using assms(2) by (cases "mr_minimum rule") fastforce+
  then show ?thesis using assms(1) by (simp add: award_def Let_def)
qed

lemma collect_total:
  assumes "list_all (\<lambda>x. \<exists>y. f x = Inr y \<and> P x y) xs"
  shows "\<exists>ys. collect (map f xs) = Inr ys \<and> list_all2 P xs ys"
  using assms
proof (induction xs)
  case (Cons x xs)
  then obtain y ys where "f x = Inr y" "P x y" "collect (map f xs) = Inr ys" "list_all2 P xs ys" by auto
  then show ?case by (intro exI [of _ "y # ys"]) simp
qed simp

text \<open>The greatest threshold a score reaches decides its band.\<close>

definition band_of_score :: "(string, int) dict \<Rightarrow> int \<Rightarrow> string \<Rightarrow> bool" where
  "band_of_score bands score label \<longleftrightarrow>
     list_ex (\<lambda>(l, t). l = label \<and> t \<le> score \<and>
       list_all (\<lambda>(l', t'). t' \<le> score \<longrightarrow> t' \<le> t) bands) bands"

lemma band_for_sound:
  assumes "list_ex (\<lambda>(label, t). t \<le> score) bands"
  shows "\<exists>label. band_for score bands = Inr label \<and> band_of_score bands score label"
proof -
  let ?rs = "rev (sort (map (\<lambda>(label, t). (t, label)) bands))"
  let ?fs = "filter (\<lambda>(t, label). t \<le> score) ?rs"
  obtain l0 t0 where "(l0, t0) \<in> set bands" "t0 \<le> score"
    using assms by (auto simp: list_ex_iff)
  then have "(t0, l0) \<in> set ?fs" by force
  then have "?fs \<noteq> []" by (rule length_pos_if_in_set [THEN length_greater_0_conv [THEN iffD1]])
  then obtain q qs where fs: "?fs = q # qs" by (cases ?fs) auto
  obtain t label where q: "q = (t, label)" by fastforce
  have q_in: "q \<in> set ?fs" by (simp add: fs)
  have "sorted_wrt (\<ge>) ?rs" by (simp add: sorted_wrt_rev)
  then have "sorted_wrt (\<ge>) ?fs" by (rule sorted_wrt_filter)
  then have top: "y \<le> q" if "y \<in> set ?fs" for y using that unfolding fs by auto
  have max: "t' \<le> t" if "(l', t') \<in> set bands" "t' \<le> score" for l' t'
  proof -
    have "(t', l') \<in> set ?fs" using that by force
    from top [OF this] q show ?thesis by (auto simp: less_eq_prod_def)
  qed
  have b: "(label, t) \<in> set bands" "t \<le> score" using q_in unfolding q by auto
  have "band_for score bands = Inr label" by (simp only: band_for_def fs q list.case prod.case)
  moreover have "band_of_score bands score label"
    unfolding band_of_score_def list_ex_iff list_all_iff
    by (rule bexI [OF _ b(1)]) (use b(2) max in auto)
  ultimately show ?thesis by blast
qed

lemma banded_sound:
  assumes "profile_sound prof" and "0 \<le> score" and "score \<le> mp_maximum prof"
  shows "\<exists>m. banded prof r dims score = Inr m \<and> mat_subject m = repo_id r \<and>
    0 \<le> mat_score m \<and> mat_score m \<le> mp_maximum prof \<and> mat_maximum m = mp_maximum prof \<and>
    band_of_score (mp_bands prof) (mat_score m) (mat_band m)"
proof -
  obtain l t where "(l, t) \<in> set (mp_bands prof)" "t \<le> 0"
    using assms(1) by (auto simp: profile_sound_def list_ex_iff)
  with assms(2) have "list_ex (\<lambda>(label, t). t \<le> score) (mp_bands prof)"
    by (auto simp: list_ex_iff intro!: bexI [of _ "(l, t)"])
  from band_for_sound [OF this] assms show ?thesis
    by (auto simp: banded_def profile_sound_def)
qed

lemma assess_repository_sound:
  assumes "profile_sound prof"
  shows "\<exists>m. assess_repository prof evidence r = Inr m \<and> mat_subject m = repo_id r \<and>
    0 \<le> mat_score m \<and> mat_score m \<le> mp_maximum prof \<and> mat_maximum m = mp_maximum prof \<and>
    band_of_score (mp_bands prof) (mat_score m) (mat_band m)"
proof -
  let ?evs = "filter (\<lambda>e. ev_subject_id e = repo_id r) evidence"
  have "\<exists>n. (case q of (d, rule) \<Rightarrow> award r ?evs rule) = Inr n \<and> 0 \<le> n" if "q \<in> set (mp_dimensions prof)" for q
    using assms that award_sound by (fastforce simp: profile_sound_def list_all_iff)
  then obtain ns where ns: "collect (map (\<lambda>(d, rule). award r ?evs rule) (mp_dimensions prof)) = Inr ns"
    "list_all2 (\<lambda>q n. 0 \<le> n) (mp_dimensions prof) ns"
    using collect_total [of "\<lambda>(d, rule). award r ?evs rule" "\<lambda>q n. 0 \<le> n" "mp_dimensions prof"]
    by (auto simp: list_all_iff)
  have "0 \<le> sum_list ns" using ns(2) by (induction rule: list_all2_induct) simp_all
  then have "0 \<le> min (mp_maximum prof) (sum_list ns)" using assms by (simp add: profile_sound_def)
  from banded_sound [OF assms this min.cobounded1]
  show ?thesis unfolding assess_repository_def Let_def ns(1) sum.case .
qed

text \<open>
  Under a profile with non-negative weights, a positive maximum, known confidence levels and a band
  that starts at zero or below, maturity assessment always succeeds. Every repository gets one
  assessment, in order; its score lies between zero and the profile's maximum; and its band is
  the one with the greatest threshold the score reaches.
\<close>
theorem maturity_bounds:
  assumes "profile_sound prof"
  shows "\<exists>ms. assess_maturity repos evidence prof = Inr ms \<and>
    map mat_subject ms = map repo_id repos \<and>
    list_all (\<lambda>m. 0 \<le> mat_score m \<and> mat_score m \<le> mat_maximum m \<and>
      mat_maximum m = mp_maximum prof \<and>
      band_of_score (mp_bands prof) (mat_score m) (mat_band m)) ms"
proof -
  have "list_all (\<lambda>r. \<exists>m. assess_repository prof evidence r = Inr m \<and> (mat_subject m = repo_id r \<and>
      0 \<le> mat_score m \<and> mat_score m \<le> mp_maximum prof \<and> mat_maximum m = mp_maximum prof \<and>
      band_of_score (mp_bands prof) (mat_score m) (mat_band m))) repos"
    using assess_repository_sound [OF assms] by (simp add: list_all_iff)
  from collect_total [OF this] obtain ms where
    ms: "assess_maturity repos evidence prof = Inr ms" and
    all: "list_all2 (\<lambda>r m. mat_subject m = repo_id r \<and>
      0 \<le> mat_score m \<and> mat_score m \<le> mp_maximum prof \<and> mat_maximum m = mp_maximum prof \<and>
      band_of_score (mp_bands prof) (mat_score m) (mat_band m)) repos ms"
    unfolding assess_maturity_def by blast
  from all have "map mat_subject ms = map repo_id repos" and
    "list_all (\<lambda>m. 0 \<le> mat_score m \<and> mat_score m \<le> mat_maximum m \<and>
      mat_maximum m = mp_maximum prof \<and>
      band_of_score (mp_bands prof) (mat_score m) (mat_band m)) ms"
    by (induction rule: list_all2_induct) auto
  with ms show ?thesis by blast
qed

definition foundational_maturity :: maturity_profile where
  "foundational_maturity =
     \<lparr>mp_id = ''foundational-maturity'', mp_version = ''1.0.0'', mp_maximum = 100,
      mp_bands = [(''exemplary'', 90), (''mature'', 70), (''emerging'', 40), (''nascent'', 0)],
      mp_dimensions =
        [(''package_manifest'', \<lparr>mr_weight = 15, mr_field = Some ''package_managers'',
            mr_contains = None, mr_minimum = None\<rparr>),
         (''ci_workflow'', \<lparr>mr_weight = 20, mr_field = Some ''workflows'', mr_contains = None,
            mr_minimum = None\<rparr>),
         (''architecture_decisions'', \<lparr>mr_weight = 15, mr_field = Some ''adr_refs'',
            mr_contains = None, mr_minimum = None\<rparr>),
         (''governance'', \<lparr>mr_weight = 15, mr_field = Some ''governance_refs'',
            mr_contains = None, mr_minimum = None\<rparr>),
         (''documentation'', \<lparr>mr_weight = 10, mr_field = Some ''artifact_ids'',
            mr_contains = Some ''README'', mr_minimum = None\<rparr>),
         (''dependencies'', \<lparr>mr_weight = 10, mr_field = Some ''upstream_repository_ids'',
            mr_contains = None, mr_minimum = None\<rparr>),
         (''evidence_confidence'', \<lparr>mr_weight = 15, mr_field = None, mr_contains = None,
            mr_minimum = Some ''high''\<rparr>)]\<rparr>"

theorem maturity_bounds_witness:
  "\<exists>ms. assess_maturity [sample_repository ''a'' []] [] foundational_maturity = Inr ms \<and>
     map mat_subject ms = [''a'']"
proof -
  have "profile_sound foundational_maturity"
    by (simp add: profile_sound_def foundational_maturity_def level_by_name_def)
  from maturity_bounds [OF this, of "[sample_repository ''a'' []]" "[]"] show ?thesis
    by (auto simp: sample_repository_def)
qed

end
