(* ===== verification/Compiler.thy ===== *)
theory Compiler
  imports Ingest CorpusValidator ClaimProjection ReasoningRouter Assessment Impact
begin

text \<open>
  The composition of the stages, \<open>compile_topology\<close> of \<open>compiler.py\<close>, from the loaded packets to
  the topology state. A stage that raises ends the compile: its error is the \<open>Inl\<close> of the result.
  The profiles are the parsed content of their files.
\<close>

subsection \<open>Inputs\<close>

record compile_profile =
  cf_roles :: "(string, string list) dict option"
  cf_maturity :: maturity_profile
  cf_risk_rules :: "risk_rule list"

datatype compile_error =
    no_input_packets
  | corpus_inputs_missing ident "ident list"
  | corpus_rejected "string list"
  | input_rejected ingest_error
  | signal_rejected source_ref_error
  | impact_rejected impact_error
  | assessment_rejected assessment_error

definition bind_sum :: "'e + 'a \<Rightarrow> ('a \<Rightarrow> 'e + 'b) \<Rightarrow> 'e + 'b" where
  "bind_sum x f = (case x of Inl e \<Rightarrow> Inl e | Inr a \<Rightarrow> f a)"

lemma bind_sum_simps [simp]:
  "bind_sum (Inl e) f = Inl e" "bind_sum (Inr a) f = f a"
  "bind_sum x f = Inr b \<longleftrightarrow> (\<exists>a. x = Inr a \<and> f a = Inr b)"
  by (cases x; simp add: bind_sum_def)+

definition declared_inputs :: "corpus_packet \<Rightarrow> repository_packet list \<Rightarrow> repository_packet list" where
  "declared_inputs c ps = filter (\<lambda>p. rp_id p \<in> pr_packet_id ` set (cp_inputs c)) ps"

definition check_corpus_input ::
  "(string \<Rightarrow> string) \<Rightarrow> repository_packet list \<Rightarrow> corpus_packet \<Rightarrow> compile_error + unit" where
  "check_corpus_input repr ps c =
     (case missing_from (map pr_packet_id (cp_inputs c)) (map rp_id ps) of
        [] \<Rightarrow> map_sum corpus_rejected id (validate_corpus_packet repr c (declared_inputs c ps))
      | m # ms \<Rightarrow> Inl (corpus_inputs_missing (cp_id c) (m # ms)))"

definition corpus_evidence ::
  "(string \<Rightarrow> string) \<Rightarrow> corpus_packet \<Rightarrow> source_ref_error + evidence_record list" where
  "corpus_evidence sha c = map_sum id (\<lambda>signals.
     signals @ duplicate_evidence_records sha c @ corpus_scope_evidence_records sha c)
     (signal_evidence_records sha c)"

definition domain_unknown ::
  "(string \<Rightarrow> string) \<Rightarrow> (string \<Rightarrow> string) \<Rightarrow> corpus_packet \<Rightarrow> domain_not_run \<Rightarrow> unknown_record" where
  "domain_unknown sha repr c d =
     (let k = desc_corpus_id (cp_corpus c) in
      \<lparr>unknown_id = stable_id sha ''unknown'' (PDict
         [(''source_packet_id'', PStr (cp_id c)), (''subject_id'', PStr k),
          (''field'', PStr (not_run_domain d)), (''reason'', PStr (not_run_reason d))]),
       unk_subject = k, unk_field = Some (not_run_domain d),
       unk_reason = ''Corpus analysis domain '' @ repr (not_run_domain d) @ '' was not run: '' @
         not_run_reason d,
       unk_evidence_refs = map evidence_id (filter (\<lambda>r. ev_subject_id r = k)
         (corpus_scope_evidence_records sha c))\<rparr>)"

definition domains_not_run_unknowns ::
  "(string \<Rightarrow> string) \<Rightarrow> (string \<Rightarrow> string) \<Rightarrow> corpus_packet list \<Rightarrow> unknown_record list" where
  "domains_not_run_unknowns sha repr cs = sort_key unknown_id (concat (map (\<lambda>c.
     map (domain_unknown sha repr c)
       (case cp_domains_not_run c of None \<Rightarrow> [] | Some ds \<Rightarrow> ds)) cs))"

subsection \<open>What the statements and the evidence establish\<close>

record knowledge =
  kn_evidence :: "evidence_record list"
  kn_repositories :: "repository_record list"
  kn_claims :: "semantic_claim list"
  kn_projection :: claim_projection
  kn_work :: work_projection
  kn_conflicts :: "conflict_record list"
  kn_unknowns :: "unknown_record list"
  kn_diagnostics :: "diagnostic_record list"
  kn_capabilities :: "capability_record list"

definition statements_of :: "normalized_inputs \<Rightarrow> corpus_packet list \<Rightarrow> semantic_input list" where
  "statements_of n cs =
     map assertion_semantic_input (nm_assertions n) @
     concat (map (\<lambda>c. map signal_semantic_input (packet_signals c)) cs)"

definition all_conflicts ::
  "conflict_record list \<Rightarrow> conflict_record list \<Rightarrow> conflict_record list \<Rightarrow> conflict_record list \<Rightarrow>
   conflict_record list" where
  "all_conflicts from_evidence from_repositories from_capabilities from_claims =
     from_evidence @ from_repositories @ from_capabilities @ from_claims"

definition establish ::
  "(string \<Rightarrow> string) \<Rightarrow> (string \<Rightarrow> string) \<Rightarrow> (pyval \<Rightarrow> string) \<Rightarrow> compile_profile \<Rightarrow>
   normalized_inputs \<Rightarrow> evidence_record list \<Rightarrow> corpus_packet list \<Rightarrow> knowledge" where
  "establish sha repr str_of cf n signal_evidence cs =
     (case reconcile_evidence sha str_of (nm_evidence n @ signal_evidence) of
        (evidence, evidence_conflicts, evidence_unknowns) \<Rightarrow>
      case aggregate_repositories sha repr (nm_repositories n) of
        (repositories, repo_conflicts, repo_unknowns) \<Rightarrow>
      (let roles = map (classify_repository (cf_roles cf)) repositories;
           out = reconcile_assertions sha repr (statements_of n cs) evidence;
           projection = project_claims sha repr (out_claims out);
           work = project_work_relations sha (out_claims out) (nm_artifacts n);
           claims = apply_projection (out_claims out)
             (merge_projected_entities [proj_entities projection, wp_entities work]) in
       case aggregate_capabilities sha
         (build_capabilities roles (nm_artifacts n) (nm_capabilities n) @
          proj_capabilities projection) of
        (capabilities, capability_conflicts) \<Rightarrow>
      \<lparr>kn_evidence = evidence, kn_repositories = roles, kn_claims = claims,
       kn_projection = projection, kn_work = work,
       kn_conflicts = all_conflicts evidence_conflicts repo_conflicts capability_conflicts
         (out_conflicts out),
       kn_unknowns = repo_unknowns @ evidence_unknowns @
         derive_unknowns sha str_of (nm_diagnostics n) @ domains_not_run_unknowns sha repr cs @
         out_unknowns out @ wp_unknowns work,
       kn_diagnostics = nm_diagnostics n @ out_diagnostics out,
       kn_capabilities = capabilities\<rparr>))"

subsection \<open>The canonical graph\<close>

record canonical_graph =
  cg_corpora :: "corpus_record list"
  cg_roots :: "root_record list"
  cg_records :: "graph_record list"
  cg_edges :: "edge_record list"

definition duplicate_evidence_index ::
  "(string \<Rightarrow> string) \<Rightarrow> corpus_packet list \<Rightarrow> (ident, ident list) dict" where
  "duplicate_evidence_index sha cs =
     fold (\<lambda>c d. fold (\<lambda>(k, v). dput k v) (duplicate_evidence_by_relation sha c) d) cs []"

definition connect ::
  "(string \<Rightarrow> string) \<Rightarrow> normalized_inputs \<Rightarrow> corpus_packet list \<Rightarrow> knowledge \<Rightarrow> canonical_graph" where
  "connect sha n cs kn =
     (let scope = stamp_scope (corpus_evidence_by_subject sha cs) (compile_corpus_scope cs);
          dups = build_duplicate_edges sha (concat (map packet_duplicates cs))
            (duplicate_evidence_index sha cs) in
      case corpus_scope_graph sha scope of (corpus_nodes, corpus_edges) \<Rightarrow>
      case build_topology_graph sha (kn_repositories kn) (nm_artifacts n) (kn_capabilities kn)
          (nm_relationships n @ proj_edges (kn_projection kn) @ wp_edges (kn_work kn) @ dups @
           corpus_edges)
          (proj_nodes (kn_projection kn) @ wp_nodes (kn_work kn) @ corpus_nodes) of
        (records, edges) \<Rightarrow>
      \<lparr>cg_corpora = fst scope, cg_roots = snd scope, cg_records = records, cg_edges = edges\<rparr>)"

subsection \<open>Candidates, measured against the canonical graph\<close>

record candidate_stage =
  cd_readiness :: "readiness_record list"
  cd_relations :: "candidate_relation list"
  cd_clusters :: "cluster_record list"
  cd_reasoning :: "reasoning_candidate list"

definition propose ::
  "(string \<Rightarrow> string) \<Rightarrow> normalized_inputs \<Rightarrow> corpus_packet list \<Rightarrow> knowledge \<Rightarrow> canonical_graph \<Rightarrow>
   candidate_stage" where
  "propose sha n cs kn g =
     (let readiness = concat (map compile_readiness_evidence cs);
          owners = fold (\<lambda>a. dput (art_id a) (art_repository_id a)) (nm_artifacts n) [];
          ix = structural_index_of (nm_artifacts n) (cg_edges g) (kn_claims kn) (kn_conflicts kn)
            (root_by_artifact cs owners);
          clusters = concat (map (compile_candidate_clusters ix (readiness_by_subject readiness)) cs) in
      \<lparr>cd_readiness = readiness, cd_relations = concat (map compile_candidate_relations cs),
       cd_clusters = clusters,
       cd_reasoning = route_reasoning_candidates sha clusters cs (cg_edges g) (kn_conflicts kn)
         (kn_unknowns kn)\<rparr>)"

subsection \<open>The state\<close>

definition graph_key :: "graph_record \<Rightarrow> string \<times> ident" where
  "graph_key g = (case g_record_type g of rt_node \<Rightarrow> ''node'' | rt_edge \<Rightarrow> ''edge'', g_entity_id g)"

definition assemble ::
  "normalized_inputs \<Rightarrow> knowledge \<Rightarrow> canonical_graph \<Rightarrow> candidate_stage \<Rightarrow> flow_record list \<Rightarrow>
   impact_index list \<Rightarrow> maturity_assessment list \<Rightarrow> risk_record list \<Rightarrow> topology_state" where
  "assemble n kn g cd flows impacts mats rks =
     \<lparr>repository_records = sort_key repo_id (kn_repositories kn),
      artifact_records = sort_key art_id (nm_artifacts n),
      capability_records = sort_key cap_id (kn_capabilities kn),
      semantic_claims = sort_key claim_id (kn_claims kn),
      edge_records = sort_key edge_id (cg_edges g),
      flow_records = sort_key flow_id flows,
      graph_records = sort_key graph_key (sort_key graph_key
        (cg_records g @ candidate_graph_records (cd_relations cd) (cd_clusters cd))),
      risks = sort_key risk_id rks,
      maturity = sort_key mat_subject mats,
      impact_indexes = sort_key imp_subject impacts,
      corpus_records = sort_key corpus_id (cg_corpora g),
      root_records = sort_key root_id (cg_roots g),
      candidate_relations = sort_key crel_id (cd_relations cd),
      candidate_clusters = sort_key cl_id (cd_clusters cd),
      readiness_evidence = sort_key rd_id (cd_readiness cd),
      reasoning_candidates = sort_key rc_id (cd_reasoning cd),
      state_evidence = sort_key evidence_id (kn_evidence kn),
      diagnostics = sort_key diagnostic_id (kn_diagnostics kn),
      unknowns = sort_key unknown_id (kn_unknowns kn),
      conflicts = sort_key conflict_id (kn_conflicts kn)\<rparr>"

definition assess_impacts ::
  "repository_record list \<Rightarrow> edge_record list \<Rightarrow> impact_error + impact_index list" where
  "assess_impacts repos edges =
     collect (map (\<lambda>r. assess_impact (repo_id r) edges downstream 10 None level_low False []) repos)"

definition materialize ::
  "(string \<Rightarrow> string) \<Rightarrow> (string \<Rightarrow> string) \<Rightarrow> (pyval \<Rightarrow> string) \<Rightarrow> compile_profile \<Rightarrow>
   normalized_inputs \<Rightarrow> evidence_record list \<Rightarrow> corpus_packet list \<Rightarrow> compile_error + topology_state"
  where
  "materialize sha repr str_of cf n signal_evidence cs =
     (let kn = establish sha repr str_of cf n signal_evidence cs; g = connect sha n cs kn in
      bind_sum (map_sum impact_rejected id (assess_impacts (kn_repositories kn) (cg_edges g))) (\<lambda>impacts.
      bind_sum (map_sum assessment_rejected id
        (assess_maturity (kn_repositories kn) (kn_evidence kn) (cf_maturity cf))) (\<lambda>mats.
      bind_sum (map_sum assessment_rejected id
        (assess_topology_risks sha repr (kn_repositories kn) (cf_risk_rules cf))) (\<lambda>rks.
      Inr (assemble n kn g (propose sha n cs kn g) (build_flows sha (cg_edges g)) impacts mats rks)))))"

definition compile_state ::
  "(string \<Rightarrow> string) \<Rightarrow> (string \<Rightarrow> string) \<Rightarrow> (pyval \<Rightarrow> string) \<Rightarrow> compile_profile \<Rightarrow>
   repository_packet list \<Rightarrow> corpus_packet list \<Rightarrow> compile_error + topology_state" where
  "compile_state sha repr str_of cf ps cs =
     (if ps = [] then Inl no_input_packets
      else bind_sum (collect (map (check_corpus_input repr ps) cs)) (\<lambda>_.
        bind_sum (map_sum input_rejected id (adapt_packets sha repr str_of ps)) (\<lambda>models.
        bind_sum (map_sum signal_rejected id (collect (map (corpus_evidence sha) cs))) (\<lambda>evs.
        materialize sha repr str_of cf (normalize_models models) (concat evs) cs))))"

subsection \<open>Candidates do not reach the canonical topology\<close>

text \<open>A corpus packet without what it only proposes.\<close>

definition without_candidates :: "corpus_packet \<Rightarrow> corpus_packet" where
  "without_candidates c = c\<lparr>cp_payload := map_option (\<lambda>l. l\<lparr>pair_relations := [],
     topic_candidates := [], project_candidates := [], consolidation_candidates := [],
     readiness_measurements := [], reasoning_requests := [], evidence_pack_refs := []\<rparr>) (cp_payload c)\<rparr>"

lemma without_candidates_simps [simp]:
  "cp_id (without_candidates c) = cp_id c"
  "cp_corpus (without_candidates c) = cp_corpus c"
  "cp_inputs (without_candidates c) = cp_inputs c"
  "cp_producer (without_candidates c) = cp_producer c"
  "cp_domains_not_run (without_candidates c) = cp_domains_not_run c"
  "packet_signals (without_candidates c) = packet_signals c"
  "packet_duplicates (without_candidates c) = packet_duplicates c"
  by (simp_all add: without_candidates_def packet_signals_def packet_duplicates_def split: option.split)

lemma without_candidates_evidence [simp]:
  "signal_evidence_records sha (without_candidates c) = signal_evidence_records sha c"
  "duplicate_evidence_records sha (without_candidates c) = duplicate_evidence_records sha c"
  "duplicate_evidence_by_relation sha (without_candidates c) = duplicate_evidence_by_relation sha c"
  "corpus_scope_evidence_records sha (without_candidates c) = corpus_scope_evidence_records sha c"
  "corpus_evidence sha (without_candidates c) = corpus_evidence sha c"
proof -
  have s: "signal_evidence_record sha (without_candidates c) = signal_evidence_record sha c"
    by (rule ext) (simp add: signal_evidence_record_def signal_source_ref_def)
  have p: "packet_evidence sha (without_candidates c) = packet_evidence sha c"
    by (intro ext) (simp add: packet_evidence_def)
  have d: "duplicate_evidence_record sha (without_candidates c) = duplicate_evidence_record sha c"
    by (rule ext) (simp add: duplicate_evidence_record_def p)
  have r: "root_evidence sha (without_candidates c) = root_evidence sha c"
    by (rule ext) (simp add: root_evidence_def p)
  show 1: "signal_evidence_records sha (without_candidates c) = signal_evidence_records sha c"
    by (simp add: signal_evidence_records_def s)
  show 2: "duplicate_evidence_records sha (without_candidates c) = duplicate_evidence_records sha c"
    by (simp add: duplicate_evidence_records_def d)
  show "duplicate_evidence_by_relation sha (without_candidates c) = duplicate_evidence_by_relation sha c"
    by (simp add: duplicate_evidence_by_relation_def 2)
  show 3: "corpus_scope_evidence_records sha (without_candidates c) = corpus_scope_evidence_records sha c"
    by (simp add: corpus_scope_evidence_records_def r corpus_descriptor_evidence_def p)
  show "corpus_evidence sha (without_candidates c) = corpus_evidence sha c"
    by (simp add: corpus_evidence_def 1 2 3)
qed

lemma map_without_candidates:
  assumes "\<And>c. f (without_candidates c) = f c"
  shows "map f (map without_candidates cs) = map f cs"
  using assms by simp

lemma establish_without_candidates:
  "establish sha repr str_of cf n evs (map without_candidates cs) = establish sha repr str_of cf n evs cs"
proof -
  have "domain_unknown sha repr (without_candidates c) = domain_unknown sha repr c" for c
    by (rule ext) (simp add: domain_unknown_def)
  then have "domains_not_run_unknowns sha repr (map without_candidates cs) =
      domains_not_run_unknowns sha repr cs"
    by (simp add: domains_not_run_unknowns_def comp_def)
  moreover have "statements_of n (map without_candidates cs) = statements_of n cs"
    by (simp add: statements_of_def comp_def)
  ultimately show ?thesis by (simp only: establish_def)
qed

lemma scope_without_candidates:
  "compile_corpus_scope (map without_candidates cs) = compile_corpus_scope cs"
  "corpus_evidence_by_subject sha (map without_candidates cs) = corpus_evidence_by_subject sha cs"
  "duplicate_evidence_index sha (map without_candidates cs) = duplicate_evidence_index sha cs"
proof -
  have "corpus_record_of (without_candidates c) = corpus_record_of c" for c
    by (simp add: corpus_record_of_def)
  then show "compile_corpus_scope (map without_candidates cs) = compile_corpus_scope cs"
    by (simp add: compile_corpus_scope_def packet_roots_def comp_def)
  show "corpus_evidence_by_subject sha (map without_candidates cs) = corpus_evidence_by_subject sha cs"
    by (simp add: corpus_evidence_by_subject_def comp_def)
  show "duplicate_evidence_index sha (map without_candidates cs) = duplicate_evidence_index sha cs"
    by (simp add: duplicate_evidence_index_def fold_map comp_def)
qed

lemma connect_without_candidates:
  "connect sha n (map without_candidates cs) kn = connect sha n cs kn"
proof -
  have "map packet_duplicates (map without_candidates cs) = map packet_duplicates cs" by simp
  then show ?thesis by (simp only: connect_def scope_without_candidates)
qed

lemma no_candidates:
  "compile_readiness_evidence (without_candidates c) = []"
  "compile_candidate_relations (without_candidates c) = []"
  "compile_candidate_clusters ix rd (without_candidates c) = []"
  by (simp_all add: without_candidates_def compile_readiness_evidence_def
      compile_candidate_relations_def compile_candidate_clusters_def all_candidates_def split: option.split)

lemma propose_without_candidates:
  "propose sha n (map without_candidates cs) kn g =
     \<lparr>cd_readiness = [], cd_relations = [], cd_clusters = [], cd_reasoning = []\<rparr>"
proof -
  have nil: "concat (map (\<lambda>_. []) cs) = []" by (induction cs) simp_all
  show ?thesis
    by (simp add: propose_def no_candidates route_reasoning_candidates_def Let_def comp_def nil)
qed

lemma validate_corpus_packet_Inr:
  "validate_corpus_packet repr p ps = Inr () \<longleftrightarrow>
     (\<exists>l. cp_payload p = Some l \<and> check_roots p ps = [] \<and>
       concat (map (signal_errors repr (artifact_identities ps) (artifact_only_identities ps))
         (work_signals l)) = [] \<and>
       check_duplicates repr l (artifact_only_identities ps) = [] \<and>
       check_pairs l (artifact_only_identities ps) = [] \<and>
       check_candidates l (artifact_only_identities ps) = [] \<and>
       check_readiness l (artifact_identities ps) = [] \<and>
       concat (map (request_errors l (artifact_only_identities ps)) (reasoning_requests l)) = [] \<and>
       check_domains_not_run p l = [])"
proof (cases "cp_payload p")
  case (Some l)
  then show ?thesis
    by (simp only: validate_corpus_packet_def Let_def option.case if_not_Inr)
      (simp only: append_is_Nil_conv option.inject ex_simps simp_thms)
qed (simp add: validate_corpus_packet_def)

lemma check_without_candidates:
  assumes "check_corpus_input repr ps c = Inr ()"
  shows "check_corpus_input repr ps (without_candidates c) = Inr ()"
proof -
  let ?d = "declared_inputs c ps"
  have m: "missing_from (map pr_packet_id (cp_inputs c)) (map rp_id ps) = []"
    and v: "validate_corpus_packet repr c ?d = Inr ()"
    using assms by (auto simp: check_corpus_input_def map_sum_def split: list.splits sum.splits)
  have d: "declared_inputs (without_candidates c) ps = ?d" by (simp add: declared_inputs_def)
  have r: "check_roots (without_candidates c) ?d = check_roots c ?d" by (simp add: check_roots_def)
  obtain l where l: "cp_payload c = Some l" and e: "check_roots c ?d = []"
      "concat (map (signal_errors repr (artifact_identities ?d) (artifact_only_identities ?d))
        (work_signals l)) = []"
      "check_duplicates repr l (artifact_only_identities ?d) = []" "check_domains_not_run c l = []"
    using v unfolding validate_corpus_packet_Inr by blast
  let ?l = "l\<lparr>pair_relations := [], topic_candidates := [], project_candidates := [],
     consolidation_candidates := [], readiness_measurements := [], reasoning_requests := [],
     evidence_pack_refs := []\<rparr>"
  have p: "cp_payload (without_candidates c) = Some ?l" by (simp add: without_candidates_def l)
  have "check_duplicates repr ?l = check_duplicates repr l"
    by (rule ext) (simp add: check_duplicates_def)
  moreover have "domain_empty l k \<Longrightarrow> domain_empty ?l k" for k by (auto simp: domain_empty_def)
  then have "check_domains_not_run (without_candidates c) ?l = []"
    using e(4) by (auto simp: check_domains_not_run_def filter_empty_conv split: option.splits)
  ultimately have "validate_corpus_packet repr (without_candidates c) ?d = Inr ()"
    unfolding validate_corpus_packet_Inr
    by (intro exI [of _ ?l] conjI)
      (use p r e in \<open>simp_all add: check_pairs_def check_candidates_def all_candidates_def check_readiness_def\<close>)
  then show ?thesis by (simp add: check_corpus_input_def m d)
qed

lemma checks_without_candidates:
  assumes "collect (map (check_corpus_input repr ps) cs) = Inr us"
  shows "collect (map (check_corpus_input repr ps) (map without_candidates cs)) = Inr us"
proof -
  have "list_all2 (\<lambda>c u. check_corpus_input repr ps c = Inr u) cs us"
    using assms by (simp only: collect_map)
  then have "list_all2 (\<lambda>c u. check_corpus_input repr ps (without_candidates c) = Inr u) cs us"
    by (rule list_all2_mono) (simp add: check_without_candidates)
  then show ?thesis by (simp add: comp_def collect_map)
qed

definition canonical_part :: "topology_state \<Rightarrow> topology_state" where
  "canonical_part s = s\<lparr>graph_records := [], candidate_relations := [], candidate_clusters := [],
     readiness_evidence := [], reasoning_candidates := []\<rparr>"

lemma assemble_parts:
  "canonical_part (assemble n kn g cd fs is ms rs) = canonical_part (assemble n kn g cd' fs is ms rs)"
  "mset (graph_records (assemble n kn g cd fs is ms rs)) =
     mset (cg_records g) + mset (candidate_graph_records (cd_relations cd) (cd_clusters cd))"
  "mset (candidate_graph_records (candidate_relations (assemble n kn g cd fs is ms rs))
     (candidate_clusters (assemble n kn g cd fs is ms rs))) =
   mset (candidate_graph_records (cd_relations cd) (cd_clusters cd))"
  "candidate_relations (assemble n kn g cd fs is ms rs) = sort_key crel_id (cd_relations cd)"
  "candidate_clusters (assemble n kn g cd fs is ms rs) = sort_key cl_id (cd_clusters cd)"
  "readiness_evidence (assemble n kn g cd fs is ms rs) = sort_key rd_id (cd_readiness cd)"
  "reasoning_candidates (assemble n kn g cd fs is ms rs) = sort_key rc_id (cd_reasoning cd)"
  by (simp_all add: canonical_part_def assemble_def candidate_graph_records_def)

text \<open>A compile that is not refused, taken apart.\<close>

lemma compile_state_cases:
  assumes "compile_state sha repr str_of cf ps cs = Inr s"
  obtains us models evs impacts mats rks kn g where
    "ps \<noteq> []" and "collect (map (check_corpus_input repr ps) cs) = Inr us"
    and "adapt_packets sha repr str_of ps = Inr models"
    and "collect (map (corpus_evidence sha) cs) = Inr evs"
    and "kn = establish sha repr str_of cf (normalize_models models) (concat evs) cs"
    and "g = connect sha (normalize_models models) cs kn"
    and "assess_impacts (kn_repositories kn) (cg_edges g) = Inr impacts"
    and "assess_maturity (kn_repositories kn) (kn_evidence kn) (cf_maturity cf) = Inr mats"
    and "assess_topology_risks sha repr (kn_repositories kn) (cf_risk_rules cf) = Inr rks"
    and "s = assemble (normalize_models models) kn g
      (propose sha (normalize_models models) cs kn g) (build_flows sha (cg_edges g)) impacts mats rks"
proof -
  have m: "map_sum f id x = Inr y \<longleftrightarrow> x = Inr y" for f :: "'x \<Rightarrow> 'y" and x :: "'x + 'z" and y
    by (cases x) simp_all
  show ?thesis
    using assms that
    by (simp only: compile_state_def materialize_def Let_def bind_sum_simps if_split_eq1 m sum.inject
        sum.distinct simp_thms) metis
qed

lemma compile_stateI:
  assumes "ps \<noteq> []" and "collect (map (check_corpus_input repr ps) cs) = Inr us"
    and "adapt_packets sha repr str_of ps = Inr models"
    and "collect (map (corpus_evidence sha) cs) = Inr evs"
    and "kn = establish sha repr str_of cf (normalize_models models) (concat evs) cs"
    and "g = connect sha (normalize_models models) cs kn"
    and "assess_impacts (kn_repositories kn) (cg_edges g) = Inr impacts"
    and "assess_maturity (kn_repositories kn) (kn_evidence kn) (cf_maturity cf) = Inr mats"
    and "assess_topology_risks sha repr (kn_repositories kn) (cf_risk_rules cf) = Inr rks"
  shows "compile_state sha repr str_of cf ps cs = Inr (assemble (normalize_models models) kn g
      (propose sha (normalize_models models) cs kn g) (build_flows sha (cg_edges g)) impacts mats rks)"
  using assms by (simp add: compile_state_def materialize_def Let_def)

end
