(* ===== verification/DependencyCycles.thy ===== *)
theory DependencyCycles
  imports Impact
begin

text \<open>
  The dependency cycle scan of \<open>validation/topology_validator.py\<close>. The code's depth-first visit
  carries the path as an argument and cuts off paths longer than the number of graph nodes plus
  one, which bounds the recursion; the lemmas show that the cut-off never loses a cycle.
\<close>

subsection \<open>The scan\<close>

type_synonym dependency_graph = "(ident, ident list) dict"

definition dependency_graph_of :: "edge_record list \<Rightarrow> dependency_graph" where
  "dependency_graph_of es =
     fold (\<lambda>e. dappend (edge_source e) (edge_target e))
       (filter (\<lambda>e. edge_type_of e = DEPENDS_ON) es) []"

text \<open>\<open>path.index(node)\<close>, for a node of the path.\<close>

fun index_of :: "'a \<Rightarrow> 'a list \<Rightarrow> nat" where
  "index_of x [] = 0"
| "index_of x (y # ys) = (if x = y then 0 else Suc (index_of x ys))"

text \<open>The rotations of a cycle, closed by their first node, and the least of them.\<close>

definition closed_rotations :: "ident list \<Rightarrow> ident list list" where
  "closed_rotations body = map (\<lambda>i. drop i body @ take i body @ [body ! i]) [0..<length body]"

definition canonical_cycle :: "ident list \<Rightarrow> ident list" where
  "canonical_cycle body = min_list (closed_rotations body)"

function visit :: "dependency_graph \<Rightarrow> ident list \<Rightarrow> ident \<Rightarrow> ident list list" where
  "visit g path node =
     (if node \<in> set path then [canonical_cycle (drop (index_of node path) path)]
      else if length g + 1 < length path then []
      else concat (map (visit g (path @ [node])) (usort (dget_default [] g node))))"
  by pat_completeness auto
termination
  by (relation "measure (\<lambda>(g, path, node). length g + 2 - length path)") auto

declare visit.simps [simp del]

definition dependency_cycles :: "edge_record list \<Rightarrow> ident list list" where
  "dependency_cycles es =
     (let g = dependency_graph_of es in usort (concat (map (visit g []) (sort (dkeys g)))))"

subsection \<open>Elementary cycles\<close>

definition depends :: "edge_record list \<Rightarrow> ident \<Rightarrow> ident \<Rightarrow> bool" where
  "depends es x y \<longleftrightarrow>
     list_ex (\<lambda>e. edge_type_of e = DEPENDS_ON \<and> edge_source e = x \<and> edge_target e = y) es"

fun linked :: "('a \<Rightarrow> 'a \<Rightarrow> bool) \<Rightarrow> 'a list \<Rightarrow> bool" where
  "linked R (x # y # xs) = (R x y \<and> linked R (y # xs))"
| "linked R _ = True"

text \<open>A nonempty list of distinct nodes, each depending on the next and the last on the first.\<close>

definition elementary_cycle :: "edge_record list \<Rightarrow> ident list \<Rightarrow> bool" where
  "elementary_cycle es body \<longleftrightarrow>
     body \<noteq> [] \<and> distinct body \<and> linked (depends es) body \<and> depends es (last body) (hd body)"

lemma linked_append:
  "linked R (xs @ ys) \<longleftrightarrow> linked R xs \<and> linked R ys \<and> (xs \<noteq> [] \<longrightarrow> ys \<noteq> [] \<longrightarrow> R (last xs) (hd ys))"
proof (induction xs)
  case (Cons x xs)
  then show ?case by (cases xs; cases ys) auto
qed simp

lemma linked_drop: "linked R xs \<Longrightarrow> linked R (drop n xs)"
  using linked_append [of R "take n xs" "drop n xs"] by simp

lemma linked_nth: "linked R xs \<Longrightarrow> Suc i < length xs \<Longrightarrow> R (xs ! i) (xs ! Suc i)"
proof (induction xs arbitrary: i)
  case (Cons x xs)
  then show ?case by (cases xs; cases i) auto
qed simp

lemma dependency_targets: "set (dget_default [] (dependency_graph_of es) x) = {y. depends es x y}"
  by (auto simp: dependency_graph_of_def dget_dappend_fold dget_default_Nil depends_def list_ex_iff)

lemma dependency_keys: "set (dkeys (dependency_graph_of es)) = {x. \<exists>y. depends es x y}"
proof -
  have "fst ` set (fold (\<lambda>e. dappend (f e) (h e)) es d) = fst ` set d \<union> f ` set es"
    for f :: "edge_record \<Rightarrow> ident" and h :: "edge_record \<Rightarrow> ident" and es d
    by (induction es arbitrary: d) (auto simp: keys_dappend)
  then show ?thesis by (auto simp: dependency_graph_of_def depends_def list_ex_iff)
qed

lemma index_of_split:
  assumes "x \<in> set xs"
  shows "index_of x xs < length xs" and "xs ! index_of x xs = x"
proof -
  have "index_of x xs < length xs \<and> xs ! index_of x xs = x"
    using assms by (induction xs) auto
  then show "index_of x xs < length xs" and "xs ! index_of x xs = x" by simp_all
qed

lemma index_of_nth: "distinct xs \<Longrightarrow> i < length xs \<Longrightarrow> index_of (xs ! i) xs = i"
proof (induction xs arbitrary: i)
  case (Cons x xs)
  then show ?case by (cases i) auto
qed simp

subsection \<open>Every reported cycle is one\<close>

lemma visit_sound:
  assumes "distinct path" and "linked (depends es) path"
    and "path \<noteq> [] \<Longrightarrow> depends es (last path) node"
    and "c \<in> set (visit (dependency_graph_of es) path node)"
  shows "\<exists>body. elementary_cycle es body \<and> c = canonical_cycle body"
  using assms
proof (induction "dependency_graph_of es" path node rule: visit.induct)
  case (1 path node)
  show ?case
  proof (cases "node \<in> set path")
    case True
    let ?body = "drop (index_of node path) path"
    note ix = index_of_split [OF True]
    have "hd ?body = node" "last ?body = last path" "path \<noteq> []"
      using ix by (auto simp: hd_drop_conv_nth)
    then have "elementary_cycle es ?body"
      using ix 1(2-4) by (auto simp: elementary_cycle_def linked_drop)
    then show ?thesis using 1(5) True by (subst (asm) visit.simps) auto
  next
    case False
    with 1(5) obtain t where t: "t \<in> set (usort (dget_default [] (dependency_graph_of es) node))"
      and c: "c \<in> set (visit (dependency_graph_of es) (path @ [node]) t)"
      and len: "\<not> length (dependency_graph_of es) + 1 < length path"
      by (subst (asm) visit.simps) (auto split: if_splits)
    from t have "depends es node t" by (simp add: dependency_targets)
    moreover have "linked (depends es) (path @ [node])"
      using 1(3,4) by (simp add: linked_append)
    ultimately show ?thesis
      using 1(1) [OF False len t] 1(2) False c by simp
  qed
qed

subsection \<open>Every cycle is reported\<close>

lemma visit_step:
  assumes "node \<notin> set path" and "length path \<le> length g + 1" and "t \<in> set (dget_default [] g node)"
    and "c \<in> set (visit g (path @ [node]) t)"
  shows "c \<in> set (visit g path node)"
  using assms by (subst visit.simps) auto

lemma visit_complete_from:
  assumes "elementary_cycle es body" and "k < length body"
  shows "canonical_cycle body \<in> set (visit (dependency_graph_of es) (take k body) (body ! k))"
  using assms(2)
proof (induction "length body - k" arbitrary: k)
  case (Suc n)
  let ?g = "dependency_graph_of es"
  have cyc: "distinct body" "linked (depends es) body" "depends es (last body) (hd body)" "body \<noteq> []"
    using assms(1) by (simp_all add: elementary_cycle_def)
  have dep: "depends es (body ! i) (body ! (if Suc i = length body then 0 else Suc i))"
    if "i < length body" for i
  proof (cases "Suc i = length body")
    case True
    then have "body ! i = last body" using last_conv_nth [OF cyc(4)] by (metis diff_Suc_1)
    then show ?thesis using cyc(3,4) True by (simp add: hd_conv_nth)
  next
    case False
    then show ?thesis using linked_nth [OF cyc(2)] that by simp
  qed
  have "set body \<subseteq> set (dkeys ?g)"
  proof
    fix x assume "x \<in> set body"
    then obtain i where "i < length body" "body ! i = x" by (auto simp: in_set_conv_nth)
    with dep [of i] show "x \<in> set (dkeys ?g)" unfolding dependency_keys by blast
  qed
  then have "length body \<le> length ?g"
    using cyc(1) card_mono [of "set (dkeys ?g)" "set body"] card_length [of "dkeys ?g"]
    by (simp add: distinct_card)
  then have len: "length (take k body) \<le> length ?g + 1" by simp
  have new: "body ! k \<notin> set (take k body)"
    using cyc(1) Suc.prems by (auto simp: in_set_conv_nth nth_eq_iff_index_eq)
  have t: "body ! (if Suc k = length body then 0 else Suc k) \<in> set (dget_default [] ?g (body ! k))"
    using dep [OF Suc.prems] by (simp add: dependency_targets)
  have snoc: "take k body @ [body ! k] = take (Suc k) body"
    using Suc.prems by (simp add: take_Suc_conv_app_nth)
  have "canonical_cycle body \<in> set (visit ?g (take k body @ [body ! k])
      (body ! (if Suc k = length body then 0 else Suc k)))"
  proof (cases "Suc k = length body")
    case True
    have "index_of (body ! 0) body = 0" using index_of_nth [OF cyc(1), of 0] cyc(4) by simp
    moreover have "body ! 0 \<in> set body" using cyc(4) by simp
    ultimately show ?thesis using True snoc by (simp add: visit.simps)
  next
    case False
    have "n = length body - Suc k" "Suc k < length body" using Suc.hyps(2) Suc.prems False by simp_all
    from Suc.hyps(1) [OF this] show ?thesis using False snoc by simp
  qed
  then show ?case by (rule visit_step [OF new len t])
qed simp


end
