(* ===== verification/Validation.thy ===== *)
theory Validation
  imports DependencyCycles ReconcileAssertions
begin

text \<open>
  The checks of \<open>validation/topology_validator.py\<close> on a materialized state and its inputs:
  identities, edge endpoints, revisions, paths, conflicts, cycles, evidence, and conservation of
  diagnostics, statements and input references. The JSON Schema checks (a third-party engine)
  and the hash checks of the packet model are not part of this theory.
\<close>

datatype check_class = class_schema | class_invariant | class_evidence | class_cross_reference

datatype check_status = check_passed | check_failed | check_blocked | check_not_run

record validation_check =
  check_id :: string
  check_class :: check_class
  check_rule :: string
  check_status :: check_status
  check_message :: string
  check_path :: "string option"
  check_evidence_refs :: "ident list"
  check_details :: "(string, pyval) dict"

definition make_check ::
  "string \<Rightarrow> check_class \<Rightarrow> string \<Rightarrow> bool \<Rightarrow> string \<Rightarrow> string \<Rightarrow> (string, pyval) dict \<Rightarrow>
   validation_check" where
  "make_check cid cls rule ok success failure details =
     \<lparr>check_id = cid, check_class = cls, check_rule = rule,
      check_status = (if ok then check_passed else check_failed),
      check_message = (if ok then success else failure),
      check_path = None, check_evidence_refs = [], check_details = details\<rparr>"

definition comma_joined :: "string list \<Rightarrow> string" where
  "comma_joined xs = join '', '' xs"

text \<open>The values counted more than once, sorted.\<close>

definition duplicates :: "string list \<Rightarrow> string list" where
  "duplicates xs = usort (filter (\<lambda>x. 1 < count_list xs x) xs)"

subsection \<open>Structural checks\<close>

definition id_sets :: "topology_state \<Rightarrow> (string \<times> string \<times> ident list) list" where
  "id_sets s =
     [(''repository'', ''Repository'', map repo_id (repository_records s)),
      (''artifact'', ''Artifact'', map art_id (artifact_records s)),
      (''capability'', ''Capability'', map cap_id (capability_records s)),
      (''semantic-claim'', ''Semantic-Claim'', map claim_id (semantic_claims s)),
      (''edge'', ''Edge'', map edge_id (edge_records s)),
      (''flow'', ''Flow'', map flow_id (flow_records s)),
      (''graph'', ''Graph'', map g_entity_id (graph_records s)),
      (''risk'', ''Risk'', map risk_id (risks s)),
      (''unknown'', ''Unknown'', map unknown_id (unknowns s)),
      (''conflict'', ''Conflict'', map conflict_id (conflicts s))]"

definition uniqueness_check :: "string \<times> string \<times> ident list \<Rightarrow> validation_check" where
  "uniqueness_check q = (case q of (category, title, ids) \<Rightarrow>
     (let dups = duplicates ids in
      make_check (''invariant-unique-'' @ category @ ''-ids'') class_invariant
        ''canonical_ids_unique'' (dups = []) (title @ '' identities are unique.'')
        (''Duplicate '' @ category @ '' identities: '' @ comma_joined dups @ ''.'')
        [(''duplicates'', py_strs dups)]))"

definition node_ids :: "topology_state \<Rightarrow> ident list" where
  "node_ids s = map g_entity_id (filter (\<lambda>g. g_record_type g = rt_node) (graph_records s))"

definition unresolved_endpoints :: "topology_state \<Rightarrow> ident list" where
  "unresolved_endpoints s = usort (filter (\<lambda>x. x \<notin> set (node_ids s))
     (concat (map (\<lambda>e. [edge_source e, edge_target e]) (edge_records s))))"

definition endpoint_check :: "topology_state \<Rightarrow> validation_check" where
  "endpoint_check s =
     (let missing = unresolved_endpoints s in
      make_check ''invariant-edge-endpoints'' class_invariant ''every_edge_endpoint_exists''
        (missing = []) ''Every edge endpoint resolves to a canonical graph node.''
        (''Unresolved edge endpoints: '' @ comma_joined missing @ ''.'')
        [(''unresolved_endpoints'', py_strs missing)])"

definition revision_check :: "topology_state \<Rightarrow> validation_check" where
  "revision_check s =
     (let missing = sort (map repo_id (filter (\<lambda>r. repo_source_revision r = [])
            (repository_records s))) in
      make_check ''invariant-source-revisions'' class_invariant ''source_revisions_present''
        (missing = []) ''Every repository has an explicit source revision.''
        (''Repositories missing source revisions: '' @ comma_joined missing @ ''.'') [])"

definition non_portable :: "string \<Rightarrow> bool" where
  "non_portable p \<longleftrightarrow> startswith p ''/'' \<or> p = ''..'' \<or> startswith p ''../''"

definition path_check :: "topology_state \<Rightarrow> validation_check" where
  "path_check s =
     (let bad = sort (filter non_portable (map art_source_path (artifact_records s))) in
      make_check ''invariant-portable-paths'' class_invariant
        ''no_absolute_paths_in_semantic_identity'' (bad = [])
        ''All source paths are portable repository-relative paths.''
        (''Non-portable source paths: '' @ comma_joined bad @ ''.'') [])"

definition blocking_check :: "topology_state \<Rightarrow> validation_check" where
  "blocking_check s =
     (let open = sort (map conflict_id (filter (\<lambda>c. blocking c \<and> resolution c \<in> {None, Some []})
            (conflicts s))) in
      make_check ''invariant-blocking-conflicts'' class_invariant ''blocking_conflicts_resolved''
        (open = []) ''No unresolved blocking topology conflicts remain.''
        (''Unresolved blocking conflicts: '' @ comma_joined open @ ''.'')
        [(''blocking_conflicts'', py_strs open)])"

definition cycle_check :: "topology_state \<Rightarrow> validation_check" where
  "cycle_check s =
     (let cycles = dependency_cycles (edge_records s) in
      make_check ''invariant-dependency-cycles-reported'' class_invariant ''cycles_reported'' True
        (if cycles \<noteq> [] then
           ''Dependency cycle scan completed; cycles are recorded in validation receipt details.''
         else ''Dependency cycle scan completed with no cycles.'')
        ''Dependency cycle scan failed.'' [(''cycles'', PSeq (map py_strs cycles))])"

subsection \<open>Evidence checks\<close>

definition record_evidence_refs ::
  "topology_state \<Rightarrow> (ident \<times> ident list \<times> authority option) list" where
  "record_evidence_refs s =
     map (\<lambda>r. (repo_id r, repo_evidence_refs r, Some (conf_authority (repo_confidence r))))
       (repository_records s) @
     map (\<lambda>r. (art_id r, art_evidence_refs r, Some (conf_authority (art_confidence r))))
       (artifact_records s) @
     map (\<lambda>r. (cap_id r, cap_evidence_refs r, Some (conf_authority (cap_confidence r))))
       (capability_records s) @
     map (\<lambda>c. (claim_id c, claim_evidence_refs c, Some (claim_authority c))) (semantic_claims s) @
     map (\<lambda>e. (edge_id e, edge_evidence_refs e, Some (conf_authority (edge_confidence e))))
       (edge_records s) @
     map (\<lambda>f. (flow_id f, flow_evidence_refs f, Some (conf_authority (flow_confidence f))))
       (flow_records s) @
     map (\<lambda>g. (g_entity_id g, g_evidence_refs g, Some (conf_authority (g_confidence g))))
       (graph_records s) @
     map (\<lambda>r. (risk_id r, risk_evidence_refs r, None)) (risks s) @
     map (\<lambda>m. (''maturity:'' @ mat_subject m, mat_evidence_refs m, None)) (maturity s) @
     map (\<lambda>u. (unknown_id u, unk_evidence_refs u, Some auth_candidate)) (unknowns s) @
     map (\<lambda>c. (conflict_id c, conf_evidence_refs c, Some auth_candidate)) (conflicts s) @
     map (\<lambda>d. (diagnostic_id d, diag_evidence_refs d, Some auth_candidate)) (diagnostics s)"

definition note_unresolved ::
  "ident list \<Rightarrow> ident \<times> ident list \<times> authority option \<Rightarrow> (ident, ident list) dict \<Rightarrow>
   (ident, ident list) dict" where
  "note_unresolved known q d = (case q of (x, refs, a) \<Rightarrow>
     (let missing = usort (filter (\<lambda>r. r \<notin> set known) refs) in
      if missing \<noteq> [] then dput x missing d else d))"

definition unresolved_evidence :: "topology_state \<Rightarrow> (ident, ident list) dict" where
  "unresolved_evidence s =
     fold (note_unresolved (map evidence_id (state_evidence s))) (record_evidence_refs s) []"

definition missing_required_evidence :: "topology_state \<Rightarrow> ident list" where
  "missing_required_evidence s =
     map fst (filter (\<lambda>(x, refs, a). a \<in> Some ` {auth_source, auth_validated_machine, auth_derived} \<and>
       refs = []) (record_evidence_refs s))"

definition evidence_checks :: "topology_state \<Rightarrow> validation_check list" where
  "evidence_checks s =
     (let unresolved = unresolved_evidence s; missing = sort (missing_required_evidence s);
          bad = sort (map evidence_id (filter (\<lambda>r. source_type r = type_inference \<and>
            evidence_class r = class_declared) (state_evidence s))) in
      [make_check ''evidence-references-resolve'' class_evidence
         ''every_evidence_reference_resolves'' (unresolved = [])
         ''Every evidence reference resolves within the Topology Packet.''
         ''One or more topology records reference missing evidence.''
         [(''unresolved'', PDict (map (\<lambda>(k, v). (k, py_strs v)) unresolved))],
       make_check ''evidence-canonical-claims-backed'' class_evidence
         ''canonical_claims_require_evidence'' (missing = [])
         ''Every accepted canonical claim carries evidence references.''
         (''Canonical claims without evidence: '' @ comma_joined missing)
         [(''subjects'', py_strs missing)],
       make_check ''evidence-inference-labeling'' class_evidence
         ''inference_not_marked_declared'' (bad = [])
         ''No inferred evidence is misclassified as declared authority.''
         (''Inferred evidence marked declared: '' @ comma_joined bad @ ''.'') []])"

subsection \<open>Conservation checks\<close>

text \<open>A loaded input: its packet, and the verdict of the receipt it came with.\<close>

record repository_bundle =
  bundle_packet :: repository_packet
  bundle_receipt :: validation_status

abbreviation bundle_id :: "repository_bundle \<Rightarrow> ident" where
  "bundle_id b \<equiv> rp_id (bundle_packet b)"

definition payload_assertions :: "repository_bundle \<Rightarrow> ident list" where
  "payload_assertions b = (case rp_payload (bundle_packet b) of
       None \<Rightarrow> []
     | Some l \<Rightarrow> (case pl_assertions l of None \<Rightarrow> [] | Some as \<Rightarrow> map as_id as))"

definition payload_diagnostics :: "repository_bundle \<Rightarrow> nat" where
  "payload_diagnostics b =
     (case rp_payload (bundle_packet b) of None \<Rightarrow> 0 | Some l \<Rightarrow> length (pl_diagnostics l))"

definition payload_signals :: "corpus_packet \<Rightarrow> ident list" where
  "payload_signals p = (case cp_payload p of None \<Rightarrow> [] | Some l \<Rightarrow> map sg_id (work_signals l))"

definition diagnostic_check :: "topology_state \<Rightarrow> repository_bundle list \<Rightarrow> validation_check" where
  "diagnostic_check s bundles =
     (let input_count = sum_list (map payload_diagnostics bundles);
          kept = length (filter (\<lambda>d. disposition d = preserved) (diagnostics s));
          actual = usort (map diag_source_packet (diagnostics s));
          expected = usort (map bundle_id (filter (\<lambda>b. payload_diagnostics b \<noteq> 0) bundles)) in
      make_check ''cross-diagnostic-conservation'' class_cross_reference
        ''input_diagnostics_conserved'' (input_count = kept \<and> set expected \<subseteq> set actual)
        ''Every accepted input diagnostic is preserved with source-packet lineage.''
        ''One or more accepted input diagnostics were lost or lack source lineage.''
        [(''input_count'', PInt (int input_count)), (''preserved_count'', PInt (int kept)),
         (''expected_source_packets'', py_strs expected),
         (''actual_source_packets'', py_strs actual)])"

definition input_assertion_ids :: "repository_bundle list \<Rightarrow> corpus_packet list \<Rightarrow> ident list" where
  "input_assertion_ids bundles corpora =
     concat (map payload_assertions bundles) @
     concat (map payload_signals corpora)"

definition evidenced_assertion_ids :: "evidence_record list \<Rightarrow> ident list" where
  "evidenced_assertion_ids evs =
     List.map_filter (\<lambda>r. if stage r \<notin> set predicate_field_stages then None
       else (case ev_value r of
           PDict d \<Rightarrow> (case dget d ''assertion_id'' of Some (PStr i) \<Rightarrow> Some i | _ \<Rightarrow> None)
         | _ \<Rightarrow> None)) evs"

definition claimed_assertion_ids :: "semantic_claim list \<Rightarrow> ident list" where
  "claimed_assertion_ids cs = concat (map source_assertion_ids cs)"

definition minus_ids :: "ident list \<Rightarrow> ident list \<Rightarrow> ident list" where
  "minus_ids xs ys = usort (filter (\<lambda>x. x \<notin> set ys) xs)"

definition assertion_check ::
  "topology_state \<Rightarrow> repository_bundle list \<Rightarrow> corpus_packet list \<Rightarrow> validation_check" where
  "assertion_check s bundles corpora =
     (let inputs = input_assertion_ids bundles corpora;
          evidenced = evidenced_assertion_ids (state_evidence s);
          claimed = claimed_assertion_ids (semantic_claims s);
          unevidenced = minus_ids inputs evidenced; unclaimed = minus_ids inputs claimed;
          invented = minus_ids claimed inputs in
      make_check ''cross-assertion-conservation'' class_cross_reference
        ''input_assertions_conserved'' (unevidenced = [] \<and> unclaimed = [] \<and> invented = [])
        (''Every input assertion is carried by an evidence record and named by '' @
         ''a semantic claim, and no claim cites an assertion no input made.'')
        ''One or more input assertions were lost, or a claim cites an unknown one.''
        [(''input_assertion_count'', PInt (int (length (usort inputs)))),
         (''evidenced_assertion_count'', PInt (int (length (usort evidenced)))),
         (''claimed_assertion_count'', PInt (int (length (usort claimed)))),
         (''semantic_claim_count'', PInt (int (length (semantic_claims s)))),
         (''assertions_without_evidence'', py_strs unevidenced),
         (''assertions_without_claim'', py_strs unclaimed),
         (''claims_citing_unknown_assertions'', py_strs invented)])"

definition input_set_check :: "packet_ref list \<Rightarrow> repository_bundle list \<Rightarrow> validation_check" where
  "input_set_check refs bundles =
     (let mismatch = usort (minus_ids (map pr_packet_id refs) (map bundle_id bundles) @
            minus_ids (map bundle_id bundles) (map pr_packet_id refs)) in
      make_check ''cross-input-packet-set'' class_cross_reference ''input_packet_set_matches''
        (mismatch = []) ''Topology input references match the loaded Repository Model Packets.''
        (''Topology input packet set mismatch: '' @ comma_joined mismatch @ ''.'') [])"

definition parent_check :: "repository_bundle list \<Rightarrow> validation_check" where
  "parent_check bundles =
     (let failed = sort (map bundle_id (filter (\<lambda>b. pv_status (rp_validation (bundle_packet b)) \<noteq> status_passed \<or>
            bundle_receipt b \<noteq> status_passed) bundles)) in
      make_check ''cross-parent-validation'' class_cross_reference ''input_validation_passed''
        (failed = []) ''Every input packet has a passed validation receipt.''
        (''Input packets without passed validation: '' @ comma_joined failed @ ''.'') [])"

definition reference_mismatches :: "packet_ref list \<Rightarrow> repository_bundle list \<Rightarrow> string list" where
  "reference_mismatches refs bundles =
     concat (map (\<lambda>k. case (dget (index_by pr_packet_id refs) k, dget (index_by bundle_id bundles) k) of
         (Some r, Some b) \<Rightarrow>
           (if pr_semantic_hash r \<noteq> rp_semantic_hash (bundle_packet b) then [k @ '':semantic_hash''] else []) @
           (if pr_source_revision r \<noteq> Some (snapshot_revision (rp_snapshot (bundle_packet b))) then [k @ '':source_revision''] else []) @
           (if pr_validation_status r \<noteq> status_passed then [k @ '':validation_status''] else [])
       | _ \<Rightarrow> [])
       (usort (filter (\<lambda>k. k \<in> set (map bundle_id bundles)) (map pr_packet_id refs))))"

definition reference_check :: "packet_ref list \<Rightarrow> repository_bundle list \<Rightarrow> validation_check" where
  "reference_check refs bundles =
     (let mismatches = reference_mismatches refs bundles in
      make_check ''cross-input-reference-integrity'' class_cross_reference
        ''input_refs_match_packets'' (mismatches = [])
        ''Every input reference matches its packet hash, revision, and validation status.''
        (''Input reference mismatches: '' @ comma_joined mismatches @ ''.'')
        [(''mismatches'', py_strs mismatches)])"

subsection \<open>All checks on a state, and the verdict\<close>

definition invariant_checks :: "topology_state \<Rightarrow> validation_check list" where
  "invariant_checks s =
     map uniqueness_check (id_sets s) @
     [endpoint_check s, revision_check s, path_check s, blocking_check s, cycle_check s]"

definition cross_reference_checks ::
  "topology_state \<Rightarrow> packet_ref list \<Rightarrow> repository_bundle list \<Rightarrow> corpus_packet list \<Rightarrow> validation_check list" where
  "cross_reference_checks s refs bundles corpora =
     [diagnostic_check s bundles, assertion_check s bundles corpora, input_set_check refs bundles,
      parent_check bundles, reference_check refs bundles]"

definition state_checks ::
  "topology_state \<Rightarrow> packet_ref list \<Rightarrow> repository_bundle list \<Rightarrow> corpus_packet list \<Rightarrow> validation_check list" where
  "state_checks s refs bundles corpora =
     invariant_checks s @ evidence_checks s @ cross_reference_checks s refs bundles corpora"

definition validation_verdict :: "validation_check list \<Rightarrow> check_status" where
  "validation_verdict checks =
     (if list_ex (\<lambda>c. check_status c = check_failed) checks then check_failed else check_passed)"

lemma make_check_status [simp]:
  "check_status (make_check cid cls rule ok success failure details) = check_failed \<longleftrightarrow> \<not> ok"
  by (simp add: make_check_def)

lemma duplicates_Nil: "duplicates xs = [] \<longleftrightarrow> distinct xs"
proof -
  have "(\<forall>x \<in> set xs. \<not> 1 < count_list xs x) \<longleftrightarrow> distinct xs"
  proof (induction xs)
    case (Cons x xs)
    have "(\<forall>y \<in> set (x # xs). \<not> 1 < count_list (x # xs) y) \<longleftrightarrow>
        x \<notin> set xs \<and> (\<forall>y \<in> set xs. \<not> 1 < count_list xs y)"
      by (auto simp: count_list_0_iff split: if_splits)
    with Cons show ?case by simp
  qed simp
  then show ?thesis by (auto simp: duplicates_def filter_empty_conv)
qed

lemma minus_ids_Nil: "minus_ids xs ys = [] \<longleftrightarrow> set xs \<subseteq> set ys"
  by (auto simp: minus_ids_def filter_empty_conv)

lemma note_unresolved_Nil:
  "note_unresolved known (x, refs, a) d = [] \<longleftrightarrow> d = [] \<and> set refs \<subseteq> set known"
proof -
  have "dput x m d \<noteq> []" for m :: "ident list" by (cases d) (auto split: if_splits)
  then show ?thesis by (auto simp: note_unresolved_def Let_def filter_empty_conv)
qed

lemma unresolved_evidence_Nil:
  "unresolved_evidence s = [] \<longleftrightarrow>
     (\<forall>(x, refs, a) \<in> set (record_evidence_refs s). set refs \<subseteq> evidence_id ` set (state_evidence s))"
proof -
  have "fold (note_unresolved known) rs d = [] \<longleftrightarrow> d = [] \<and>
      (\<forall>(x, refs, a) \<in> set rs. set refs \<subseteq> set known)" for known rs d
    by (induction rs arbitrary: d) (auto simp: note_unresolved_Nil)
  then show ?thesis by (simp add: unresolved_evidence_def)
qed

lemma missing_required_evidence_Nil:
  "missing_required_evidence s = [] \<longleftrightarrow>
     (\<forall>(x, refs, a) \<in> set (record_evidence_refs s).
        a \<in> Some ` {auth_source, auth_validated_machine, auth_derived} \<longrightarrow> refs \<noteq> [])"
  by (auto simp: missing_required_evidence_def filter_empty_conv)

lemma verdict_passed: "validation_verdict cs = check_passed \<longleftrightarrow>
    list_all (\<lambda>c. check_status c \<noteq> check_failed) cs"
  by (auto simp: validation_verdict_def list_ex_iff list_all_iff)

lemma verdict_append: "validation_verdict (xs @ ys) = check_passed \<longleftrightarrow>
    validation_verdict xs = check_passed \<and> validation_verdict ys = check_passed"
  by (auto simp: verdict_passed)

text \<open>What the structural checks require of a state.\<close>

definition structurally_sound :: "topology_state \<Rightarrow> bool" where
  "structurally_sound s \<longleftrightarrow>
     list_all (\<lambda>(category, title, ids). distinct ids) (id_sets s) \<and>
     list_all (\<lambda>e. edge_source e \<in> set (node_ids s) \<and> edge_target e \<in> set (node_ids s))
       (edge_records s) \<and>
     list_all (\<lambda>r. repo_source_revision r \<noteq> []) (repository_records s) \<and>
     list_all (\<lambda>a. \<not> non_portable (art_source_path a)) (artifact_records s) \<and>
     list_all (\<lambda>c. \<not> blocking c \<or> resolution c \<notin> {None, Some []}) (conflicts s)"

definition evidence_sound :: "topology_state \<Rightarrow> bool" where
  "evidence_sound s \<longleftrightarrow>
     list_all (\<lambda>(x, refs, a). set refs \<subseteq> evidence_id ` set (state_evidence s) \<and>
        (a \<in> Some ` {auth_source, auth_validated_machine, auth_derived} \<longrightarrow> refs \<noteq> []))
       (record_evidence_refs s) \<and>
     list_all (\<lambda>r. source_type r \<noteq> type_inference \<or> evidence_class r \<noteq> class_declared)
       (state_evidence s)"

definition conserved ::
  "topology_state \<Rightarrow> packet_ref list \<Rightarrow> repository_bundle list \<Rightarrow> corpus_packet list \<Rightarrow> bool" where
  "conserved s refs bundles corpora \<longleftrightarrow>
     sum_list (map payload_diagnostics bundles) =
       length (filter (\<lambda>d. disposition d = preserved) (diagnostics s)) \<and>
     (\<forall>b \<in> set bundles. payload_diagnostics b \<noteq> 0 \<longrightarrow>
        bundle_id b \<in> diag_source_packet ` set (diagnostics s)) \<and>
     set (claimed_assertion_ids (semantic_claims s)) = set (input_assertion_ids bundles corpora) \<and>
     set (input_assertion_ids bundles corpora) \<subseteq> set (evidenced_assertion_ids (state_evidence s)) \<and>
     pr_packet_id ` set refs = bundle_id ` set bundles \<and>
     list_all (\<lambda>b. pv_status (rp_validation (bundle_packet b)) = status_passed \<and> bundle_receipt b = status_passed) bundles \<and>
     reference_mismatches refs bundles = []"

lemma uniqueness_status: "check_status (uniqueness_check (c, t, ids)) = check_failed \<longleftrightarrow> \<not> distinct ids"
  by (simp add: uniqueness_check_def Let_def duplicates_Nil)

lemma sort_Nil_iff: "sort_key f xs = [] \<longleftrightarrow> xs = []"
  by (metis length_0_conv length_sort)

lemma invariant_verdict:
  "validation_verdict (invariant_checks s) = check_passed \<longleftrightarrow> structurally_sound s"
proof -
  have u: "list_all (\<lambda>c. check_status c \<noteq> check_failed) (map uniqueness_check qs) \<longleftrightarrow>
      list_all (\<lambda>(category, title, ids). distinct ids) qs" for qs
    by (induction qs) (auto simp: uniqueness_status)
  have e: "check_status (endpoint_check s) \<noteq> check_failed \<longleftrightarrow>
      list_all (\<lambda>e. edge_source e \<in> set (node_ids s) \<and> edge_target e \<in> set (node_ids s)) (edge_records s)"
    by (auto simp: endpoint_check_def Let_def unresolved_endpoints_def filter_empty_conv list_all_iff)
  have r: "check_status (revision_check s) \<noteq> check_failed \<longleftrightarrow>
      list_all (\<lambda>r. repo_source_revision r \<noteq> []) (repository_records s)"
    by (auto simp: revision_check_def Let_def sort_Nil_iff filter_empty_conv list_all_iff)
  have p: "check_status (path_check s) \<noteq> check_failed \<longleftrightarrow>
      list_all (\<lambda>a. \<not> non_portable (art_source_path a)) (artifact_records s)"
    by (auto simp: path_check_def Let_def sort_Nil_iff filter_empty_conv list_all_iff)
  have b: "check_status (blocking_check s) \<noteq> check_failed \<longleftrightarrow>
      list_all (\<lambda>c. \<not> blocking c \<or> resolution c \<notin> {None, Some []}) (conflicts s)"
    by (auto simp: blocking_check_def Let_def sort_Nil_iff filter_empty_conv list_all_iff)
  have c: "check_status (cycle_check s) \<noteq> check_failed"
    by (simp add: cycle_check_def Let_def)
  show ?thesis
    unfolding invariant_checks_def verdict_passed list_all_append u structurally_sound_def
    by (simp add: e r p b c)
qed

lemma evidence_verdict:
  "validation_verdict (evidence_checks s) = check_passed \<longleftrightarrow> evidence_sound s"
  by (auto simp: evidence_checks_def verdict_passed Let_def unresolved_evidence_Nil sort_Nil_iff
      missing_required_evidence_Nil evidence_sound_def filter_empty_conv list_all_iff)

lemma cross_reference_verdict:
  "validation_verdict (cross_reference_checks s refs bundles corpora) = check_passed \<longleftrightarrow>
     conserved s refs bundles corpora"
proof -
  have d: "check_status (diagnostic_check s bundles) \<noteq> check_failed \<longleftrightarrow>
     sum_list (map payload_diagnostics bundles) =
       length (filter (\<lambda>d. disposition d = preserved) (diagnostics s)) \<and>
     (\<forall>b \<in> set bundles. payload_diagnostics b \<noteq> 0 \<longrightarrow>
        bundle_id b \<in> diag_source_packet ` set (diagnostics s))"
    by (auto simp: diagnostic_check_def Let_def)
  have a: "check_status (assertion_check s bundles corpora) \<noteq> check_failed \<longleftrightarrow>
     set (claimed_assertion_ids (semantic_claims s)) = set (input_assertion_ids bundles corpora) \<and>
     set (input_assertion_ids bundles corpora) \<subseteq> set (evidenced_assertion_ids (state_evidence s))"
    by (auto simp: assertion_check_def Let_def minus_ids_Nil)
  have i: "check_status (input_set_check refs bundles) \<noteq> check_failed \<longleftrightarrow>
      pr_packet_id ` set refs = bundle_id ` set bundles"
    by (auto simp: input_set_check_def Let_def minus_ids_Nil)
  have p: "check_status (parent_check bundles) \<noteq> check_failed \<longleftrightarrow>
      list_all (\<lambda>b. pv_status (rp_validation (bundle_packet b)) = status_passed \<and> bundle_receipt b = status_passed) bundles"
    by (auto simp: parent_check_def Let_def sort_Nil_iff filter_empty_conv list_all_iff)
  have r: "check_status (reference_check refs bundles) \<noteq> check_failed \<longleftrightarrow>
      reference_mismatches refs bundles = []"
    by (simp add: reference_check_def Let_def)
  show ?thesis
    unfolding cross_reference_checks_def verdict_passed conserved_def
    by (simp add: d a i p r)
qed


end
