(* ===== verification/Pipeline.thy ===== *)
theory Pipeline
  imports Compiler Validation
begin

text \<open>
  What the composition of the stages guarantees: when a compile is refused, and that the state it
  returns passes the conservation checks of the validator.
\<close>

subsection \<open>When a compile succeeds\<close>

definition corpus_accepted :: "repository_packet list \<Rightarrow> corpus_packet \<Rightarrow> bool" where
  "corpus_accepted ps c \<longleftrightarrow>
     pr_packet_id ` set (cp_inputs c) \<subseteq> rp_id ` set ps \<and>
     scope_sound c (declared_inputs c ps) \<and> cp_payload c \<noteq> None \<and>
     pred_option (payload_sound c (declared_inputs c ps)) (cp_payload c)"

definition statements_located :: "repository_packet list \<Rightarrow> corpus_packet list \<Rightarrow> bool" where
  "statements_located ps cs \<longleftrightarrow>
     list_all (\<lambda>p. list_all (\<lambda>a. \<exists>ref. assertion_source_ref p a = Inr ref) (packet_assertions p)) ps \<and>
     list_all (\<lambda>c. list_all (\<lambda>s. \<exists>ref. signal_source_ref c s = Inr ref) (packet_signals c)) cs"

definition rules_sound :: "risk_rule list \<Rightarrow> bool" where
  "rules_sound rules \<longleftrightarrow> list_all (\<lambda>r. rr_kind r = ''confidence_below'' \<longrightarrow>
     pred_option (\<lambda>s. s \<in> set (dkeys level_by_name)) (rr_threshold r)) rules"

lemma collect_Inr: "(\<exists>ys. collect (map f xs) = Inr ys) \<longleftrightarrow> list_all (\<lambda>x. \<exists>y. f x = Inr y) xs"
proof
  assume "\<exists>ys. collect (map f xs) = Inr ys"
  then obtain ys where "list_all2 (\<lambda>x y. f x = Inr y) xs ys" by (auto simp: collect_map)
  then show "list_all (\<lambda>x. \<exists>y. f x = Inr y) xs"
    by (induction rule: list_all2_induct) auto
next
  assume "list_all (\<lambda>x. \<exists>y. f x = Inr y) xs"
  then have "list_all (\<lambda>x. \<exists>y. f x = Inr y \<and> True) xs" by simp
  from collect_total [OF this] show "\<exists>ys. collect (map f xs) = Inr ys" by blast
qed

lemma map_sum_Inr: "(\<exists>y. map_sum f g x = Inr y) \<longleftrightarrow> (\<exists>y. x = Inr y)"
  by (cases x) auto

lemma parse_level_known: "s \<in> set (dkeys level_by_name) \<Longrightarrow> \<exists>l. parse_level s = Inr l"
  by (auto simp: parse_level_def map_of_eq_None_iff split: option.split)

lemma check_corpus_input_exact: "check_corpus_input repr ps c = Inr () \<longleftrightarrow> corpus_accepted ps c"
proof -
  have m: "missing_from (map pr_packet_id (cp_inputs c)) (map rp_id ps) = [] \<longleftrightarrow>
      pr_packet_id ` set (cp_inputs c) \<subseteq> rp_id ` set ps"
    by (simp add: missing_from_Nil)
  have "map_sum corpus_rejected id x = Inr () \<longleftrightarrow> x = Inr ()" for x by (cases x) simp_all
  then show ?thesis
    unfolding check_corpus_input_def corpus_accepted_def m [symmetric]
    by (auto simp: validate_corpus_packet_exact split: list.split)
qed

lemma adapt_packets_Inr:
  "(\<exists>ms. adapt_packets sha repr str_of ps = Inr ms) \<longleftrightarrow>
     list_all (\<lambda>p. admissible sha p \<and>
       list_all (\<lambda>a. \<exists>ref. assertion_source_ref p a = Inr ref) (packet_assertions p)) ps"
proof -
  have "(\<exists>m. (if rp_version p \<notin> set supported_versions then Inl (version_unsupported (rp_version p))
        else adapt_packet sha repr str_of p) = Inr m) \<longleftrightarrow>
      admissible sha p \<and>
      list_all (\<lambda>a. \<exists>ref. assertion_source_ref p a = Inr ref) (packet_assertions p)" for p
  proof -
    have "(\<exists>m. adapt_packet sha repr str_of p = Inr m) \<longleftrightarrow>
        admissible sha p \<and> (\<exists>rs. assertion_evidence_records sha p = Inr rs)"
    proof (cases "validate_repository_packet sha repr p")
      case (Inl e)
      have "\<not> admissible sha p"
      proof
        assume a: "admissible sha p"
        then obtain l where "rp_payload p = Some l" by (auto simp: admissible_def)
        with a have "validate_repository_packet sha repr p = Inr l"
          by (simp add: validate_repository_packet_exact)
        with Inl show False by simp
      qed
      with Inl show ?thesis by (simp add: adapt_packet_def)
    next
      case (Inr l)
      then have "admissible sha p" using validate_repository_packet_exact by blast
      with Inr show ?thesis by (simp add: adapt_packet_def map_sum_Inr)
    qed
    also have "(\<exists>rs. assertion_evidence_records sha p = Inr rs) \<longleftrightarrow>
        list_all (\<lambda>a. \<exists>ref. assertion_source_ref p a = Inr ref) (packet_assertions p)"
      by (simp add: assertion_evidence_records_def collect_Inr assertion_evidence_record_def map_sum_Inr)
    finally show ?thesis by (auto simp: admissible_def)
  qed
  then show ?thesis by (simp only: adapt_packets_def collect_Inr)
qed

lemma corpus_evidence_Inr:
  "(\<exists>evs. collect (map (corpus_evidence sha) cs) = Inr evs) \<longleftrightarrow>
     list_all (\<lambda>c. list_all (\<lambda>s. \<exists>ref. signal_source_ref c s = Inr ref) (packet_signals c)) cs"
  by (simp add: collect_Inr corpus_evidence_def map_sum_Inr signal_evidence_records_def
      signal_evidence_record_def)

lemma assess_impacts_Inr: "\<exists>is. assess_impacts repos edges = Inr is"
  by (simp add: assess_impacts_def collect_Inr assess_impact_def list_all_iff Let_def)

lemma assess_topology_risks_Inr:
  assumes "rules_sound rules"
  shows "\<exists>rs. assess_topology_risks sha repr repos rules = Inr rs"
proof -
  have "\<exists>b. triggered r rule = Inr b" if "rule \<in> set rules" for r rule
  proof -
    have "\<exists>l. parse_level (case rr_threshold rule of None \<Rightarrow> ''medium'' | Some s \<Rightarrow> s) = Inr l"
      if k: "rr_kind rule = ''confidence_below''"
      using assms \<open>rule \<in> set rules\<close> k
      by (intro parse_level_known)
        (auto simp: rules_sound_def list_all_iff level_by_name_def split: option.splits dest!: bspec)
    then show ?thesis by (auto simp: triggered_def split: sum.splits)
  qed
  then have "\<exists>rs. repository_risks sha repr rules r = Inr rs" for r
  proof -
    have "\<exists>qs. collect (map (\<lambda>rule. map_sum id (\<lambda>b. (b, rule)) (triggered r rule)) rules) = Inr qs"
      unfolding collect_Inr list_all_iff map_sum_Inr
      using \<open>\<And>r rule. rule \<in> set rules \<Longrightarrow> \<exists>b. triggered r rule = Inr b\<close> by blast
    then show ?thesis by (auto simp: repository_risks_def)
  qed
  then have "\<exists>rs. collect (map (repository_risks sha repr rules) repos) = Inr rs"
    by (simp add: collect_Inr list_all_iff)
  then show ?thesis by (auto simp: assess_topology_risks_def)
qed

definition acceptable :: "(string \<Rightarrow> string) \<Rightarrow> repository_packet list \<Rightarrow> corpus_packet list \<Rightarrow> bool" where
  "acceptable sha ps cs \<longleftrightarrow>
     ps \<noteq> [] \<and> list_all (corpus_accepted ps) cs \<and> list_all (admissible sha) ps \<and>
     statements_located ps cs"

lemma checks_Inr:
  "(\<exists>us. collect (map (check_corpus_input repr ps) cs) = Inr us) \<longleftrightarrow> list_all (corpus_accepted ps) cs"
  by (simp add: collect_Inr check_corpus_input_exact)

lemma compile_succeeds_iff:
  assumes "profile_sound (cf_maturity cf)" and "rules_sound (cf_risk_rules cf)"
  shows "(\<exists>s. compile_state sha repr str_of cf ps cs = Inr s) \<longleftrightarrow> acceptable sha ps cs"
proof
  assume "\<exists>s. compile_state sha repr str_of cf ps cs = Inr s"
  then obtain s where "compile_state sha repr str_of cf ps cs = Inr s" by blast
  then show "acceptable sha ps cs"
  proof (rule compile_state_cases)
    fix us models evs
    assume c: "ps \<noteq> []" "collect (map (check_corpus_input repr ps) cs) = Inr us"
      "adapt_packets sha repr str_of ps = Inr models" "collect (map (corpus_evidence sha) cs) = Inr evs"
    from c(2) have "list_all (corpus_accepted ps) cs" using checks_Inr by blast
    moreover from c(3) have "list_all (\<lambda>p. admissible sha p \<and>
       list_all (\<lambda>a. \<exists>ref. assertion_source_ref p a = Inr ref) (packet_assertions p)) ps"
      using adapt_packets_Inr by blast
    moreover from c(4) have "list_all (\<lambda>c. list_all (\<lambda>s. \<exists>ref. signal_source_ref c s = Inr ref)
        (packet_signals c)) cs" using corpus_evidence_Inr by blast
    ultimately show ?thesis using c(1) by (simp add: acceptable_def statements_located_def list_all_iff)
  qed
next
  assume a: "acceptable sha ps cs"
  then obtain us where us: "collect (map (check_corpus_input repr ps) cs) = Inr us"
    using checks_Inr [of repr ps cs] unfolding acceptable_def by blast
  obtain models where models: "adapt_packets sha repr str_of ps = Inr models"
    using a adapt_packets_Inr [of sha repr str_of ps]
    by (auto simp: acceptable_def statements_located_def list_all_iff)
  obtain evs where evs: "collect (map (corpus_evidence sha) cs) = Inr evs"
    using a corpus_evidence_Inr [of sha cs] by (auto simp: acceptable_def statements_located_def)
  let ?kn = "establish sha repr str_of cf (normalize_models models) (concat evs) cs"
  let ?g = "connect sha (normalize_models models) cs ?kn"
  obtain impacts where i: "assess_impacts (kn_repositories ?kn) (cg_edges ?g) = Inr impacts"
    using assess_impacts_Inr by blast
  have "list_all (\<lambda>r. \<exists>m. assess_repository (cf_maturity cf) (kn_evidence ?kn) r = Inr m) (kn_repositories ?kn)"
    using assess_repository_sound [OF assms(1)] by (fastforce simp: list_all_iff)
  then obtain mats where m: "assess_maturity (kn_repositories ?kn) (kn_evidence ?kn) (cf_maturity cf) = Inr mats"
    unfolding assess_maturity_def collect_Inr [symmetric] by blast
  obtain rks where r: "assess_topology_risks sha repr (kn_repositories ?kn) (cf_risk_rules cf) = Inr rks"
    using assess_topology_risks_Inr [OF assms(2)] by blast
  have "ps \<noteq> []" using a by (simp add: acceptable_def)
  from compile_stateI [OF this us models evs refl refl i m r]
  show "\<exists>s. compile_state sha repr str_of cf ps cs = Inr s" by blast
qed


subsection \<open>Nothing an input states is lost\<close>

lemma knowledge_evidence:
  "kn_evidence (establish sha repr str_of cf n evs cs) =
     sort_key evidence_id (dvalues (index_by evidence_id (nm_evidence n @ evs)))"
  by (simp add: establish_def reconcile_evidence_def Let_def evidence_by_id_def index_by_def
      split: prod.split)

lemma knowledge_claims:
  "map source_assertion_ids (kn_claims (establish sha repr str_of cf n evs cs)) =
     map source_assertion_ids (out_claims (reconcile_assertions sha repr (statements_of n cs)
       (kn_evidence (establish sha repr str_of cf n evs cs))))"
  by (simp add: establish_def reconcile_evidence_def Let_def apply_projection_def comp_def
      split: prod.split)

lemma knowledge_diagnostics:
  "kn_diagnostics (establish sha repr str_of cf n evs cs) =
     nm_diagnostics n @ out_diagnostics (reconcile_assertions sha repr (statements_of n cs)
       (kn_evidence (establish sha repr str_of cf n evs cs)))"
  by (simp add: establish_def reconcile_evidence_def Let_def split: prod.split)

text \<open>The claims cite exactly the identities of the statements.\<close>

lemma cited_statements:
  "(\<Union>c \<in> set (out_claims (reconcile_assertions sha repr sts ev)). set (source_assertion_ids c)) =
     input_id ` set sts"
proof (intro equalityI subsetI)
  fix i assume "i \<in> input_id ` set sts"
  then obtain st where st: "st \<in> set sts" "i = input_id st" by blast
  with claim_triples_set [of sha repr sts ev] obtain c where
    c: "c \<in> set (out_claims (reconcile_assertions sha repr sts ev))"
    "statement_triple st = claim_triple c" by (force simp: image_iff)
  then have "i \<in> set (source_assertion_ids c)" using st by (auto simp: claim_sources)
  with c(1) show "i \<in> (\<Union>c \<in> set (out_claims (reconcile_assertions sha repr sts ev)).
    set (source_assertion_ids c))" by blast
qed (auto simp: claim_sources)

lemma reconciled_diagnostics_translated:
  assumes "d \<in> set (out_diagnostics (reconcile_assertions sha repr sts ev))"
  shows "disposition d = translated"
  using assms
  by (auto simp: reconcile_assertions_def reconcile_group_def Let_def reconcile_diagnostic_def
      split: if_splits)

lemma evidenced_iff:
  "i \<in> set (evidenced_assertion_ids evs) \<longleftrightarrow> (\<exists>r \<in> set evs. assertion_id_of r = Some i)"
proof -
  have f: "(if stage r \<notin> set predicate_field_stages then None
       else (case ev_value r of
           PDict d \<Rightarrow> (case dget d ''assertion_id'' of Some (PStr i) \<Rightarrow> Some i | _ \<Rightarrow> None)
         | _ \<Rightarrow> None)) = assertion_id_of r" for r
    by (cases "ev_value r") (auto simp: assertion_id_of_def predicate_field_stages_def)
  show ?thesis by (auto simp: evidenced_assertion_ids_def f map_filter_def image_iff)
qed

definition unambiguous :: "evidence_record list \<Rightarrow> bool" where
  "unambiguous evs \<longleftrightarrow> list_all (\<lambda>r. list_all (\<lambda>r'. evidence_id r = evidence_id r' \<longrightarrow>
     assertion_id_of r = assertion_id_of r') evs) evs"

lemma indexed_evidence:
  assumes "unambiguous evs"
  shows "(\<exists>r \<in> set (dvalues (index_by evidence_id evs)). assertion_id_of r = Some i) \<longleftrightarrow>
    (\<exists>r \<in> set evs. assertion_id_of r = Some i)"
proof
  assume "\<exists>r \<in> set evs. assertion_id_of r = Some i"
  then obtain r where r: "r \<in> set evs" "assertion_id_of r = Some i" by blast
  then have "evidence_id r \<in> fst ` set (index_by evidence_id evs)" by (simp add: keys_index_by)
  then obtain r' where "(evidence_id r, r') \<in> set (index_by evidence_id evs)" by force
  then have "r' \<in> set evs" "evidence_id r' = evidence_id r"
      "r' \<in> set (dvalues (index_by evidence_id evs))"
    using index_by_entry by force+
  moreover from this(1,2) r have "assertion_id_of r' = Some i"
    using assms unfolding unambiguous_def list_all_iff by metis
  ultimately show "\<exists>r \<in> set (dvalues (index_by evidence_id evs)). assertion_id_of r = Some i" by blast
qed (meson subsetD [OF values_index_by_subset])

lemma adapted_models:
  assumes "adapt_packets sha repr str_of ps = Inr models"
  shows "list_all2 (\<lambda>p m. adapt_packet sha repr str_of p = Inr m) ps models"
proof -
  have "list_all2 (\<lambda>p m. (if rp_version p \<notin> set supported_versions
      then Inl (version_unsupported (rp_version p)) else adapt_packet sha repr str_of p) = Inr m) ps models"
    using assms by (simp only: adapt_packets_def collect_map)
  then show ?thesis by (rule list_all2_mono) (simp split: if_splits)
qed

lemma adapted_packet:
  assumes "adapt_packet sha repr str_of p = Inr m"
  obtains l evs where "rp_payload p = Some l" and "assertion_evidence_records sha p = Inr evs"
    and "nm_assertions m = packet_assertions p" and "nm_evidence m = pl_evidence l @ evs"
    and "nm_diagnostics m = map (normalize_diagnostic sha str_of (rp_id p)) (enumerate 0 (pl_diagnostics l))"
proof -
  obtain l where l: "validate_repository_packet sha repr p = Inr l"
    using assms by (auto simp: adapt_packet_def split: sum.splits)
  then have "rp_payload p = Some l" by (simp add: validate_repository_packet_exact)
  moreover obtain evs where "assertion_evidence_records sha p = Inr evs"
    using assms l by (cases "assertion_evidence_records sha p") (auto simp: adapt_packet_def)
  ultimately show ?thesis using assms l that by (auto simp: adapt_packet_def)
qed

lemma adapted_evidence:
  assumes "adapt_packet sha repr str_of p = Inr m"
  shows "\<exists>l es. rp_payload p = Some l \<and> nm_evidence m = pl_evidence l @ es \<and>
    assertion_evidence_records sha p = Inr es"
  using assms by (elim adapted_packet) blast

lemma adapted_assertions:
  assumes "adapt_packets sha repr str_of ps = Inr models"
  shows "nm_assertions (normalize_models models) = concat (map packet_assertions ps)"
  using adapted_models [OF assms]
proof (induction rule: list_all2_induct)
  case (Cons p ps m ms)
  then show ?case by (auto simp: normalize_models_def elim: adapted_packet)
qed (simp add: normalize_models_def)

text \<open>The statements some evidence record names.\<close>

definition stated :: "evidence_record list \<Rightarrow> ident set" where
  "stated evs = {i. Some i \<in> assertion_id_of ` set evs}"

lemma stated_simps [simp]:
  "stated (xs @ ys) = stated xs \<union> stated ys"
  "stated [] = {}"
  by (auto simp: stated_def)

lemma stated_iff: "i \<in> stated evs \<longleftrightarrow> (\<exists>r \<in> set evs. assertion_id_of r = Some i)"
  by (auto simp: stated_def image_iff eq_commute)

lemma stated_indexed:
  "unambiguous evs \<Longrightarrow> stated (dvalues (index_by evidence_id evs)) = stated evs"
  by (simp only: set_eq_iff stated_iff indexed_evidence simp_thms)

lemma stated_by:
  assumes "map (\<lambda>r. (ev_subject_id r, assertion_id_of r)) evs = map (\<lambda>x. (f x, Some (g x))) xs"
  shows "g ` set xs \<subseteq> stated evs"
proof -
  have "map snd (map (\<lambda>r. (ev_subject_id r, assertion_id_of r)) evs) =
      map snd (map (\<lambda>x. (f x, Some (g x))) xs)" by (simp only: assms)
  then have "map assertion_id_of evs = map (\<lambda>x. Some (g x)) xs" by (simp add: comp_def)
  then have "assertion_id_of ` set evs = (\<lambda>x. Some (g x)) ` set xs" by (metis list.set_map)
  then show ?thesis by (auto simp: stated_def)
qed

lemma signal_stated:
  assumes "corpus_evidence sha c = Inr evs"
  shows "sg_id ` set (packet_signals c) \<subseteq> stated evs"
proof -
  obtain ss where ss: "signal_evidence_records sha c = Inr ss"
      "evs = ss @ duplicate_evidence_records sha c @ corpus_scope_evidence_records sha c"
    using assms by (cases "signal_evidence_records sha c") (auto simp: corpus_evidence_def)
  show ?thesis using stated_by [OF signal_evidence_complete [OF ss(1)]] ss(2) by auto
qed

lemma statements_evidenced:
  assumes "adapt_packets sha repr str_of ps = Inr models"
    and "collect (map (corpus_evidence sha) cs) = Inr evs"
  shows "input_id ` set (statements_of (normalize_models models) cs) \<subseteq>
    stated (nm_evidence (normalize_models models) @ concat evs)"
proof -
  have a: "as_id ` set (concat (map packet_assertions ps)) \<subseteq> stated (concat (map nm_evidence models))"
    using adapted_models [OF assms(1)]
  proof (induction rule: list_all2_induct)
    case (Cons p ps m ms)
    obtain l es where e: "nm_evidence m = pl_evidence l @ es" "assertion_evidence_records sha p = Inr es"
      "rp_payload p = Some l"
      using adapted_evidence [OF Cons.hyps(1)] by blast
    show ?case using stated_by [OF assertion_evidence_complete [OF e(2)]] Cons.IH
      by (simp only: list.map concat.simps set_append image_Un e(1) stated_simps) blast
  qed simp
  have s: "sg_id ` set (concat (map packet_signals cs)) \<subseteq> stated (concat evs)"
    using assms(2) unfolding collect_map
  proof (induction rule: list_all2_induct)
    case (Cons c cs es ess)
    show ?case using signal_stated [OF Cons.hyps(1)] Cons.IH
      by (simp only: list.map concat.simps set_append image_Un stated_simps) blast
  qed simp
  have "input_id ` set (statements_of (normalize_models models) cs) =
      as_id ` set (concat (map packet_assertions ps)) \<union> sg_id ` set (concat (map packet_signals cs))"
    by (simp add: statements_of_def adapted_assertions [OF assms(1)] assertion_semantic_input_def
        signal_semantic_input_def image_Un image_UN image_image)
  moreover have "nm_evidence (normalize_models models) = concat (map nm_evidence models)"
    by (simp add: normalize_models_def)
  ultimately show ?thesis using a s by (simp only: stated_simps) blast
qed

lemma input_assertions:
  assumes "adapt_packets sha repr str_of ps = Inr models" and "map bundle_packet bundles = ps"
  shows "set (input_assertion_ids bundles cs) = input_id ` set (statements_of (normalize_models models) cs)"
proof -
  have p: "payload_assertions = (\<lambda>b. map as_id (packet_assertions (bundle_packet b)))"
    by (rule ext) (simp add: payload_assertions_def packet_assertions_def split: option.split)
  have s: "payload_signals = (\<lambda>c. map sg_id (packet_signals c))"
    by (rule ext) (simp add: payload_signals_def packet_signals_def split: option.split)
  have "concat (map payload_assertions bundles) = map as_id (concat (map packet_assertions ps))"
    by (simp add: p assms(2) [symmetric] map_concat comp_def)
  moreover have "concat (map payload_signals cs) = map sg_id (concat (map packet_signals cs))"
    by (simp add: s map_concat comp_def)
  ultimately show ?thesis
    by (simp add: input_assertion_ids_def statements_of_def adapted_assertions [OF assms(1)]
        assertion_semantic_input_def signal_semantic_input_def image_Un image_UN image_image)
qed

lemma adapted_diagnostics:
  assumes "adapt_packets sha repr str_of ps = Inr models" and "map bundle_packet bundles = ps"
  shows "length (nm_diagnostics (normalize_models models)) = sum_list (map payload_diagnostics bundles)"
    and "list_all (\<lambda>d. disposition d = preserved) (nm_diagnostics (normalize_models models))"
    and "bundle_id ` {b \<in> set bundles. payload_diagnostics b \<noteq> 0} \<subseteq>
      diag_source_packet ` set (nm_diagnostics (normalize_models models))"
proof -
  have d: "\<exists>l. rp_payload p = Some l \<and>
      nm_diagnostics m = map (normalize_diagnostic sha str_of (rp_id p)) (enumerate 0 (pl_diagnostics l))"
    if "adapt_packet sha repr str_of p = Inr m" for p m
    using that by (elim adapted_packet) blast
  have all: "list_all2 (\<lambda>b m. adapt_packet sha repr str_of (bundle_packet b) = Inr m) bundles models"
    using adapted_models [OF assms(1)] by (simp add: assms(2) [symmetric] list.rel_map)
  have "length (concat (map nm_diagnostics models)) = sum_list (map payload_diagnostics bundles) \<and>
      list_all (\<lambda>d. disposition d = preserved) (concat (map nm_diagnostics models)) \<and>
      bundle_id ` {b \<in> set bundles. payload_diagnostics b \<noteq> 0} \<subseteq>
        diag_source_packet ` set (concat (map nm_diagnostics models))"
    using all
  proof (induction rule: list_all2_induct)
    case (Cons b bs m ms)
    from d [OF Cons.hyps(1)] obtain l where l: "rp_payload (bundle_packet b) = Some l"
      "nm_diagnostics m = map (normalize_diagnostic sha str_of (bundle_id b)) (enumerate 0 (pl_diagnostics l))"
      by blast
    have n: "payload_diagnostics b = length (nm_diagnostics m)"
      by (simp add: payload_diagnostics_def l)
    moreover have "bundle_id b \<in> diag_source_packet ` set (nm_diagnostics m)" if "nm_diagnostics m \<noteq> []"
      using that by (cases "pl_diagnostics l") (auto simp: l(2))
    moreover have "list_all (\<lambda>d. disposition d = preserved) (nm_diagnostics m)"
      by (simp add: l(2) list_all_iff)
    ultimately show ?case using Cons.IH by (cases "nm_diagnostics m = []") auto
  qed simp
  then show "length (nm_diagnostics (normalize_models models)) = sum_list (map payload_diagnostics bundles)"
    and "list_all (\<lambda>d. disposition d = preserved) (nm_diagnostics (normalize_models models))"
    and "bundle_id ` {b \<in> set bundles. payload_diagnostics b \<noteq> 0} \<subseteq>
      diag_source_packet ` set (nm_diagnostics (normalize_models models))"
    by (simp_all add: normalize_models_def)
qed

text \<open>The evidence a compile pools: what the packets carry and what is built for their statements.\<close>

definition pooled_evidence ::
  "(string \<Rightarrow> string) \<Rightarrow> repository_packet list \<Rightarrow> corpus_packet list \<Rightarrow> evidence_record list" where
  "pooled_evidence sha ps cs =
     concat (map (\<lambda>p. (case rp_payload p of None \<Rightarrow> [] | Some l \<Rightarrow> pl_evidence l) @
       (case assertion_evidence_records sha p of Inl e \<Rightarrow> [] | Inr evs \<Rightarrow> evs)) ps) @
     concat (map (\<lambda>c. case corpus_evidence sha c of Inl e \<Rightarrow> [] | Inr evs \<Rightarrow> evs) cs)"

lemma pooled_evidence_eq:
  assumes "adapt_packets sha repr str_of ps = Inr models"
    and "collect (map (corpus_evidence sha) cs) = Inr evs"
  shows "pooled_evidence sha ps cs = nm_evidence (normalize_models models) @ concat evs"
proof -
  have "concat (map (\<lambda>p. (case rp_payload p of None \<Rightarrow> [] | Some l \<Rightarrow> pl_evidence l) @
       (case assertion_evidence_records sha p of Inl e \<Rightarrow> [] | Inr evs \<Rightarrow> evs)) ps) =
      concat (map nm_evidence models)"
    using adapted_models [OF assms(1)]
    by (induction rule: list_all2_induct) (auto elim!: adapted_packet)
  moreover have "concat (map (\<lambda>c. case corpus_evidence sha c of Inl e \<Rightarrow> [] | Inr evs \<Rightarrow> evs) cs) = concat evs"
    using assms(2) unfolding collect_map by (induction rule: list_all2_induct) auto
  ultimately show ?thesis by (simp add: pooled_evidence_def normalize_models_def)
qed

lemma conserves_inputs:
  assumes "compile_state sha repr str_of cf ps cs = Inr s"
    and "unambiguous (pooled_evidence sha ps cs)"
    and "map bundle_packet bundles = ps"
  shows "check_status (assertion_check s bundles cs) = check_passed \<and>
    check_status (diagnostic_check s bundles) = check_passed"
  using assms(1)
proof (rule compile_state_cases)
  fix us models evs impacts mats rks kn g
  let ?n = "normalize_models models"
  assume models: "adapt_packets sha repr str_of ps = Inr models"
    and evs: "collect (map (corpus_evidence sha) cs) = Inr evs"
    and kn: "kn = establish sha repr str_of cf ?n (concat evs) cs"
    and s: "s = assemble ?n kn g (propose sha ?n cs kn g) (build_flows sha (cg_edges g)) impacts mats rks"
  let ?sts = "statements_of ?n cs"
  have claims: "semantic_claims s = sort_key claim_id (kn_claims kn)"
    and ev: "state_evidence s = sort_key evidence_id (kn_evidence kn)"
    and dg: "diagnostics s = sort_key diagnostic_id (kn_diagnostics kn)"
    by (simp_all add: s assemble_def)
  have "set (claimed_assertion_ids (semantic_claims s)) = \<Union> (set ` set (map source_assertion_ids (kn_claims kn)))"
    by (simp add: claimed_assertion_ids_def claims)
  also have "\<dots> = input_id ` set ?sts"
    using cited_statements [of sha repr ?sts "kn_evidence kn"] unfolding kn knowledge_claims by simp
  finally have claimed: "set (claimed_assertion_ids (semantic_claims s)) = set (input_assertion_ids bundles cs)"
    by (simp only: input_assertions [OF models assms(3)])
  have "input_id ` set ?sts \<subseteq> stated (dvalues (index_by evidence_id (nm_evidence ?n @ concat evs)))"
    using statements_evidenced [OF models evs] assms(2) [unfolded pooled_evidence_eq [OF models evs]]
    by (simp only: stated_indexed)
  then have "set (input_assertion_ids bundles cs) \<subseteq> set (evidenced_assertion_ids (state_evidence s))"
    by (auto simp: input_assertions [OF models assms(3)] evidenced_iff ev kn knowledge_evidence stated_iff)
  with claimed have "check_status (assertion_check s bundles cs) \<noteq> check_failed"
    by (simp add: assertion_check_def Let_def minus_ids_Nil)
  moreover have "check_status (diagnostic_check s bundles) \<noteq> check_failed"
  proof -
    note d = adapted_diagnostics [OF models assms(3)]
    let ?out = "out_diagnostics (reconcile_assertions sha repr ?sts (kn_evidence kn))"
    have k: "kn_diagnostics kn = nm_diagnostics ?n @ ?out" unfolding kn by (rule knowledge_diagnostics)
    have l: "length (filter P (sort_key f xs)) = length (filter P xs)"
      for P and f :: "diagnostic_record \<Rightarrow> string" and xs
      by (simp flip: size_mset)
    have "filter (\<lambda>x. disposition x = preserved) ?out = []"
      using reconciled_diagnostics_translated by (fastforce simp: filter_empty_conv)
    moreover have "filter (\<lambda>x. disposition x = preserved) (nm_diagnostics ?n) = nm_diagnostics ?n"
      using d(2) by (simp add: list_all_iff)
    ultimately have "length (filter (\<lambda>x. disposition x = preserved) (diagnostics s)) = length (nm_diagnostics ?n)"
      by (simp add: dg k l)
    with d(1,3) show ?thesis by (auto simp: diagnostic_check_def Let_def dg k)
  qed
  moreover have "check_status (make_check a b c ok x y z) \<noteq> check_failed \<Longrightarrow>
      check_status (make_check a b c ok x y z) = check_passed" for a b c ok x y z
    by (simp add: make_check_def split: if_splits)
  ultimately show ?thesis unfolding assertion_check_def diagnostic_check_def Let_def by blast
qed

text \<open>
  C1: A compile loses nothing its inputs state. As long as no two pooled evidence records share
  an identity while naming different statements, the state of every accepted compile passes the
  validator's conservation checks: each assertion and work signal is carried by evidence and
  cited by a claim, no claim cites anything else, and every input diagnostic is preserved under
  the packet that raised it.
\<close>
theorem compile_conserves_inputs:
  assumes "compile_state sha repr str_of cf ps cs = Inr s"
    and "unambiguous (pooled_evidence sha ps cs)"
    and "map bundle_packet bundles = ps"
  shows "check_status (assertion_check s bundles cs) = check_passed \<and>
    check_status (diagnostic_check s bundles) = check_passed"
  using assms by (rule conserves_inputs)

subsection \<open>Candidates do not reach the canonical topology\<close>

text \<open>
  C2: What a corpus analysis merely proposes never reaches canonical topology. Removing every
  candidate, readiness measurement and reasoning request from the corpus packets of an accepted
  compile gives an accepted compile with the same claims, capabilities, edges, flows, impacts,
  risks, maturity, evidence, conflicts and unknowns; its graph is the same but for the nodes of
  the candidates, and its candidate domains are empty.
\<close>
theorem candidates_isolated:
  assumes "compile_state sha repr str_of cf ps cs = Inr s"
  shows "\<exists>s'. compile_state sha repr str_of cf ps (map without_candidates cs) = Inr s' \<and>
    canonical_part s' = canonical_part s \<and>
    mset (graph_records s) = mset (graph_records s') +
      mset (candidate_graph_records (candidate_relations s) (candidate_clusters s)) \<and>
    candidate_relations s' = [] \<and> candidate_clusters s' = [] \<and> readiness_evidence s' = [] \<and>
    reasoning_candidates s' = []"
  using assms
proof (rule compile_state_cases)
  fix us models evs impacts mats rks kn g
  let ?n = "normalize_models models"
  assume c: "ps \<noteq> []" "collect (map (check_corpus_input repr ps) cs) = Inr us"
    "adapt_packets sha repr str_of ps = Inr models" "collect (map (corpus_evidence sha) cs) = Inr evs"
    "kn = establish sha repr str_of cf ?n (concat evs) cs" "g = connect sha ?n cs kn"
    "assess_impacts (kn_repositories kn) (cg_edges g) = Inr impacts"
    "assess_maturity (kn_repositories kn) (kn_evidence kn) (cf_maturity cf) = Inr mats"
    "assess_topology_risks sha repr (kn_repositories kn) (cf_risk_rules cf) = Inr rks"
    and s: "s = assemble ?n kn g (propose sha ?n cs kn g) (build_flows sha (cg_edges g)) impacts mats rks"
  let ?s = "assemble ?n kn g \<lparr>cd_readiness = [], cd_relations = [], cd_clusters = [], cd_reasoning = []\<rparr>
    (build_flows sha (cg_edges g)) impacts mats rks"
  have "collect (map (corpus_evidence sha) (map without_candidates cs)) = Inr evs"
    using c(4) by (simp add: comp_def)
  from compile_stateI [OF c(1) checks_without_candidates [OF c(2)] c(3) this _ _ c(7-9)] c(5,6)
  have "compile_state sha repr str_of cf ps (map without_candidates cs) = Inr ?s"
    by (simp add: establish_without_candidates connect_without_candidates propose_without_candidates)
  moreover have "canonical_part ?s = canonical_part s" unfolding s by (rule assemble_parts)
  ultimately show ?thesis
    by (intro exI [of _ ?s]) (simp add: s assemble_parts, simp add: candidate_graph_records_def)
qed

subsection \<open>A sample compile\<close>

definition sample_assertion :: repository_assertion where
  "sample_assertion =
     \<lparr>as_id = ''assertion:1'', as_subject = ''artifact:1'', as_predicate = ''work.status'',
      as_object = ''done'', as_source_path = ''README.md'', as_start_line = 1, as_end_line = 1,
      as_excerpt = ''done'', as_content_hash = ''h'', as_extractor = ''x'',
      as_evidence_class = class_observed, as_authority = ''declared'', as_confidence = ''high''\<rparr>"

definition sample_artifact :: artifact_record where
  "sample_artifact =
     \<lparr>art_id = ''artifact:1'', art_repository_id = ''repo:a'', art_source_path = ''README.md'',
      art_type = ''document'', art_family = None, art_content_hash = ''h'', art_body_hash = None,
      art_capabilities = [], art_dependencies = [], art_evidence_refs = [],
      art_packet_ref = ''packet:1'', art_confidence = confidence_unknown\<rparr>"

definition sample_unsealed :: repository_packet where
  "sample_unsealed =
     \<lparr>rp_packet_type = ''l9.repository-model'', rp_version = ''1.1.0'', rp_id = ''packet:1'',
      rp_repository_id = ''repo:a'', rp_snapshot = \<lparr>snapshot_revision = ''r1'', snapshot_hash = ''s''\<rparr>,
      rp_validation = \<lparr>pv_status = status_passed, pv_receipt_ref = None\<rparr>,
      rp_producer = \<lparr>producer_name = ''n'', producer_build = ''1''\<rparr>,
      rp_profile = \<lparr>profile_name = ''p'', profile_build = ''1'', profile_digest = ''d''\<rparr>,
      rp_schema_hash = ''h'', rp_semantic_hash = '''', rp_artifact_hash = None, rp_payload_refs = [],
      rp_payload = Some \<lparr>pl_repositories = [sample_repository ''repo:a'' []],
        pl_artifacts = [sample_artifact], pl_capabilities = [], pl_relationships = [],
        pl_evidence = [], pl_diagnostics = [[(''code'', PStr ''c'')]],
        pl_assertions = Some [sample_assertion]\<rparr>,
      rp_interpretation = None\<rparr>"

definition sample_packet :: "(string \<Rightarrow> string) \<Rightarrow> repository_packet" where
  "sample_packet sha = sample_unsealed\<lparr>rp_semantic_hash :=
     semantic_hash sha (repository_model_semantic_view sample_unsealed)\<rparr>"

definition sample_packet_ref :: "(string \<Rightarrow> string) \<Rightarrow> packet_ref" where
  "sample_packet_ref sha =
     \<lparr>pr_packet_id = ''packet:1'', pr_packet_type = ''l9.repository-model'',
      pr_packet_version = ''1.1.0'', pr_uri = ''u'',
      pr_semantic_hash = rp_semantic_hash (sample_packet sha), pr_artifact_hash = None,
      pr_validation_status = status_passed, pr_subject_id = None, pr_source_revision = Some ''r1''\<rparr>"

definition sample_corpus :: "(string \<Rightarrow> string) \<Rightarrow> corpus_packet" where
  "sample_corpus sha =
     \<lparr>cp_version = ''1.1.0'', cp_id = ''corpus-packet:1'',
      cp_producer = \<lparr>producer_name = ''n'', producer_build = ''1''\<rparr>,
      cp_profile = \<lparr>profile_name = ''p'', profile_build = ''1'', profile_digest = ''d''\<rparr>,
      cp_inputs = [sample_packet_ref sha],
      cp_corpus = \<lparr>desc_corpus_id = ''corpus:1'', desc_snapshot_id = ''s'', desc_analysis_id = ''a'',
        desc_roots = [\<lparr>root_ref_id = ''root:1'', root_ref_class = root_declared,
          root_ref_revision = ''r1'', root_ref_packet = sample_packet_ref sha,
          root_ref_repository = Some ''repo:a''\<rparr>],
        desc_coverage = \<lparr>cov_roots_requested = 1, cov_roots_observed = 1, cov_roots_failed = 0,
          cov_artifacts = 1, cov_archives = 0, cov_archive_members = 0, cov_decoder_eligible = 1,
          cov_normalized_documents = 1, cov_interpreted_artifacts = 1, cov_unsupported_formats = 0,
          cov_gaps = 0\<rparr>\<rparr>,
      cp_validation = \<lparr>pv_status = status_passed, pv_receipt_ref = None\<rparr>,
      cp_domains_not_run = Some [], cp_schema_hash = ''h'', cp_semantic_hash = ''h'',
      cp_artifact_hash = None, cp_payload_refs = [], cp_payload_hashes = [],
      cp_payload = Some \<lparr>work_signals = [], duplicate_relations = [], pair_relations = [],
        topic_candidates = [\<lparr>cc_id = ''candidate:1'', cc_type = topic_candidate,
          cc_members = [''artifact:1''], cc_relations = [], cc_evidence_refs = [],
          cc_class = strong, cc_flags = [], cc_cross_root = False, cc_cross_archive = False,
          cc_profile = \<lparr>ap_id = ''a'', ap_version = ''1'', ap_hash = ''h''\<rparr>, cc_upstream = None\<rparr>],
        project_candidates = [], consolidation_candidates = [], readiness_measurements = [],
        reasoning_requests = [], evidence_pack_refs = []\<rparr>,
      cp_lineage = \<lparr>parent_packet_ids = [], lineage_root = None, generation = 0\<rparr>,
      cp_created_at = ''t''\<rparr>"

definition sample_config :: compile_profile where
  "sample_config = \<lparr>cf_roles = None, cf_maturity = foundational_maturity, cf_risk_rules = []\<rparr>"

lemma sample_config_sound: "profile_sound (cf_maturity sample_config)" "rules_sound (cf_risk_rules sample_config)"
  by (simp_all add: sample_config_def profile_sound_def foundational_maturity_def level_by_name_def
      rules_sound_def)

lemma sample_located: "\<exists>ref. assertion_source_ref (sample_packet sha) sample_assertion = Inr ref"
proof -
  let ?r = "\<lparr>uri = None, source_path = Some ''README.md'', line_number = Some 1,
      content_hash = Some ''h'', ref_packet_id = Some ''packet:1'',
      ref_source_revision = Some ''r1'', locator = None\<rparr>"
  have "normalize_source_path None ''README.md'' = Inr ''README.md''" by code_simp
  then have "\<exists>ref. make_source_ref ?r = Inr ref"
    by (simp add: make_source_ref_def line_number_agrees_with_locator_def)
  then show ?thesis
    by (simp add: assertion_source_ref_def sample_assertion_def sample_packet_def sample_unsealed_def)
qed

lemma sample_statements:
  "packet_assertions (sample_packet sha) = [sample_assertion]"
  "packet_signals (sample_corpus sha) = []"
  by (simp_all add: packet_assertions_def packet_signals_def sample_packet_def sample_unsealed_def
      sample_corpus_def)

lemma sample_view:
  "repository_model_semantic_view (sample_packet sha) = repository_model_semantic_view sample_unsealed"
  by (simp add: sample_packet_def repository_model_semantic_view_def)

lemma sample_acceptable: "acceptable sha [sample_packet sha] [sample_corpus sha]"
proof -
  have a: "admissible sha (sample_packet sha)"
    unfolding admissible_def sample_view
    by (simp add: sample_packet_def sample_unsealed_def supported_versions_def)
  have d: "declared_inputs (sample_corpus sha) [sample_packet sha] = [sample_packet sha]"
    by (simp add: declared_inputs_def sample_corpus_def sample_packet_ref_def sample_packet_def
        sample_unsealed_def)
  have "scope_sound (sample_corpus sha) [sample_packet sha]"
    by (simp add: scope_sound_def root_bound_def index_by_def sample_corpus_def sample_packet_ref_def)
      (simp add: sample_packet_def sample_unsealed_def)
  moreover have "pred_option (payload_sound (sample_corpus sha) [sample_packet sha])
      (cp_payload (sample_corpus sha))"
    by (simp add: sample_corpus_def payload_sound_def duplicates_sound_def candidate_sound_def
        all_candidates_def artifact_only_identities_def packet_payloads_def sample_packet_def
        sample_unsealed_def sample_artifact_def)
  moreover have "pr_packet_id ` set (cp_inputs (sample_corpus sha)) \<subseteq> rp_id ` set [sample_packet sha]"
    by (simp add: sample_corpus_def sample_packet_ref_def sample_packet_def sample_unsealed_def)
  moreover have "cp_payload (sample_corpus sha) \<noteq> None" by (simp add: sample_corpus_def)
  ultimately show ?thesis
    using a by (simp add: acceptable_def corpus_accepted_def d statements_located_def
        sample_statements sample_located)
qed

lemma sample_compiles:
  obtains s where "compile_state sha repr str_of sample_config [sample_packet sha] [sample_corpus sha] = Inr s"
  using compile_succeeds_iff [OF sample_config_sound] sample_acceptable by blast


lemma sample_unambiguous: "unambiguous (pooled_evidence sha [sample_packet sha] [])"
proof -
  have "(case rp_payload (sample_packet sha) of None \<Rightarrow> [] | Some l \<Rightarrow> pl_evidence l) = []"
    by (simp add: sample_packet_def sample_unsealed_def)
  then show ?thesis
    by (cases "assertion_evidence_record sha (sample_packet sha) sample_assertion")
      (simp_all add: unambiguous_def pooled_evidence_def assertion_evidence_records_def
        sample_statements)
qed

theorem compile_conserves_inputs_witness:
  "\<exists>s b. compile_state id id (\<lambda>_. ''x'') sample_config [sample_packet id] [] = Inr s \<and>
     bundle_packet b = sample_packet id \<and>
     check_status (assertion_check s [b] []) = check_passed \<and>
     check_status (diagnostic_check s [b]) = check_passed"
proof -
  obtain s where s: "compile_state id id (\<lambda>_. ''x'') sample_config [sample_packet id] [] = Inr s"
    using compile_succeeds_iff [OF sample_config_sound, of id id "\<lambda>_. ''x''" "[sample_packet id]" "[]"]
      sample_acceptable [of id]
    by (auto simp: acceptable_def statements_located_def)
  let ?b = "\<lparr>bundle_packet = sample_packet id, bundle_receipt = status_passed\<rparr>"
  have "map bundle_packet [?b] = [sample_packet id]" by simp
  from compile_conserves_inputs [OF s sample_unambiguous this] s show ?thesis
    by (intro exI [of _ s] exI [of _ ?b]) simp
qed

theorem candidates_isolated_witness:
  "\<exists>s s'. compile_state id id (\<lambda>_. ''x'') sample_config [sample_packet id] [sample_corpus id] = Inr s \<and>
     compile_state id id (\<lambda>_. ''x'') sample_config [sample_packet id]
       [without_candidates (sample_corpus id)] = Inr s' \<and>
     canonical_part s' = canonical_part s \<and> candidate_clusters s' = []"
proof -
  obtain s where s: "compile_state id id (\<lambda>_. ''x'') sample_config [sample_packet id] [sample_corpus id] = Inr s"
    by (rule sample_compiles)
  from candidates_isolated [OF s] obtain s' where
    "compile_state id id (\<lambda>_. ''x'') sample_config [sample_packet id]
       (map without_candidates [sample_corpus id]) = Inr s'"
    "canonical_part s' = canonical_part s" "candidate_clusters s' = []" by blast
  with s show ?thesis by auto
qed

end
