(* ===== verification/PredicatePolicy.thy ===== *)
theory PredicatePolicy
  imports Predicates
begin

text \<open>
  What the predicate registry binds into a packet: \<open>predicate_policy_view\<close> and its hash
  (\<open>reconciliation/predicates.py\<close>).
\<close>

definition predicate_policy_id :: string where
  "predicate_policy_id = ''l9-topology-assertion-predicates''"

definition predicate_policy_version :: string where
  "predicate_policy_version = ''1.4.0''"

definition managed_declared_schema :: string where
  "managed_declared_schema = ''managed:l9-meta-injector''"

definition sorted_strs :: "string list \<Rightarrow> pyval" where
  "sorted_strs xs = PSeq (map PStr (usort xs))"

definition declaration_view :: "predicate_declaration \<Rightarrow> pyval" where
  "declaration_view d = PDict (map (\<lambda>(k, v). (k, PStr v)) d)"

definition declarations_view :: "(string, predicate_declaration) dict \<Rightarrow> pyval" where
  "declarations_view ds = PDict (map (\<lambda>(p, d). (p, declaration_view d)) (sort_key fst ds))"

definition predicate_policy_view :: pyval where
  "predicate_policy_view = PDict
     [(''id'', PStr predicate_policy_id), (''version'', PStr predicate_policy_version),
      (''set_valued_predicates'', sorted_strs set_valued_predicates),
      (''single_valued_predicates'', sorted_strs single_valued_predicates),
      (''auxiliary_predicates'', sorted_strs auxiliary_predicates),
      (''declaration_only_predicates'', sorted_strs declaration_only_predicates),
      (''header_semantics'', PDict
        [(''ledger'', PStr header_semantics_ledger),
         (''declarations'', declarations_view header_declaration_predicates)]),
      (''managed_header_semantics'', PDict
        [(''vocabulary'', PStr managed_header_vocabulary),
         (''declared_schema'', PStr managed_declared_schema),
         (''declarations'', declarations_view managed_declaration_predicates)]),
      (''field_observation_predicates'', PDict
        [(''unresolved_value'', sorted_strs unresolved_field_predicates),
         (''unsupported_field'', sorted_strs unsupported_field_predicates)]),
      (''projection_eligibility'', PDict
        [(''decided_at'', PStr ''individual-claim''),
         (''withheld_conflict_statuses'',
            sorted_strs (map conflict_status_value projection_withheld_conflict_statuses)),
         (''withheld_when_conflict_ids_present'', PBool True),
         (''relation_authority'', PStr ''decided-inside-each-projector'')]),
      (''unsupported_predicate_behavior'', PStr ''preserve-claim-evidence-and-emit-diagnostic'')]"

definition predicate_policy_hash :: "(string \<Rightarrow> string) \<Rightarrow> string" where
  "predicate_policy_hash sha = semantic_hash sha predicate_policy_view"

end
