(* ===== verification/TopologyPacket.thy ===== *)
theory TopologyPacket
  imports Pipeline PredicatePolicy Cardinality
begin

text \<open>
  Sealing a compiled topology: the packet and its identity (\<open>packets/topology_packet.py\<close>), the
  validation receipt (\<open>packets/validation_receipt.py\<close>), the resolved configuration
  (\<open>config.py\<close>), and the end of \<open>compile_topology\<close> (\<open>compiler.py\<close>), which validates the
  packet and refuses it or binds the hash of its bytes. The JSON Schema checks are the parameter
  \<open>schema\<close>, and a time is its text.
\<close>

subsection \<open>Configuration\<close>

record resolved_configuration =
  cfg_topology :: "(string, pyval) dict"
  cfg_risk :: "(string, pyval) dict"
  cfg_maturity :: "(string, pyval) dict"
  cfg_report :: "(string, pyval) dict"
  cfg_packet :: "(string, pyval) dict"
  cfg_output :: "(string, pyval) dict"
  cfg_callback :: "(string, pyval) dict"
  cfg_profile_hash :: string
  cfg_schema_hash :: string
  cfg_contract_versions :: "(string, string) dict"

datatype configuration_error = profile_without_id string | profile_without_version string | no_contracts

text \<open>The contracts directory is its files in the order of their paths, with their bytes.\<close>

definition contract_hash ::
  "(string \<Rightarrow> string) \<Rightarrow> (string \<times> string) list \<Rightarrow> configuration_error + string" where
  "contract_hash sha files =
     (if files = [] then Inl no_contracts
      else Inr (semantic_hash sha (str_dict (map (\<lambda>(k, b). (k, artifact_hash sha b)) files))))"

definition profile_error ::
  "string \<times> (string, pyval) dict \<Rightarrow> configuration_error option" where
  "profile_error q = (case q of (k, d) \<Rightarrow>
     if k = ''output_policy'' then None
     else if dget d ''id'' = None then Some (profile_without_id k)
     else if dget d ''version'' = None then Some (profile_without_version k) else None)"

definition active_contract_versions :: "(string, string) dict" where
  "active_contract_versions =
     [(''repository_model_packet'', ''1.1.0''), (''topology_packet'', ''1.0.0''),
      (''validation_receipt'', ''1.0.0''), (''stage_dispatch'', ''1.0.0''),
      (''l9.field-cardinality'', ''1.0.0'')]"

definition resolve_configuration ::
  "(string \<Rightarrow> string) \<Rightarrow> (string, pyval) dict \<Rightarrow> (string, pyval) dict \<Rightarrow> (string, pyval) dict \<Rightarrow>
   (string, pyval) dict \<Rightarrow> (string, pyval) dict \<Rightarrow> (string, pyval) dict \<Rightarrow> (string, pyval) dict \<Rightarrow>
   (string \<times> string) list \<Rightarrow> configuration_error + resolved_configuration" where
  "resolve_configuration sha topology risk mature report packet output callback contracts =
     (let profiles = [(''topology_profile'', topology), (''risk_profile'', risk),
            (''maturity_profile'', mature), (''report_profile'', report),
            (''packet_profile'', packet), (''output_policy'', output)] in
      case List.map_filter profile_error profiles of
        e # _ \<Rightarrow> Inl e
      | [] \<Rightarrow> map_sum id (\<lambda>h.
          \<lparr>cfg_topology = topology, cfg_risk = risk, cfg_maturity = mature, cfg_report = report,
           cfg_packet = packet, cfg_output = output, cfg_callback = callback,
           cfg_profile_hash = semantic_hash sha (PDict (map (\<lambda>(k, d). (k, PDict d)) profiles)),
           cfg_schema_hash = h, cfg_contract_versions = active_contract_versions\<rparr>)
          (contract_hash sha contracts))"

definition configured_text :: "(pyval \<Rightarrow> string) \<Rightarrow> (string, pyval) dict \<Rightarrow> string \<Rightarrow> string" where
  "configured_text str_of d k = (case dget d k of Some v \<Rightarrow> str_of v | None \<Rightarrow> [])"

definition policy_hashes ::
  "(string \<Rightarrow> string) \<Rightarrow> resolved_configuration \<Rightarrow> (string, string) dict" where
  "policy_hashes sha c =
     [(''topology'', semantic_hash sha (PDict (cfg_topology c))),
      (''risk'', semantic_hash sha (PDict (cfg_risk c))),
      (''maturity'', semantic_hash sha (PDict (cfg_maturity c))),
      (''report'', semantic_hash sha (PDict (cfg_report c))),
      (''packet'', semantic_hash sha (PDict (cfg_packet c))),
      (''output'', semantic_hash sha (PDict (cfg_output c))),
      (''reconciliation'', reconciliation_policy_hash sha),
      (''edge_taxonomy'', edge_taxonomy_hash sha),
      (''assertion_predicates'', predicate_policy_hash sha)]"

definition idempotency_identity ::
  "(string \<Rightarrow> string) \<Rightarrow> packet_ref list \<Rightarrow> resolved_configuration \<Rightarrow> string option \<Rightarrow> string \<Rightarrow> pyval" where
  "idempotency_identity sha refs c build adapter_mode = PDict
     [(''packet_type'', PStr ''l9.topology''), (''packet_version'', PStr ''1.0.0''),
      (''input_semantic_hashes'', PSeq (map PStr (sort (map pr_semantic_hash refs)))),
      (''compiler_name'', PStr ''l9-constellation-topology''), (''compiler_version'', PStr ''2.0.0''),
      (''compiler_build_identity'', PStr (case build of Some (x # xs) \<Rightarrow> x # xs | _ \<Rightarrow> ''version:2.0.0'')),
      (''configuration_profile_hash'', PStr (cfg_profile_hash c)),
      (''schema_contract_hash'', PStr (cfg_schema_hash c)),
      (''active_contract_versions'', str_dict (cfg_contract_versions c)),
      (''reconciliation_policy_version'', PStr ''2.0.0''),
      (''reconciliation_policy_hash'', PStr (reconciliation_policy_hash sha)),
      (''predicate_policy_version'', PStr predicate_policy_version),
      (''predicate_policy_hash'', PStr (predicate_policy_hash sha)),
      (''edge_taxonomy_version'', PStr ''2.0.0''), (''edge_taxonomy_hash'', PStr (edge_taxonomy_hash sha)),
      (''adapter_mode'', PStr adapter_mode)]"

definition compile_idempotency_key ::
  "(string \<Rightarrow> string) \<Rightarrow> packet_ref list \<Rightarrow> resolved_configuration \<Rightarrow> string option \<Rightarrow> string \<Rightarrow> string" where
  "compile_idempotency_key sha refs c build adapter_mode =
     semantic_hash sha (idempotency_identity sha refs c build adapter_mode)"

subsection \<open>Packets\<close>

record topology_packet =
  tp_version :: string
  tp_id :: ident
  tp_producer :: producer_ref
  tp_profile :: profile_ref
  tp_repository_inputs :: "packet_ref list"
  tp_corpus_inputs :: "packet_ref list"
  tp_schema_hash :: string
  tp_policy_hashes :: "(string, string) dict"
  tp_payload_refs :: "(string, string) dict"
  tp_payload_hashes :: "(string, string) dict"
  tp_validation :: packet_validation_ref
  tp_semantic_hash :: string
  tp_artifact_hash :: string
  tp_lineage :: packet_lineage
  tp_created_at :: string

definition topology_packet_type :: string where
  "topology_packet_type = ''l9.topology''"

definition topology_packet_version :: string where
  "topology_packet_version = ''1.1.0''"

definition inputs_view :: "topology_packet \<Rightarrow> pyval" where
  "inputs_view p = PModel
     [(''repository_model_packets'', PSeq (map packet_ref_view (tp_repository_inputs p))),
      (''corpus_intelligence_packets'', PSeq (map packet_ref_view (tp_corpus_inputs p)))]"

definition lineage_view :: "packet_lineage \<Rightarrow> pyval" where
  "lineage_view l = PModel
     [(''parent_packet_ids'', strs (parent_packet_ids l)),
      (''root_packet_id'', py_opt PStr (lineage_root l)), (''generation'', PInt (int (generation l)))]"

definition validation_ref_view :: "packet_validation_ref \<Rightarrow> pyval" where
  "validation_ref_view v = PModel
     [(''status'', PStr (validation_status_value (pv_status v))),
      (''receipt_ref'', py_opt PStr (pv_receipt_ref v))]"

definition topology_packet_semantic_view :: "topology_packet \<Rightarrow> pyval" where
  "topology_packet_semantic_view p = PDict
     [(''packet_type'', PStr topology_packet_type), (''packet_version'', PStr (tp_version p)),
      (''producer'', producer_view (tp_producer p)), (''profile'', profile_view (tp_profile p)),
      (''inputs'', inputs_view p), (''schema_hash'', PStr (tp_schema_hash p)),
      (''policy_hashes'', str_dict (tp_policy_hashes p)),
      (''payload_refs'', str_dict (tp_payload_refs p)),
      (''payload_hashes'', str_dict (tp_payload_hashes p)), (''lineage'', lineage_view (tp_lineage p))]"

definition calculate_topology_semantic_hash :: "(string \<Rightarrow> string) \<Rightarrow> topology_packet \<Rightarrow> string" where
  "calculate_topology_semantic_hash sha p = semantic_hash sha (topology_packet_semantic_view p)"

text \<open>All fields of the model but \<open>artifact_hash\<close>.\<close>

definition packet_core_fields :: "topology_packet \<Rightarrow> (string, pyval) dict" where
  "packet_core_fields p =
     [(''packet_type'', PStr topology_packet_type), (''packet_version'', PStr (tp_version p)),
      (''packet_id'', PStr (tp_id p)), (''producer'', producer_view (tp_producer p)),
      (''profile'', profile_view (tp_profile p)), (''inputs'', inputs_view p),
      (''schema_hash'', PStr (tp_schema_hash p)), (''policy_hashes'', str_dict (tp_policy_hashes p)),
      (''payload_refs'', str_dict (tp_payload_refs p)),
      (''payload_hashes'', str_dict (tp_payload_hashes p)),
      (''validation'', validation_ref_view (tp_validation p)),
      (''semantic_hash'', PStr (tp_semantic_hash p)), (''lineage'', lineage_view (tp_lineage p)),
      (''created_at'', PStr (tp_created_at p))]"

definition packet_model :: "topology_packet \<Rightarrow> pyval" where
  "packet_model p = PModel (packet_core_fields p @ [(''artifact_hash'', PStr (tp_artifact_hash p))])"

text \<open>\<open>model_dump()\<close> makes dictionaries of a model and of the models inside it; nothing is left out.\<close>

fun model_dump :: "pyval \<Rightarrow> pyval" where
  "model_dump (PModel kvs) = PDict (map (\<lambda>(k, v). (k, model_dump v)) kvs)"
| "model_dump (PDict kvs) = PDict (map (\<lambda>(k, v). (k, model_dump v)) kvs)"
| "model_dump (PSeq xs) = PSeq (map model_dump xs)"
| "model_dump (PSet xs) = PSet (map model_dump xs)"
| "model_dump v = v"

definition packet_core_hash :: "(string \<Rightarrow> string) \<Rightarrow> topology_packet \<Rightarrow> string" where
  "packet_core_hash sha p = artifact_hash sha (canonical_json (model_dump (PModel (packet_core_fields p))))"

definition packet_identity :: "string \<Rightarrow> ident" where
  "packet_identity digest = ''packet:'' @ removeprefix digest sha_prefix"

subsection \<open>Validation receipts\<close>

record validation_receipt =
  vr_id :: ident
  vr_subject_id :: ident
  vr_subject_hash :: string
  vr_validator :: producer_ref
  vr_status :: check_status
  vr_schema :: "validation_check list"
  vr_invariant :: "validation_check list"
  vr_evidence :: "validation_check list"
  vr_cross_reference :: "validation_check list"
  vr_created_at :: string
  vr_semantic_hash :: string

fun check_class_value :: "check_class \<Rightarrow> string" where
  "check_class_value class_schema = ''schema''"
| "check_class_value class_invariant = ''invariant''"
| "check_class_value class_evidence = ''evidence''"
| "check_class_value class_cross_reference = ''cross-reference''"

fun check_status_value :: "check_status \<Rightarrow> string" where
  "check_status_value check_passed = ''passed''"
| "check_status_value check_failed = ''failed''"
| "check_status_value check_blocked = ''blocked''"
| "check_status_value check_not_run = ''not_run''"

definition check_view :: "validation_check \<Rightarrow> pyval" where
  "check_view c = PModel
     [(''check_id'', PStr (check_id c)), (''check_class'', PStr (check_class_value (check_class c))),
      (''rule'', PStr (check_rule c)), (''status'', PStr (check_status_value (check_status c))),
      (''message'', PStr (check_message c)), (''path'', py_opt PStr (check_path c)),
      (''evidence_refs'', strs (check_evidence_refs c)), (''details'', PDict (check_details c))]"

definition checks_view :: "validation_check list \<Rightarrow> pyval" where
  "checks_view cs = PSeq (map check_view cs)"

definition receipt_fields :: "validation_receipt \<Rightarrow> (string, pyval) dict" where
  "receipt_fields r =
     [(''packet_type'', PStr ''l9.validation-receipt''), (''packet_version'', PStr ''1.0.0''),
      (''subject_packet_id'', PStr (vr_subject_id r)),
      (''subject_semantic_hash'', PStr (vr_subject_hash r)),
      (''validator'', producer_view (vr_validator r)),
      (''status'', PStr (check_status_value (vr_status r))),
      (''schema_results'', checks_view (vr_schema r)),
      (''invariant_results'', checks_view (vr_invariant r)),
      (''evidence_results'', checks_view (vr_evidence r)),
      (''cross_reference_results'', checks_view (vr_cross_reference r))]"

definition receipt_semantic_view :: "validation_receipt \<Rightarrow> pyval" where
  "receipt_semantic_view r = PDict (receipt_fields r)"

definition receipt_model :: "validation_receipt \<Rightarrow> pyval" where
  "receipt_model r = PModel (receipt_fields r @
     [(''receipt_id'', PStr (vr_id r)), (''created_at'', PStr (vr_created_at r)),
      (''semantic_hash'', PStr (vr_semantic_hash r))])"

definition receipt_identity :: "string \<Rightarrow> ident" where
  "receipt_identity digest = ''receipt:'' @ removeprefix digest sha_prefix"

definition finalize_receipt :: "(string \<Rightarrow> string) \<Rightarrow> validation_receipt \<Rightarrow> validation_receipt" where
  "finalize_receipt sha r = (let digest = semantic_hash sha (receipt_semantic_view r) in
     r\<lparr>vr_id := receipt_identity digest, vr_semantic_hash := digest\<rparr>)"

datatype receipt_error = receipt_hash_mismatch string string | receipt_id_mismatch ident ident

definition validate_receipt :: "(string \<Rightarrow> string) \<Rightarrow> validation_receipt \<Rightarrow> receipt_error option" where
  "validate_receipt sha r = (let calculated = semantic_hash sha (receipt_semantic_view r) in
     if vr_semantic_hash r \<noteq> calculated then Some (receipt_hash_mismatch (vr_semantic_hash r) calculated)
     else if vr_id r \<noteq> receipt_identity calculated
     then Some (receipt_id_mismatch (receipt_identity calculated) (vr_id r)) else None)"

subsection \<open>Validation of a packet\<close>

definition hash_checks ::
  "(string \<Rightarrow> string) \<Rightarrow> (score \<Rightarrow> pyval) \<Rightarrow> topology_packet \<Rightarrow> topology_state \<Rightarrow> validation_check list" where
  "hash_checks sha num p s =
     (let calculated = calculate_topology_semantic_hash sha p;
          expected = packet_identity (tp_semantic_hash p);
          hashes = topology_payload_hashes sha num s in
      [make_check ''invariant-semantic-hash'' class_invariant ''semantic_hash_reproducible''
         (tp_semantic_hash p = calculated) ''Topology semantic hash is reproducible.''
         (''Topology semantic hash mismatch: expected '' @ tp_semantic_hash p @ '', calculated '' @
          calculated @ ''.'') [],
       make_check ''invariant-packet-id'' class_invariant ''packet_id_matches_semantic_hash''
         (tp_id p = expected) ''Packet identity is derived from the semantic hash.''
         (''Packet ID must be '' @ expected @ '', got '' @ tp_id p @ ''.'') [],
       make_check ''invariant-payload-hashes'' class_invariant ''payload_hashes_resolve''
         (\<forall>k \<in> set (dkeys (tp_payload_hashes p) @ dkeys hashes).
            dget (tp_payload_hashes p) k = dget hashes k)
         ''Every payload hash resolves to the exact materialized bytes.''
         ''One or more payload hashes do not match the materialized topology state.''
         [(''expected'', str_dict hashes), (''actual'', str_dict (tp_payload_hashes p))]])"

definition validate_topology ::
  "(string \<Rightarrow> string) \<Rightarrow> (score \<Rightarrow> pyval) \<Rightarrow> (topology_packet \<Rightarrow> topology_state \<Rightarrow> validation_check list) \<Rightarrow>
   topology_packet \<Rightarrow> topology_state \<Rightarrow> repository_bundle list \<Rightarrow> corpus_packet list \<Rightarrow> string \<Rightarrow>
   validation_receipt" where
  "validate_topology sha num schema p s bundles corpora t =
     (let invariant = hash_checks sha num p s @ invariant_checks s; evidence = evidence_checks s;
          cross = cross_reference_checks s (tp_repository_inputs p) bundles corpora in
      finalize_receipt sha
        \<lparr>vr_id = ''receipt:pending'', vr_subject_id = tp_id p, vr_subject_hash = tp_semantic_hash p,
         vr_validator = \<lparr>producer_name = ''l9-constellation-topology'', producer_build = ''2.0.0''\<rparr>,
         vr_status = validation_verdict (schema p s @ invariant @ evidence @ cross),
         vr_schema = schema p s, vr_invariant = invariant, vr_evidence = evidence,
         vr_cross_reference = cross, vr_created_at = t, vr_semantic_hash = ''sha256:pending''\<rparr>)"

subsection \<open>Sealing\<close>

definition repository_input_ref :: "repository_packet \<Rightarrow> packet_ref" where
  "repository_input_ref p =
     \<lparr>pr_packet_id = rp_id p, pr_packet_type = rp_packet_type p, pr_packet_version = rp_version p,
      pr_uri = ''packet://'' @ rp_id p, pr_semantic_hash = rp_semantic_hash p,
      pr_artifact_hash = rp_artifact_hash p, pr_validation_status = pv_status (rp_validation p),
      pr_subject_id = Some (rp_repository_id p),
      pr_source_revision = Some (snapshot_revision (rp_snapshot p))\<rparr>"

definition corpus_input_ref :: "corpus_packet \<Rightarrow> packet_ref" where
  "corpus_input_ref p =
     \<lparr>pr_packet_id = cp_id p, pr_packet_type = ''l9.corpus-intelligence'',
      pr_packet_version = cp_version p, pr_uri = ''packet://'' @ cp_id p,
      pr_semantic_hash = cp_semantic_hash p, pr_artifact_hash = cp_artifact_hash p,
      pr_validation_status = pv_status (cp_validation p),
      pr_subject_id = Some (desc_corpus_id (cp_corpus p)),
      pr_source_revision = Some (desc_snapshot_id (cp_corpus p))\<rparr>"

definition unsealed_packet ::
  "(string \<Rightarrow> string) \<Rightarrow> (pyval \<Rightarrow> string) \<Rightarrow> (score \<Rightarrow> pyval) \<Rightarrow> resolved_configuration \<Rightarrow>
   repository_packet list \<Rightarrow> corpus_packet list \<Rightarrow> topology_state \<Rightarrow> string \<Rightarrow> topology_packet" where
  "unsealed_packet sha str_of num c ps cs s t =
     (let inputs = sort_key pr_packet_id (map repository_input_ref ps);
          corpora = sort_key pr_packet_id (map corpus_input_ref cs) in
      \<lparr>tp_version = topology_packet_version, tp_id = ''packet:pending'',
       tp_producer = \<lparr>producer_name = ''l9-constellation-topology'', producer_build = ''2.0.0''\<rparr>,
       tp_profile = \<lparr>profile_name = configured_text str_of (cfg_topology c) ''id'',
         profile_build = configured_text str_of (cfg_topology c) ''version'',
         profile_digest = semantic_hash sha (PDict (cfg_topology c))\<rparr>,
       tp_repository_inputs = inputs, tp_corpus_inputs = corpora, tp_schema_hash = cfg_schema_hash c,
       tp_policy_hashes = policy_hashes sha c, tp_payload_refs = topology_payload_refs num s,
       tp_payload_hashes = topology_payload_hashes sha num s,
       tp_validation = \<lparr>pv_status = status_not_run, pv_receipt_ref = None\<rparr>,
       tp_semantic_hash = ''sha256:pending'', tp_artifact_hash = ''sha256:pending'',
       tp_lineage = \<lparr>parent_packet_ids = sort (map pr_packet_id (inputs @ corpora)),
         lineage_root = None, generation = 1\<rparr>,
       tp_created_at = t\<rparr>)"

definition identify :: "(string \<Rightarrow> string) \<Rightarrow> topology_packet \<Rightarrow> topology_packet" where
  "identify sha p = (let digest = calculate_topology_semantic_hash sha p in
     p\<lparr>tp_id := packet_identity digest, tp_semantic_hash := digest\<rparr>)"

definition receipt_path :: string where
  "receipt_path = ''receipts/validation-receipt.json''"

definition seal :: "(string \<Rightarrow> string) \<Rightarrow> topology_packet \<Rightarrow> topology_packet" where
  "seal sha p =
     (let final = p\<lparr>tp_validation := \<lparr>pv_status = status_passed, pv_receipt_ref = Some receipt_path\<rparr>\<rparr> in
      final\<lparr>tp_artifact_hash := packet_core_hash sha final\<rparr>)"

record compilation =
  co_packet :: topology_packet
  co_state :: topology_state
  co_receipt :: validation_receipt

datatype compilation_failure = not_compiled compile_error | not_valid validation_receipt

definition compile_topology ::
  "(string \<Rightarrow> string) \<Rightarrow> (string \<Rightarrow> string) \<Rightarrow> (pyval \<Rightarrow> string) \<Rightarrow> (score \<Rightarrow> pyval) \<Rightarrow>
   (topology_packet \<Rightarrow> topology_state \<Rightarrow> validation_check list) \<Rightarrow> compile_profile \<Rightarrow>
   resolved_configuration \<Rightarrow> repository_bundle list \<Rightarrow> corpus_packet list \<Rightarrow> string \<Rightarrow>
   compilation_failure + compilation" where
  "compile_topology sha repr str_of num schema cf c bundles corpora t =
     bind_sum (map_sum not_compiled id
       (compile_state sha repr str_of cf (map bundle_packet bundles) corpora)) (\<lambda>s.
     let candidate = identify sha (unsealed_packet sha str_of num c (map bundle_packet bundles) corpora s t);
         receipt = validate_topology sha num schema candidate s bundles corpora t in
     if vr_status receipt \<noteq> check_passed then Inl (not_valid receipt)
     else Inr \<lparr>co_packet = seal sha candidate, co_state = s, co_receipt = receipt\<rparr>)"

subsection \<open>What a sealed packet promises\<close>

lemma semantic_view_unaffected [simp]:
  "topology_packet_semantic_view (p\<lparr>tp_id := i\<rparr>) = topology_packet_semantic_view p"
  "topology_packet_semantic_view (p\<lparr>tp_semantic_hash := h\<rparr>) = topology_packet_semantic_view p"
  "topology_packet_semantic_view (p\<lparr>tp_artifact_hash := h\<rparr>) = topology_packet_semantic_view p"
  "topology_packet_semantic_view (p\<lparr>tp_validation := v\<rparr>) = topology_packet_semantic_view p"
  "topology_packet_semantic_view (p\<lparr>tp_created_at := t\<rparr>) = topology_packet_semantic_view p"
  by (simp_all add: topology_packet_semantic_view_def inputs_view_def)

lemma semantic_hash_unaffected [simp]:
  "calculate_topology_semantic_hash sha (p\<lparr>tp_id := i\<rparr>) = calculate_topology_semantic_hash sha p"
  "calculate_topology_semantic_hash sha (p\<lparr>tp_semantic_hash := h\<rparr>) = calculate_topology_semantic_hash sha p"
  "calculate_topology_semantic_hash sha (p\<lparr>tp_artifact_hash := h\<rparr>) = calculate_topology_semantic_hash sha p"
  "calculate_topology_semantic_hash sha (p\<lparr>tp_validation := v\<rparr>) = calculate_topology_semantic_hash sha p"
  "calculate_topology_semantic_hash sha (p\<lparr>tp_created_at := t\<rparr>) = calculate_topology_semantic_hash sha p"
  by (simp_all add: calculate_topology_semantic_hash_def)

lemma identify_simps [simp]:
  "tp_semantic_hash (identify sha p) = calculate_topology_semantic_hash sha p"
  "tp_id (identify sha p) = packet_identity (calculate_topology_semantic_hash sha p)"
  "calculate_topology_semantic_hash sha (identify sha p) = calculate_topology_semantic_hash sha p"
  "tp_payload_hashes (identify sha p) = tp_payload_hashes p"
  "tp_payload_refs (identify sha p) = tp_payload_refs p"
  "tp_repository_inputs (identify sha p) = tp_repository_inputs p"
  "tp_corpus_inputs (identify sha p) = tp_corpus_inputs p"
  "tp_created_at (identify sha p) = tp_created_at p"
  by (simp_all add: identify_def Let_def)

lemma seal_simps [simp]:
  "tp_semantic_hash (seal sha p) = tp_semantic_hash p" "tp_id (seal sha p) = tp_id p"
  "calculate_topology_semantic_hash sha (seal sha p) = calculate_topology_semantic_hash sha p"
  "tp_payload_hashes (seal sha p) = tp_payload_hashes p"
  "tp_payload_refs (seal sha p) = tp_payload_refs p"
  "tp_repository_inputs (seal sha p) = tp_repository_inputs p"
  "tp_validation (seal sha p) = \<lparr>pv_status = status_passed, pv_receipt_ref = Some receipt_path\<rparr>"
  by (simp_all add: seal_def Let_def)

lemma finalize_receipt_simps [simp]:
  "vr_status (finalize_receipt sha r) = vr_status r"
  "vr_subject_id (finalize_receipt sha r) = vr_subject_id r"
  "vr_subject_hash (finalize_receipt sha r) = vr_subject_hash r"
  by (simp_all add: finalize_receipt_def Let_def)

lemma finalized_receipt_validates: "validate_receipt sha (finalize_receipt sha r) = None"
  by (simp add: finalize_receipt_def validate_receipt_def receipt_semantic_view_def receipt_fields_def Let_def)

lemma hash_checks_verdict:
  "validation_verdict (hash_checks sha num p s) = check_passed \<longleftrightarrow>
     tp_semantic_hash p = calculate_topology_semantic_hash sha p \<and>
     tp_id p = packet_identity (tp_semantic_hash p) \<and>
     map_of (tp_payload_hashes p) = map_of (topology_payload_hashes sha num s)"
proof -
  have "(\<forall>k \<in> set (dkeys d @ dkeys e). dget d k = dget e k) \<longleftrightarrow> map_of d = map_of e"
    for d e :: "(string, string) dict"
  proof
    assume a: "\<forall>k \<in> set (dkeys d @ dkeys e). dget d k = dget e k"
    show "map_of d = map_of e"
    proof
      fix k
      show "map_of d k = map_of e k"
        using a by (cases "k \<in> set (dkeys d @ dkeys e)") (auto simp: map_of_eq_None_iff [THEN iffD2])
    qed
  qed simp
  then show ?thesis
    unfolding hash_checks_def Let_def verdict_passed by (simp del: set_append)
qed

lemma validate_topology_simps [simp]:
  "vr_subject_id (validate_topology sha num schema p s bundles corpora t) = tp_id p"
  "vr_subject_hash (validate_topology sha num schema p s bundles corpora t) = tp_semantic_hash p"
  "validate_receipt sha (validate_topology sha num schema p s bundles corpora t) = None"
  by (simp_all add: validate_topology_def Let_def finalized_receipt_validates)

lemma validate_topology_status:
  "vr_status (validate_topology sha num schema p s bundles corpora t) = check_passed \<longleftrightarrow>
     validation_verdict (schema p s) = check_passed \<and>
     validation_verdict (hash_checks sha num p s) = check_passed \<and>
     structurally_sound s \<and> evidence_sound s \<and>
     conserved s (tp_repository_inputs p) bundles corpora"
  unfolding validate_topology_def Let_def finalize_receipt_simps
  by (auto simp: verdict_append invariant_verdict evidence_verdict cross_reference_verdict)

subsection \<open>When a compile is accepted\<close>

lemma find_rev_filter: "find P (rev xs) = (if filter P xs = [] then None else Some (last (filter P xs)))"
  by (induction xs rule: rev_induct) auto

lemma find_map': "find P (map f xs) = map_option f (find (\<lambda>x. P (f x)) xs)"
  by (induction xs) auto

lemma index_by_sort: "dget (index_by f (sort_key f xs)) k = dget (index_by f xs) k"
  unfolding dget_index_by find_rev_filter by (simp add: sort_key_stable)

lemma input_references:
  "dget (index_by pr_packet_id (sort_key pr_packet_id (map repository_input_ref (map bundle_packet bs)))) k =
     map_option (\<lambda>b. repository_input_ref (bundle_packet b)) (dget (index_by bundle_id bs) k)"
proof -
  have "pr_packet_id (repository_input_ref p) = rp_id p" for p by (simp add: repository_input_ref_def)
  then show ?thesis
    by (simp add: index_by_sort) (simp add: dget_index_by rev_map find_map' comp_def)
qed

lemma references_match:
  assumes "list_all (\<lambda>b. pv_status (rp_validation (bundle_packet b)) = status_passed) bs"
  shows "reference_mismatches
    (sort_key pr_packet_id (map repository_input_ref (map bundle_packet bs))) bs = []"
proof -
  have "pv_status (rp_validation (bundle_packet b)) = status_passed"
    if "dget (index_by bundle_id bs) k = Some b" for k b
    using that assms index_by_entry(1) [OF map_of_SomeD] by (fastforce simp: list_all_iff)
  then show ?thesis
    unfolding reference_mismatches_def input_references concat_eq_Nil_conv
    by (auto simp: repository_input_ref_def split: option.split)
qed

lemma compiled_inputs_admissible:
  assumes "compile_state sha repr str_of cf ps cs = Inr s"
  shows "list_all (admissible sha) ps"
  using assms
proof (rule compile_state_cases)
  fix models assume "adapt_packets sha repr str_of ps = Inr models"
  then have "list_all (\<lambda>p. admissible sha p \<and>
     list_all (\<lambda>a. \<exists>ref. assertion_source_ref p a = Inr ref) (packet_assertions p)) ps"
    using adapt_packets_Inr by blast
  then show ?thesis by (simp add: list_all_iff)
qed

lemma compiled_state_conserved:
  assumes "compile_state sha repr str_of cf (map bundle_packet bs) cs = Inr s"
    and "unambiguous (pooled_evidence sha (map bundle_packet bs) cs)"
  shows "conserved s (sort_key pr_packet_id (map repository_input_ref (map bundle_packet bs))) bs cs \<longleftrightarrow>
    list_all (\<lambda>b. bundle_receipt b = status_passed) bs"
proof -
  have v: "list_all (\<lambda>b. pv_status (rp_validation (bundle_packet b)) = status_passed) bs"
    using compiled_inputs_admissible [OF assms(1)] by (auto simp: list_all_iff admissible_def)
  from conserves_inputs [OF assms(1,2) refl]
  have "check_status (assertion_check s bs cs) \<noteq> check_failed"
    "check_status (diagnostic_check s bs) \<noteq> check_failed" by simp_all
  then have c: "set (claimed_assertion_ids (semantic_claims s)) = set (input_assertion_ids bs cs)"
    "set (input_assertion_ids bs cs) \<subseteq> set (evidenced_assertion_ids (state_evidence s))"
    and d: "sum_list (map payload_diagnostics bs) =
       length (filter (\<lambda>d. disposition d = preserved) (diagnostics s))"
     "\<forall>b \<in> set bs. payload_diagnostics b \<noteq> 0 \<longrightarrow> bundle_id b \<in> diag_source_packet ` set (diagnostics s)"
    by (auto simp: assertion_check_def diagnostic_check_def Let_def minus_ids_Nil)
  have r: "pr_packet_id ` set (sort_key pr_packet_id (map repository_input_ref (map bundle_packet bs))) =
      bundle_id ` set bs"
    by (simp add: image_image repository_input_ref_def)
  show ?thesis
    unfolding conserved_def references_match [OF v] r using c d v by (auto simp: list_all_iff)
qed

lemma sealed_iff:
  assumes "compile_state sha repr str_of cf (map bundle_packet bundles) corpora = Inr s"
    and "unambiguous (pooled_evidence sha (map bundle_packet bundles) corpora)"
  shows "(\<exists>r. compile_topology sha repr str_of num schema cf c bundles corpora t = Inr r) \<longleftrightarrow>
    validation_verdict (schema (identify sha
      (unsealed_packet sha str_of num c (map bundle_packet bundles) corpora s t)) s) = check_passed \<and>
    structurally_sound s \<and> evidence_sound s \<and>
    list_all (\<lambda>b. bundle_receipt b = status_passed) bundles"
proof -
  let ?p = "identify sha (unsealed_packet sha str_of num c (map bundle_packet bundles) corpora s t)"
  have u: "tp_payload_hashes ?p = topology_payload_hashes sha num s"
    "tp_repository_inputs ?p = sort_key pr_packet_id (map repository_input_ref (map bundle_packet bundles))"
    by (simp_all add: unsealed_packet_def Let_def)
  have "validation_verdict (hash_checks sha num ?p s) = check_passed"
    unfolding hash_checks_verdict u by simp
  then have "vr_status (validate_topology sha num schema ?p s bundles corpora t) = check_passed \<longleftrightarrow>
      validation_verdict (schema ?p s) = check_passed \<and> structurally_sound s \<and> evidence_sound s \<and>
      list_all (\<lambda>b. bundle_receipt b = status_passed) bundles"
    unfolding validate_topology_status u compiled_state_conserved [OF assms] by simp
  then show ?thesis by (auto simp: compile_topology_def assms(1) Let_def)
qed

text \<open>
  C7: What can still refuse a compiled state. If no two pooled evidence records share an identity
  while naming different statements, a compile whose stages returned a state is sealed exactly
  when the JSON Schema checks pass, the state is structurally and evidentially sound, and every
  input came with a passed receipt: the hash checks, the conservation checks and the input
  references can never be what refuses it.
\<close>
theorem compiled_state_refused_exactly:
  assumes "compile_state sha repr str_of cf (map bundle_packet bundles) corpora = Inr s"
    and "unambiguous (pooled_evidence sha (map bundle_packet bundles) corpora)"
  shows "(\<exists>r. compile_topology sha repr str_of num schema cf c bundles corpora t = Inr r) \<longleftrightarrow>
    validation_verdict (schema (identify sha
      (unsealed_packet sha str_of num c (map bundle_packet bundles) corpora s t)) s) = check_passed \<and>
    structurally_sound s \<and> evidence_sound s \<and>
    list_all (\<lambda>b. bundle_receipt b = status_passed) bundles"
  using assms by (rule sealed_iff)

definition sample_configuration :: resolved_configuration where
  "sample_configuration =
     \<lparr>cfg_topology = [(''id'', PStr ''p''), (''version'', PStr ''1'')], cfg_risk = [], cfg_maturity = [],
      cfg_report = [], cfg_packet = [], cfg_output = [], cfg_callback = [], cfg_profile_hash = ''h'',
      cfg_schema_hash = ''h'', cfg_contract_versions = active_contract_versions\<rparr>"

text \<open>An input whose receipt did not pass is never sealed.\<close>

theorem compiled_state_refused_exactly_witness:
  "\<exists>s b. compile_state id id (\<lambda>_. ''x'') sample_config [sample_packet id] [] = Inr s \<and>
     bundle_packet b = sample_packet id \<and> bundle_receipt b = status_failed \<and>
     \<not> (\<exists>r. compile_topology id id (\<lambda>_. ''x'') (\<lambda>_. PNone) (\<lambda>_ _. []) sample_config
         sample_configuration [b] [] ''t'' = Inr r)"
proof -
  obtain s where s: "compile_state id id (\<lambda>_. ''x'') sample_config [sample_packet id] [] = Inr s"
    using compile_succeeds_iff [OF sample_config_sound, of id id "\<lambda>_. ''x''" "[sample_packet id]" "[]"]
      sample_acceptable [of id]
    by (auto simp: acceptable_def statements_located_def)
  let ?b = "\<lparr>bundle_packet = sample_packet id, bundle_receipt = status_failed\<rparr>"
  have "map bundle_packet [?b] = [sample_packet id]" by simp
  with compiled_state_refused_exactly [of id id "\<lambda>_. ''x''" sample_config "[?b]" "[]" s "\<lambda>_. PNone"
      "\<lambda>_ _. []" sample_configuration "''t''"] s sample_unambiguous
  show ?thesis by (intro exI [of _ s] exI [of _ ?b]) simp
qed

subsection \<open>The time of a compile\<close>

lemma wf_model_dump: "wf_py v \<Longrightarrow> wf_py (model_dump v)"
  by (induction v rule: model_dump.induct) (auto simp: list_all_iff comp_def case_prod_unfold)

lemma wf_str_dict: "wf_py (str_dict d) \<longleftrightarrow> distinct (dkeys d)"
  by (simp add: str_dict_def list_all_iff comp_def case_prod_unfold)

lemma wf_core:
  assumes "distinct (dkeys (tp_policy_hashes p))" "distinct (dkeys (tp_payload_refs p))"
    "distinct (dkeys (tp_payload_hashes p))"
  shows "wf_py (PModel (packet_core_fields p))"
  using assms by (simp add: packet_core_fields_def wf_str_dict producer_view_def profile_view_def
      inputs_view_def lineage_view_def validation_ref_view_def packet_ref_view_def strs_def list_all_iff
      option.pred_True)

lemma core_hash_time:
  assumes "inj sha" and d: "distinct (dkeys (tp_policy_hashes p))" "distinct (dkeys (tp_payload_refs p))"
    "distinct (dkeys (tp_payload_hashes p))"
  shows "packet_core_hash sha (p\<lparr>tp_created_at := t\<rparr>) = packet_core_hash sha (p\<lparr>tp_created_at := t'\<rparr>) \<longleftrightarrow>
    t = t'"
proof -
  let ?v = "\<lambda>t. model_dump (PModel (packet_core_fields (p\<lparr>tp_created_at := t\<rparr>)))"
  have "wf_py (?v t)" for t by (rule wf_model_dump, rule wf_core) (simp_all add: d)
  then have "packet_core_hash sha (p\<lparr>tp_created_at := t\<rparr>) = packet_core_hash sha (p\<lparr>tp_created_at := t'\<rparr>) \<longleftrightarrow>
      canonical_data (?v t) = canonical_data (?v t')"
    using assms(1) by (simp add: packet_core_hash_def artifact_hash_def sha256_bytes_def inj_eq
        canonical_json_def dumps_inj canonical_canonical_data del: model_dump.simps)
  also have "\<dots> \<longleftrightarrow> t = t'"
  proof
    assume e: "canonical_data (?v t) = canonical_data (?v t')"
    have m: "(''created_at'', JStr x) \<in> set kvs \<longleftrightarrow> x = u" if "canonical_data (?v u) = JObj kvs" for u x kvs
    proof -
      have "set kvs = (\<lambda>(k, v). (k, canonical_data (model_dump v))) ` set (packet_core_fields (p\<lparr>tp_created_at := u\<rparr>))"
      proof -
        have "kvs = sort_key fst (map (\<lambda>(k, v). (k, canonical_data v))
            (map (\<lambda>(k, v). (k, model_dump v)) (packet_core_fields (p\<lparr>tp_created_at := u\<rparr>))))"
          using that by simp
        then show ?thesis by (simp only: set_sort set_map image_image) (simp add: case_prod_unfold)
      qed
      then show ?thesis by (auto simp: packet_core_fields_def)
    qed
    obtain kvs where "canonical_data (?v t) = JObj kvs" by simp
    with e m [of t kvs t] m [of t' kvs t] show "t = t'" by simp
  qed simp
  finally show ?thesis .
qed

lemma unsealed_time:
  "unsealed_packet sha str_of num c ps cs s t' =
     (unsealed_packet sha str_of num c ps cs s t)\<lparr>tp_created_at := t'\<rparr>"
  by (simp add: unsealed_packet_def Let_def)

lemma identify_time:
  "identify sha (p\<lparr>tp_created_at := t\<rparr>) = (identify sha p)\<lparr>tp_created_at := t\<rparr>"
  by (simp add: identify_def Let_def)

lemma seal_artifact_hash:
  "tp_artifact_hash (seal sha p) = packet_core_hash sha
     (p\<lparr>tp_validation := \<lparr>pv_status = status_passed, pv_receipt_ref = Some receipt_path\<rparr>\<rparr>)"
  by (simp add: seal_def Let_def)

lemma payload_hash_keys: "distinct (dkeys (topology_payload_hashes sha num s))"
proof -
  have "dkeys (topology_payload_hashes sha num s) = dkeys (topology_payload num s)"
    by (simp add: topology_payload_hashes_def topology_payload_bytes_def comp_def case_prod_unfold)
  then show ?thesis by (simp add: topology_payload_def)
qed

lemma unsealed_keys:
  "distinct (dkeys (tp_policy_hashes (unsealed_packet sha str_of num c ps cs s t)))"
  "distinct (dkeys (tp_payload_refs (unsealed_packet sha str_of num c ps cs s t)))"
  "distinct (dkeys (tp_payload_hashes (unsealed_packet sha str_of num c ps cs s t)))"
  by (simp_all add: unsealed_packet_def Let_def policy_hashes_def payload_hash_keys
      topology_payload_refs_def comp_def) (simp add: topology_payload_def)

lemma validate_topology_time:
  assumes "schema (p\<lparr>tp_created_at := t\<rparr>) s = schema (p\<lparr>tp_created_at := t'\<rparr>) s"
  shows "validate_topology sha num schema (p\<lparr>tp_created_at := t'\<rparr>) s bundles corpora t' =
    (validate_topology sha num schema (p\<lparr>tp_created_at := t\<rparr>) s bundles corpora t)\<lparr>vr_created_at := t'\<rparr>"
  using assms by (simp add: validate_topology_def Let_def finalize_receipt_def hash_checks_def
      receipt_semantic_view_def receipt_fields_def)

text \<open>
  C8: The time of a compile moves the bytes of the packet and nothing else. Two compiles of the
  same inputs at different times are both refused, for the same reason, or both sealed, with the
  same state, packet identity, semantic hash and receipt identity, while the artifact hashes
  differ exactly when the times do. The digest must not collide, and the schema engine must judge
  any two times alike.
\<close>
theorem compile_time_moves_bytes_only:
  assumes "inj sha" and "\<And>p s. schema (p\<lparr>tp_created_at := t\<rparr>) s = schema (p\<lparr>tp_created_at := t'\<rparr>) s"
  shows "case (compile_topology sha repr str_of num schema cf c bundles corpora t,
      compile_topology sha repr str_of num schema cf c bundles corpora t') of
    (Inr r, Inr r') \<Rightarrow> co_state r = co_state r' \<and> tp_id (co_packet r) = tp_id (co_packet r') \<and>
      tp_semantic_hash (co_packet r) = tp_semantic_hash (co_packet r') \<and>
      vr_id (co_receipt r) = vr_id (co_receipt r') \<and>
      (tp_artifact_hash (co_packet r) = tp_artifact_hash (co_packet r') \<longleftrightarrow> t = t')
  | (Inl (not_compiled e), Inl (not_compiled e')) \<Rightarrow> e = e'
  | (Inl (not_valid v), Inl (not_valid v')) \<Rightarrow> vr_id v = vr_id v' \<and> vr_semantic_hash v = vr_semantic_hash v'
  | _ \<Rightarrow> False"
proof (cases "compile_state sha repr str_of cf (map bundle_packet bundles) corpora")
  case (Inl e)
  then show ?thesis by (simp add: compile_topology_def)
next
  case (Inr s)
  define p where "p = identify sha (unsealed_packet sha str_of num c (map bundle_packet bundles) corpora s t)"
  have t: "identify sha (unsealed_packet sha str_of num c (map bundle_packet bundles) corpora s u) =
      p\<lparr>tp_created_at := u\<rparr>" for u
    unfolding p_def unsealed_time [of sha str_of num c _ corpora s u t] identify_time ..
  let ?r = "validate_topology sha num schema (p\<lparr>tp_created_at := t\<rparr>) s bundles corpora t"
  have r: "validate_topology sha num schema (p\<lparr>tp_created_at := t'\<rparr>) s bundles corpora t' =
      ?r\<lparr>vr_created_at := t'\<rparr>"
    by (rule validate_topology_time) (rule assms(2))
  have k: "distinct (dkeys (tp_policy_hashes p))" "distinct (dkeys (tp_payload_refs p))"
    "distinct (dkeys (tp_payload_hashes p))"
    using unsealed_keys by (simp_all add: p_def identify_def Let_def)
  have "p\<lparr>tp_created_at := u, tp_validation := v\<rparr> = p\<lparr>tp_validation := v, tp_created_at := u\<rparr>" for u v
    by simp
  then have h: "tp_artifact_hash (seal sha (p\<lparr>tp_created_at := t\<rparr>)) =
      tp_artifact_hash (seal sha (p\<lparr>tp_created_at := t'\<rparr>)) \<longleftrightarrow> t = t'"
    using core_hash_time [OF assms(1), of "p\<lparr>tp_validation :=
        \<lparr>pv_status = status_passed, pv_receipt_ref = Some receipt_path\<rparr>\<rparr>" t t'] k
    by (simp only: seal_artifact_hash) simp
  show ?thesis
    by (simp add: compile_topology_def Inr Let_def t r h)
qed

text \<open>A packet that states nothing compiles to the empty topology.\<close>

definition nothing_stated :: normalized_inputs where
  "nothing_stated = \<lparr>nm_repositories = [], nm_artifacts = [], nm_capabilities = [], nm_relationships = [], nm_evidence = [], nm_diagnostics = [],
     nm_assertions = []\<rparr>"
definition no_knowledge where "no_knowledge = \<lparr>kn_evidence = [], kn_repositories = [], kn_claims = [],
    kn_projection = \<lparr>proj_capabilities = [], proj_edges = [], proj_nodes = [], proj_entities = []\<rparr>, kn_work = \<lparr>wp_edges = [], wp_nodes = [], wp_unknowns = [], wp_entities = []\<rparr>, kn_conflicts = [], kn_unknowns = [], kn_diagnostics = [], kn_capabilities = []\<rparr>"
lemma no_knowledge: "establish sha repr str_of cf nothing_stated [] [] = no_knowledge"
  by (simp add: establish_def nothing_stated_def Let_def reconcile_evidence_def aggregate_repositories_def reconcile_assertions_def statements_of_def
   project_claims_def project_work_relations_def merge_projected_entities_def apply_projection_def aggregate_capabilities_def build_capabilities_def all_conflicts_def
   derive_unknowns_def domains_not_run_unknowns_def merged_repositories_def evidence_by_id_def group_by_def index_by_def group_map_def
   no_knowledge_def evidence_questions_def artifact_implementers_def)
lemma no_graph: "connect sha nothing_stated [] no_knowledge = \<lparr>cg_corpora = [], cg_roots = [], cg_records = [], cg_edges = []\<rparr>"
  by (simp add: connect_def nothing_stated_def no_knowledge_def Let_def stamp_scope_def compile_corpus_scope_def build_duplicate_edges_def
    corpus_scope_graph_def build_topology_graph_def repository_graph_def artifact_graph_def capability_graph_def packet_roots_def cluster_relations_def graph_parts_def scope_edges_def index_by_def)
lemma no_state: "assemble nothing_stated no_knowledge \<lparr>cg_corpora = [], cg_roots = [], cg_records = [], cg_edges = []\<rparr>
   (propose sha nothing_stated [] no_knowledge \<lparr>cg_corpora = [], cg_roots = [], cg_records = [], cg_edges = []\<rparr>) (build_flows sha []) [] [] [] = sample_topology []"
  by (simp add: assemble_def propose_def nothing_stated_def no_knowledge_def Let_def sample_topology_def candidate_graph_records_def
    build_flows_def route_reasoning_candidates_def)
definition bare_packet :: "(string \<Rightarrow> string) \<Rightarrow> repository_packet" where
  "bare_packet sha = (let p = sample_unsealed\<lparr>rp_payload := Some \<lparr>pl_repositories = [], pl_artifacts = [],
     pl_capabilities = [], pl_relationships = [], pl_evidence = [], pl_diagnostics = [],
     pl_assertions = None\<rparr>\<rparr> in
     p\<lparr>rp_semantic_hash := semantic_hash sha (repository_model_semantic_view p)\<rparr>)"
lemma bare_view: "repository_model_semantic_view (p\<lparr>rp_semantic_hash := h\<rparr>) = repository_model_semantic_view p"
 by (simp add: repository_model_semantic_view_def)
lemma bare_inputs: "adapt_packets sha repr str_of [bare_packet sha] = Inr models \<Longrightarrow> normalize_models models = nothing_stated"
  by (auto simp: bare_packet_def sample_unsealed_def adapt_packets_def adapt_packet_def validate_repository_packet_def bare_view Let_def collect_def supported_versions_def packet_assertions_def
      normalize_models_def nothing_stated_def assertion_evidence_records_def split: sum.splits if_splits)
lemma bare_compiles: assumes "profile_sound (cf_maturity cf)" "rules_sound (cf_risk_rules cf)" shows "compile_state sha repr str_of cf [bare_packet sha] [] = Inr (sample_topology [])"
proof -
  have "admissible sha (bare_packet sha)" by (simp add: admissible_def bare_packet_def Let_def bare_view) (simp add: sample_unsealed_def supported_versions_def)
  then have "acceptable sha [bare_packet sha] []"
    by (auto simp: acceptable_def statements_located_def packet_assertions_def bare_packet_def Let_def)
  then obtain s where s: "compile_state sha repr str_of cf [bare_packet sha] [] = Inr s"
    using compile_succeeds_iff [OF assms] by blast
  then have "s = sample_topology []"
  proof (rule compile_state_cases)
    fix us models evs impacts mats rks kn g
    assume "adapt_packets sha repr str_of [bare_packet sha] = Inr models"
      and "collect (map (corpus_evidence sha) []) = Inr evs"
      and "kn = establish sha repr str_of cf (normalize_models models) (concat evs) []"
      and "g = connect sha (normalize_models models) [] kn"
      and "assess_impacts (kn_repositories kn) (cg_edges g) = Inr impacts"
      and "assess_maturity (kn_repositories kn) (kn_evidence kn) (cf_maturity cf) = Inr mats"
      and "assess_topology_risks sha repr (kn_repositories kn) (cf_risk_rules cf) = Inr rks"
      and "s = assemble (normalize_models models) kn g (propose sha (normalize_models models) [] kn g)
        (build_flows sha (cg_edges g)) impacts mats rks"
    moreover have "kn_repositories no_knowledge = []" "kn_evidence no_knowledge = []"
      by (simp_all add: no_knowledge_def)
    ultimately show "s = sample_topology []"
      by (auto simp: bare_inputs no_knowledge no_graph no_state collect_def assess_impacts_def
          assess_maturity_def assess_topology_risks_def)
  qed
  with s show ?thesis by simp
qed

lemma bare_sealed:
  assumes "\<And>p. validation_verdict (schema p (sample_topology [])) = check_passed"
  shows "\<exists>r. compile_topology sha repr str_of num schema sample_config c
    [\<lparr>bundle_packet = bare_packet sha, bundle_receipt = status_passed\<rparr>] [] t = Inr r"
proof -
  let ?b = "\<lparr>bundle_packet = bare_packet sha, bundle_receipt = status_passed\<rparr>"
  have "compile_state sha repr str_of sample_config (map bundle_packet [?b]) [] = Inr (sample_topology [])"
    by (simp add: bare_compiles [OF sample_config_sound])
  moreover have "unambiguous (pooled_evidence sha (map bundle_packet [?b]) [])"
    by (simp add: unambiguous_def pooled_evidence_def assertion_evidence_records_def
        packet_assertions_def bare_packet_def Let_def collect_def)
  moreover have "structurally_sound (sample_topology [])" "evidence_sound (sample_topology [])"
    by (simp_all add: structurally_sound_def evidence_sound_def id_sets_def record_evidence_refs_def
        sample_topology_def)
  ultimately show ?thesis using sealed_iff assms by fastforce
qed

theorem compile_time_moves_bytes_only_witness:
  "\<exists>r r'. compile_topology id id (\<lambda>_. ''x'') (\<lambda>_. PNone) (\<lambda>_ _. []) sample_config sample_configuration
      [\<lparr>bundle_packet = bare_packet id, bundle_receipt = status_passed\<rparr>] [] ''1970-01-01T00:00:00Z'' = Inr r \<and>
    compile_topology id id (\<lambda>_. ''x'') (\<lambda>_. PNone) (\<lambda>_ _. []) sample_config sample_configuration
      [\<lparr>bundle_packet = bare_packet id, bundle_receipt = status_passed\<rparr>] [] ''2026-01-01T00:00:00Z'' = Inr r' \<and>
    tp_id (co_packet r) = tp_id (co_packet r') \<and>
    tp_artifact_hash (co_packet r) \<noteq> tp_artifact_hash (co_packet r')"
proof -
  let ?c = "compile_topology id id (\<lambda>_. ''x'') (\<lambda>_. PNone) (\<lambda>_ _. []) sample_config sample_configuration
      [\<lparr>bundle_packet = bare_packet id, bundle_receipt = status_passed\<rparr>] []"
  have "\<exists>r. ?c t = Inr r" for t by (rule bare_sealed) (simp add: verdict_passed)
  then obtain r r' where "?c ''1970-01-01T00:00:00Z'' = Inr r" "?c ''2026-01-01T00:00:00Z'' = Inr r'"
    by metis
  with compile_time_moves_bytes_only [of id "\<lambda>_ _. []" "''1970-01-01T00:00:00Z''" "''2026-01-01T00:00:00Z''"
      id "\<lambda>_. ''x''" "\<lambda>_. PNone" sample_config sample_configuration
      "[\<lparr>bundle_packet = bare_packet id, bundle_receipt = status_passed\<rparr>]" "[]"]
  show ?thesis by auto
qed

subsection \<open>What a packet identity identifies\<close>

definition stripped_view :: "pyval \<Rightarrow> json" where
  "stripped_view v = strip_data default_excluded (canonical_data v)"

lemma semantic_hash_stripped:
  assumes "inj sha" "wf_py v" "wf_py w"
  shows "semantic_hash sha v = semantic_hash sha w \<longleftrightarrow> stripped_view v = stripped_view w"
  using semantic_bytes_eq_iff [OF assms(2,3), of None] assms(1)
  by (simp add: semantic_hash_bytes sha256_bytes_def excluded_or_default_def stripped_view_def inj_eq)

definition ref_identity ::
  "packet_ref \<Rightarrow> string \<times> string \<times> string \<times> validation_status \<times> string option \<times> string option" where
  "ref_identity r = (pr_packet_type r, pr_packet_version r, pr_uri r, pr_validation_status r,
     pr_subject_id r, pr_source_revision r)"

lemma validation_status_value_inj: "validation_status_value a = validation_status_value b \<longleftrightarrow> a = b"
  by (cases a; cases b) simp_all

lemma stripped_ref:
  "stripped_view (packet_ref_view r) = stripped_view (packet_ref_view r') \<longleftrightarrow>
     ref_identity r = ref_identity r'"
  by (cases "pr_subject_id r"; cases "pr_subject_id r'"; cases "pr_source_revision r";
      cases "pr_source_revision r'"; cases "pr_artifact_hash r"; cases "pr_artifact_hash r'")
    (auto simp: stripped_view_def packet_ref_view_def default_excluded_def py_opt_def ref_identity_def
      validation_status_value_inj)

lemma stripped_seq:
  "stripped_view (PSeq (map f xs)) = stripped_view (PSeq (map f ys)) \<longleftrightarrow>
     map (\<lambda>x. stripped_view (f x)) xs = map (\<lambda>x. stripped_view (f x)) ys"
  by (simp add: stripped_view_def comp_def)

lemma stripped_refs:
  "stripped_view (PSeq (map packet_ref_view xs)) = stripped_view (PSeq (map packet_ref_view ys)) \<longleftrightarrow>
     map ref_identity xs = map ref_identity ys"
  unfolding stripped_seq
proof (induction xs arbitrary: ys)
  case (Cons x xs)
  then show ?case by (cases ys) (simp_all add: stripped_ref)
qed auto

definition sound_keys :: "(string, string) dict \<Rightarrow> bool" where
  "sound_keys d \<longleftrightarrow> distinct (dkeys d) \<and> list_all (\<lambda>k. k \<notin> set default_excluded) (dkeys d)"

lemma stripped_str_dict:
  assumes "sound_keys d" "sound_keys e"
  shows "stripped_view (str_dict d) = stripped_view (str_dict e) \<longleftrightarrow> map_of d = map_of e"
proof -
  let ?g = "\<lambda>(k :: string, v). (k, JStr v)"
  have s: "stripped_view (str_dict d) = JObj (sort_key fst (map ?g d))" if "sound_keys d" for d
  proof -
    have "filter (\<lambda>(k, v). k \<notin> set default_excluded) (sort_key fst (map ?g d)) = sort_key fst (map ?g d)"
      using that by (auto simp: sound_keys_def list_all_iff filter_id_conv)
    moreover have "map (\<lambda>(k, v). (k, strip_data ex v)) (sort_key fst (map ?g d)) = sort_key fst (map ?g d)" for ex
      by (rule map_idI) auto
    ultimately show ?thesis
      by (simp add: stripped_view_def str_dict_def comp_def case_prod_unfold)
  qed
  have "distinct (map fst (map ?g d))" "distinct (map fst (map ?g e))"
    using assms by (simp_all add: sound_keys_def comp_def case_prod_unfold)
  then have "stripped_view (str_dict d) = stripped_view (str_dict e) \<longleftrightarrow> set (map ?g d) = set (map ?g e)"
    unfolding s [OF assms(1)] s [OF assms(2)] json.inject using sort_key_fst_cong by (metis set_sort)
  also have "\<dots> \<longleftrightarrow> set d = set e"
  proof -
    have "inj ?g" by (auto simp: inj_def)
    then show ?thesis by (simp only: set_map inj_image_eq_iff)
  qed
  also have "\<dots> \<longleftrightarrow> map_of d = map_of e"
    using assms by (simp add: sound_keys_def map_of_inject_set)
  finally show ?thesis .
qed

lemma stripped_lineage:
  "stripped_view (lineage_view l) = stripped_view (lineage_view l') \<longleftrightarrow> l = l'"
proof -
  have "inj JStr" by (simp add: inj_def)
  then show ?thesis
    by (cases l; cases l'; cases "lineage_root l"; cases "lineage_root l'")
      (auto simp: stripped_view_def lineage_view_def default_excluded_def py_opt_def strs_def comp_def
        inj_map_eq_map)
qed

lemma stripped_producer: "stripped_view (producer_view p) = stripped_view (producer_view p') \<longleftrightarrow> p = p'"
  by (cases p; cases p') (simp add: stripped_view_def producer_view_def default_excluded_def)

lemma stripped_profile: "stripped_view (profile_view p) = stripped_view (profile_view p') \<longleftrightarrow> p = p'"
  by (cases p; cases p') (auto simp: stripped_view_def profile_view_def default_excluded_def)

lemma stripped_packet:
  "stripped_view (topology_packet_semantic_view p) = JObj
     [(''inputs'', JObj
        [(''corpus_intelligence_packets'', stripped_view (PSeq (map packet_ref_view (tp_corpus_inputs p)))),
         (''repository_model_packets'', stripped_view (PSeq (map packet_ref_view (tp_repository_inputs p))))]),
      (''lineage'', stripped_view (lineage_view (tp_lineage p))),
      (''packet_type'', JStr topology_packet_type), (''packet_version'', JStr (tp_version p)),
      (''payload_hashes'', stripped_view (str_dict (tp_payload_hashes p))),
      (''payload_refs'', stripped_view (str_dict (tp_payload_refs p))),
      (''policy_hashes'', stripped_view (str_dict (tp_policy_hashes p))),
      (''producer'', stripped_view (producer_view (tp_producer p))),
      (''profile'', stripped_view (profile_view (tp_profile p))),
      (''schema_hash'', JStr (tp_schema_hash p))]"
  by (simp add: stripped_view_def topology_packet_semantic_view_def default_excluded_def inputs_view_def)


definition semantic_keys_sound :: "topology_packet \<Rightarrow> bool" where
  "semantic_keys_sound p \<longleftrightarrow> sound_keys (tp_policy_hashes p) \<and> sound_keys (tp_payload_refs p) \<and>
     sound_keys (tp_payload_hashes p)"

lemma wf_semantic_view: "semantic_keys_sound p \<Longrightarrow> wf_py (topology_packet_semantic_view p)"
  by (simp add: semantic_keys_sound_def sound_keys_def topology_packet_semantic_view_def wf_str_dict
      producer_view_def profile_view_def inputs_view_def lineage_view_def packet_ref_view_def strs_def
      list_all_iff option.pred_True)

lemma packet_identity_hash:
  "packet_identity (semantic_hash sha v) = packet_identity (semantic_hash sha w) \<longleftrightarrow>
     semantic_hash sha v = semantic_hash sha w"
  by (simp add: packet_identity_def semantic_hash_bytes sha256_bytes_def removeprefix_def)

lemma semantic_hash_exact:
  assumes "inj sha" and "semantic_keys_sound p" and "semantic_keys_sound q"
  shows "calculate_topology_semantic_hash sha p = calculate_topology_semantic_hash sha q \<longleftrightarrow>
    tp_version p = tp_version q \<and> tp_producer p = tp_producer q \<and> tp_profile p = tp_profile q \<and>
    map ref_identity (tp_repository_inputs p) = map ref_identity (tp_repository_inputs q) \<and>
    map ref_identity (tp_corpus_inputs p) = map ref_identity (tp_corpus_inputs q) \<and>
    tp_schema_hash p = tp_schema_hash q \<and>
    map_of (tp_policy_hashes p) = map_of (tp_policy_hashes q) \<and>
    map_of (tp_payload_refs p) = map_of (tp_payload_refs q) \<and>
    map_of (tp_payload_hashes p) = map_of (tp_payload_hashes q) \<and> tp_lineage p = tp_lineage q"
  (is "_ \<longleftrightarrow> ?rhs")
proof -
  have "calculate_topology_semantic_hash sha p = calculate_topology_semantic_hash sha q \<longleftrightarrow>
      stripped_view (topology_packet_semantic_view p) = stripped_view (topology_packet_semantic_view q)"
    by (simp only: calculate_topology_semantic_hash_def
        semantic_hash_stripped [OF assms(1) wf_semantic_view [OF assms(2)] wf_semantic_view [OF assms(3)]])
  also have "\<dots> \<longleftrightarrow> ?rhs"
    unfolding stripped_packet using assms(2,3)
    by (auto simp: semantic_keys_sound_def stripped_refs stripped_str_dict stripped_lineage
        stripped_producer stripped_profile)
  finally show ?thesis .
qed


definition sample_sealed :: "string \<Rightarrow> string \<Rightarrow> topology_packet" where
  "sample_sealed input_hash policy =
     \<lparr>tp_version = topology_packet_version, tp_id = '''', tp_producer =
        \<lparr>producer_name = ''n'', producer_build = ''1''\<rparr>,
      tp_profile = \<lparr>profile_name = ''p'', profile_build = ''1'', profile_digest = ''d''\<rparr>,
      tp_repository_inputs = [(sample_packet_ref id)\<lparr>pr_semantic_hash := input_hash\<rparr>],
      tp_corpus_inputs = [], tp_schema_hash = ''h'', tp_policy_hashes = [(''risk'', policy)],
      tp_payload_refs = [], tp_payload_hashes = [],
      tp_validation = \<lparr>pv_status = status_not_run, pv_receipt_ref = None\<rparr>, tp_semantic_hash = '''',
      tp_artifact_hash = '''',
      tp_lineage = \<lparr>parent_packet_ids = [], lineage_root = None, generation = 1\<rparr>,
      tp_created_at = ''t''\<rparr>"


end
