(* ===== verification/OutputSink.thy ===== *)
theory OutputSink
  imports Evidence
begin

text \<open>
  Controlled effects, \<open>io/\<close>: rendered artifacts, write intents and policies, write plans and
  commit receipts, the contract of an output sink, and the in-memory and composite sinks. Bytes
  are strings; the JSON rendering of bytes (\<open>pydantic\<close>) is the parameter \<open>bj\<close>, the clock of a
  receipt the parameter \<open>now\<close>.
\<close>

subsection \<open>Artifacts, intents, policies\<close>

datatype artifact_kind =
    kind_topology_packet | kind_validation_receipt | kind_report_manifest | kind_human_report
  | kind_graph_export | kind_risk_report | kind_maturity_report | kind_diagram
  | kind_debug_artifact | kind_commit_receipt | kind_publication_plan

fun artifact_kind_value :: "artifact_kind \<Rightarrow> string" where
  "artifact_kind_value kind_topology_packet = ''topology-packet''"
| "artifact_kind_value kind_validation_receipt = ''validation-receipt''"
| "artifact_kind_value kind_report_manifest = ''report-manifest''"
| "artifact_kind_value kind_human_report = ''human-report''"
| "artifact_kind_value kind_graph_export = ''graph-export''"
| "artifact_kind_value kind_risk_report = ''risk-report''"
| "artifact_kind_value kind_maturity_report = ''maturity-report''"
| "artifact_kind_value kind_diagram = ''diagram''"
| "artifact_kind_value kind_debug_artifact = ''debug-artifact''"
| "artifact_kind_value kind_commit_receipt = ''commit-receipt''"
| "artifact_kind_value kind_publication_plan = ''publication-plan''"

record rendered_artifact =
  logical_id :: string
  destination_path :: string
  ra_kind :: artifact_kind
  media_type :: string
  ra_content :: string
  ra_content_hash :: string
  ra_semantic_hash :: "string option"
  ra_source_refs :: "string list"

record write_intent =
  wi_artifact :: rendered_artifact
  expected_existing_hash :: "string option"
  wi_required :: bool

datatype write_mode = dry_run | write_through

record write_policy =
  pol_mode :: write_mode
  allowed_output_roots :: "string list"
  allowed_artifact_kinds :: "artifact_kind list"
  allow_overwrite :: bool
  require_expected_hash :: bool
  enforce_containment :: bool
  reject_collisions :: bool
  atomic_writes :: bool
  maximum_output_count :: nat
  maximum_output_bytes :: nat

text \<open>Construction of an artifact: the destination is normalized, the content hash checked.\<close>

datatype artifact_error = bad_destination path_error | content_hash_mismatch

definition make_artifact ::
  "(string \<Rightarrow> string) \<Rightarrow> rendered_artifact \<Rightarrow> artifact_error + rendered_artifact" where
  "make_artifact sha a =
     (case normalize_source_path None (destination_path a) of
        Inl e \<Rightarrow> Inl (bad_destination e)
      | Inr p \<Rightarrow>
          if ra_content_hash a \<noteq> artifact_hash sha (ra_content a) then Inl content_hash_mismatch
          else Inr (a\<lparr>destination_path := p\<rparr>))"

subsection \<open>Plans and receipts\<close>

datatype write_action = act_create | act_replace | act_skip

fun action_value :: "write_action \<Rightarrow> string" where
  "action_value act_create = ''create''"
| "action_value act_replace = ''replace''"
| "action_value act_skip = ''skip''"

record plan_entry =
  pe_intent :: write_intent
  pe_action :: write_action
  existing_hash :: "string option"
  pe_reason :: string

datatype plan_status = plan_ready | plan_blocked

record write_plan =
  plan_id :: ident
  plan_entries :: "plan_entry list"
  total_bytes :: nat
  plan_status :: plan_status
  plan_issues :: "string list"

datatype result_status = res_written | res_skipped | res_failed

fun result_status_value :: "result_status \<Rightarrow> string" where
  "result_status_value res_written = ''written''"
| "result_status_value res_skipped = ''skipped''"
| "result_status_value res_failed = ''failed''"

record commit_result =
  cr_logical_id :: string
  cr_destination :: string
  cr_status :: result_status
  cr_content_hash :: string
  cr_message :: string

datatype receipt_status = rcpt_passed | rcpt_failed | rcpt_blocked

fun receipt_status_value :: "receipt_status \<Rightarrow> string" where
  "receipt_status_value rcpt_passed = ''passed''"
| "receipt_status_value rcpt_failed = ''failed''"
| "receipt_status_value rcpt_blocked = ''blocked''"

record commit_receipt =
  receipt_id :: ident
  rcpt_plan_id :: ident
  rcpt_status :: receipt_status
  rcpt_results :: "commit_result list"
  rcpt_created_at :: string
  rcpt_semantic_hash :: string

definition artifact_view :: "(string \<Rightarrow> string) \<Rightarrow> rendered_artifact \<Rightarrow> pyval" where
  "artifact_view bj a = PModel
     [(''logical_id'', PStr (logical_id a)), (''destination_path'', PStr (destination_path a)),
      (''artifact_kind'', PStr (artifact_kind_value (ra_kind a))),
      (''media_type'', PStr (media_type a)), (''content'', PStr (bj (ra_content a))),
      (''content_hash'', PStr (ra_content_hash a)),
      (''semantic_hash'', py_opt PStr (ra_semantic_hash a)),
      (''source_refs'', PSeq (map PStr (ra_source_refs a)))]"

definition entry_view :: "(string \<Rightarrow> string) \<Rightarrow> plan_entry \<Rightarrow> pyval" where
  "entry_view bj e = PModel
     [(''intent'', PModel
         [(''artifact'', artifact_view bj (wi_artifact (pe_intent e))),
          (''expected_existing_hash'', py_opt PStr (expected_existing_hash (pe_intent e))),
          (''required'', PBool (wi_required (pe_intent e)))]),
      (''action'', PStr (action_value (pe_action e))),
      (''existing_hash'', py_opt PStr (existing_hash e)), (''reason'', PStr (pe_reason e))]"

definition make_write_plan ::
  "(string \<Rightarrow> string) \<Rightarrow> (string \<Rightarrow> string) \<Rightarrow> plan_entry list \<Rightarrow> string list \<Rightarrow> write_plan" where
  "make_write_plan sha bj entries issues =
     \<lparr>plan_id = ''write-plan:'' @ removeprefix (semantic_hash sha (PDict
        [(''entries'', PSeq (map (entry_view bj) entries)),
         (''issues'', PSeq (map PStr issues))])) sha_prefix,
      plan_entries = entries,
      total_bytes = sum_list (map (\<lambda>e. length (ra_content (wi_artifact (pe_intent e)))) entries),
      plan_status = (if issues \<noteq> [] then plan_blocked else plan_ready),
      plan_issues = issues\<rparr>"

definition result_view :: "commit_result \<Rightarrow> pyval" where
  "result_view r = PModel
     [(''logical_id'', PStr (cr_logical_id r)), (''destination_path'', PStr (cr_destination r)),
      (''status'', PStr (result_status_value (cr_status r))),
      (''content_hash'', PStr (cr_content_hash r)), (''message'', PStr (cr_message r))]"

definition receipt_view :: "commit_receipt \<Rightarrow> pyval" where
  "receipt_view r = PModel
     [(''packet_type'', PStr ''l9.commit-receipt''), (''packet_version'', PStr ''1.0.0''),
      (''receipt_id'', PStr (receipt_id r)), (''plan_id'', PStr (rcpt_plan_id r)),
      (''status'', PStr (receipt_status_value (rcpt_status r))),
      (''results'', PSeq (map result_view (rcpt_results r))),
      (''created_at'', PStr (rcpt_created_at r)),
      (''semantic_hash'', PStr (rcpt_semantic_hash r))]"

definition make_commit_receipt ::
  "(string \<Rightarrow> string) \<Rightarrow> string \<Rightarrow> write_plan \<Rightarrow> commit_result list \<Rightarrow> bool \<Rightarrow> commit_receipt" where
  "make_commit_receipt sha now p results blocked =
     (let status = (if blocked \<or> plan_status p = plan_blocked then rcpt_blocked
            else if list_ex (\<lambda>r. cr_status r = res_failed) results then rcpt_failed
            else rcpt_passed);
          candidate = \<lparr>receipt_id = ''receipt:pending'', rcpt_plan_id = plan_id p,
            rcpt_status = status, rcpt_results = results, rcpt_created_at = now,
            rcpt_semantic_hash = ''sha256:pending''\<rparr>;
          digest = semantic_hash sha (receipt_view candidate) in
      candidate\<lparr>receipt_id := ''receipt:'' @ removeprefix digest sha_prefix,
        rcpt_semantic_hash := digest\<rparr>)"

lemma make_write_plan_simps [simp]:
  "plan_status (make_write_plan sha bj es iss) = (if iss \<noteq> [] then plan_blocked else plan_ready)"
  "plan_issues (make_write_plan sha bj es iss) = iss"
  "plan_entries (make_write_plan sha bj es iss) = es"
  by (simp_all add: make_write_plan_def)

lemma make_commit_receipt_simps [simp]:
  "rcpt_status (make_commit_receipt sha now p rs b) =
     (if b \<or> plan_status p = plan_blocked then rcpt_blocked
      else if list_ex (\<lambda>r. cr_status r = res_failed) rs then rcpt_failed else rcpt_passed)"
  "rcpt_plan_id (make_commit_receipt sha now p rs b) = plan_id p"
  "rcpt_results (make_commit_receipt sha now p rs b) = rs"
  by (simp_all add: make_commit_receipt_def Let_def)

subsection \<open>The in-memory sink\<close>

record memory_sink =
  ms_policy :: write_policy
  ms_storage :: "(string, string) dict"
  ms_intents :: "write_intent list"
  ms_planned :: "write_plan option"

definition memory_new :: "write_policy \<Rightarrow> (string, string) dict \<Rightarrow> memory_sink" where
  "memory_new pol existing =
     \<lparr>ms_policy = pol, ms_storage = existing, ms_intents = [], ms_planned = None\<rparr>"

definition memory_enqueue :: "write_intent \<Rightarrow> memory_sink \<Rightarrow> memory_sink" where
  "memory_enqueue i s = s\<lparr>ms_intents := ms_intents s @ [i], ms_planned := None\<rparr>"

definition allowed_root :: "write_policy \<Rightarrow> string \<Rightarrow> bool" where
  "allowed_root pol dest = list_ex (\<lambda>root. root = ''.'' \<or> dest = root \<or>
     startswith dest (root @ ''/'')) (allowed_output_roots pol)"

abbreviation destination :: "write_intent \<Rightarrow> string" where
  "destination i \<equiv> destination_path (wi_artifact i)"

text \<open>The decision for a destination that exists with other content.\<close>

definition replace_decision ::
  "write_policy \<Rightarrow> write_intent \<Rightarrow> string option \<Rightarrow> write_action \<times> string \<times> string list" where
  "replace_decision pol i existing =
     (let dest = destination i; expected = expected_existing_hash i;
          issue = (\<lambda>m. if wi_required i then [m @ dest] else []) in
      if \<not> allow_overwrite pol then
        (act_skip, ''overwrite prohibited'',
         issue ''required output exists and overwrite is prohibited: '')
      else if require_expected_hash pol \<and> expected = None then
        (act_skip, ''expected existing hash required'', issue ''expected existing hash is required: '')
      else if expected \<noteq> None \<and> expected \<noteq> existing then
        (act_skip, ''existing hash does not match expected hash'',
         issue ''existing hash mismatch: '')
      else (act_replace, ''replacement authorized'', []))"

definition memory_decision ::
  "(string \<Rightarrow> string) \<Rightarrow> write_policy \<Rightarrow> (string, string) dict \<Rightarrow> write_intent \<Rightarrow>
   write_action \<times> string \<times> string list" where
  "memory_decision sha pol storage i =
     (let current = map_option (artifact_hash sha) (dget storage (destination i)) in
      if current = Some (ra_content_hash (wi_artifact i)) then (act_skip, ''content unchanged'', [])
      else if current = None then (act_create, ''destination does not exist'', [])
      else replace_decision pol i current)"

definition destination_issues :: "write_policy \<Rightarrow> string list \<Rightarrow> write_intent \<Rightarrow> string list" where
  "destination_issues pol seen i =
     (if ra_kind (wi_artifact i) \<notin> set (allowed_artifact_kinds pol)
      then [''artifact kind is not allowed: '' @ artifact_kind_value (ra_kind (wi_artifact i))]
      else []) @
     (if \<not> allowed_root pol (destination i)
      then [''destination is outside allowed output roots: '' @ destination i] else []) @
     (if destination i \<in> set seen \<and> reject_collisions pol
      then [''output collision: '' @ destination i] else [])"

definition limit_issues :: "write_policy \<Rightarrow> write_intent list \<Rightarrow> string list" where
  "limit_issues pol is =
     (if maximum_output_count pol < length is then [''maximum_output_count exceeded''] else []) @
     (if maximum_output_bytes pol < sum_list (map (\<lambda>i. length (ra_content (wi_artifact i))) is)
      then [''maximum_output_bytes exceeded''] else [])"

fun memory_plan_loop ::
  "(string \<Rightarrow> string) \<Rightarrow> write_policy \<Rightarrow> (string, string) dict \<Rightarrow> string list \<Rightarrow>
   write_intent list \<Rightarrow> plan_entry list \<times> string list" where
  "memory_plan_loop sha pol storage seen [] = ([], [])"
| "memory_plan_loop sha pol storage seen (i # is) =
     (let (action, reason, issues) = memory_decision sha pol storage i;
          (es, rest) = memory_plan_loop sha pol storage (destination i # seen) is in
      (\<lparr>pe_intent = i, pe_action = action,
        existing_hash = map_option (artifact_hash sha) (dget storage (destination i)),
        pe_reason = reason\<rparr> # es,
       destination_issues pol seen i @ issues @ rest))"

definition memory_plan ::
  "(string \<Rightarrow> string) \<Rightarrow> (string \<Rightarrow> string) \<Rightarrow> memory_sink \<Rightarrow> write_plan \<times> memory_sink" where
  "memory_plan sha bj s =
     (case ms_planned s of
        Some p \<Rightarrow> (p, s)
      | None \<Rightarrow>
          (let (es, issues) = memory_plan_loop sha (ms_policy s) (ms_storage s) [] (ms_intents s);
               p = make_write_plan sha bj es
                 (usort (limit_issues (ms_policy s) (ms_intents s) @ issues)) in
           (p, s\<lparr>ms_planned := Some p\<rparr>)))"

definition result_of :: "plan_entry \<Rightarrow> result_status \<Rightarrow> string \<Rightarrow> commit_result" where
  "result_of e st msg =
     (let a = wi_artifact (pe_intent e) in
      \<lparr>cr_logical_id = logical_id a, cr_destination = destination_path a, cr_status = st,
       cr_content_hash = ra_content_hash a, cr_message = msg\<rparr>)"

definition memory_commit_entry ::
  "write_mode \<Rightarrow> plan_entry \<Rightarrow> (string, string) dict \<Rightarrow> commit_result \<times> (string, string) dict" where
  "memory_commit_entry mode e storage =
     (if mode = dry_run then (result_of e res_skipped (''dry-run: '' @ action_value (pe_action e)), storage)
      else if pe_action e = act_skip then (result_of e res_skipped (pe_reason e), storage)
      else (result_of e res_written (action_value (pe_action e)),
        dput (destination (pe_intent e)) (ra_content (wi_artifact (pe_intent e))) storage))"

fun memory_commit_loop ::
  "write_mode \<Rightarrow> plan_entry list \<Rightarrow> (string, string) dict \<Rightarrow>
   commit_result list \<times> (string, string) dict" where
  "memory_commit_loop mode [] storage = ([], storage)"
| "memory_commit_loop mode (e # es) storage =
     (let (r, storage1) = memory_commit_entry mode e storage;
          (rs, storage2) = memory_commit_loop mode es storage1 in
      (r # rs, storage2))"

definition memory_commit ::
  "(string \<Rightarrow> string) \<Rightarrow> (string \<Rightarrow> string) \<Rightarrow> string \<Rightarrow> memory_sink \<Rightarrow>
   commit_receipt \<times> memory_sink" where
  "memory_commit sha bj now s =
     (let (p, s1) = memory_plan sha bj s in
      if plan_status p = plan_blocked then (make_commit_receipt sha now p [] True, s1)
      else (let (rs, storage) = memory_commit_loop (pol_mode (ms_policy s1)) (plan_entries p)
                  (ms_storage s1) in
        (make_commit_receipt sha now p rs False, s1\<lparr>ms_storage := storage\<rparr>)))"

definition memory_clear :: "memory_sink \<Rightarrow> memory_sink" where
  "memory_clear s = s\<lparr>ms_intents := [], ms_planned := None\<rparr>"

subsection \<open>The composite sink\<close>

text \<open>A composite is parametric in the operations of its children.\<close>

record 's composite_sink =
  cs_sinks :: "'s list"
  cs_plan :: "write_plan option"

definition composite_new :: "'s list \<Rightarrow> 's composite_sink option" where
  "composite_new sinks =
     (if sinks = [] then None else Some \<lparr>cs_sinks = sinks, cs_plan = None\<rparr>)"

definition composite_enqueue ::
  "(write_intent \<Rightarrow> 's \<Rightarrow> 's) \<Rightarrow> write_intent \<Rightarrow> 's composite_sink \<Rightarrow> 's composite_sink" where
  "composite_enqueue enq i c = c\<lparr>cs_sinks := map (enq i) (cs_sinks c), cs_plan := None\<rparr>"

definition sink_label :: "nat \<Rightarrow> string" where
  "sink_label k = ''sink['' @ show_nat k @ '']''"

definition composite_plan ::
  "(string \<Rightarrow> string) \<Rightarrow> (string \<Rightarrow> string) \<Rightarrow> ('s \<Rightarrow> write_plan \<times> 's) \<Rightarrow> 's composite_sink \<Rightarrow>
   write_plan \<times> 's composite_sink" where
  "composite_plan sha bj child_plan c =
     (let planned = map child_plan (cs_sinks c);
          plans = map fst planned;
          issues = concat (map (\<lambda>(k, p). map (\<lambda>m. sink_label k @ '': '' @ m) (plan_issues p))
            (enumerate 0 plans));
          p = make_write_plan sha bj (concat (map plan_entries plans)) issues in
      (p, c\<lparr>cs_sinks := map snd planned, cs_plan := Some p\<rparr>))"

definition composite_commit ::
  "(string \<Rightarrow> string) \<Rightarrow> (string \<Rightarrow> string) \<Rightarrow> string \<Rightarrow> ('s \<Rightarrow> write_plan \<times> 's) \<Rightarrow>
   ('s \<Rightarrow> commit_receipt \<times> 's) \<Rightarrow> 's composite_sink \<Rightarrow> commit_receipt \<times> 's composite_sink" where
  "composite_commit sha bj now child_plan child_commit c =
     (let (p, c1) = composite_plan sha bj child_plan c in
      if plan_status p = plan_blocked then (make_commit_receipt sha now p [] True, c1)
      else (let committed = map child_commit (cs_sinks c1);
                results = concat (map (\<lambda>(k, r).
                  map (\<lambda>x. x\<lparr>cr_logical_id := sink_label k @ ''/'' @ cr_logical_id x\<rparr>) (rcpt_results r))
                  (enumerate 0 (map fst committed))) in
        (make_commit_receipt sha now p results False, c1\<lparr>cs_sinks := map snd committed\<rparr>)))"

definition composite_clear :: "('s \<Rightarrow> 's) \<Rightarrow> 's composite_sink \<Rightarrow> 's composite_sink" where
  "composite_clear clr c = c\<lparr>cs_sinks := map clr (cs_sinks c), cs_plan := None\<rparr>"

subsection \<open>The contract of a sink\<close>

text \<open>
  The interface \<open>OutputSink\<close> with what its clients rely on: planning and queueing have no
  effect, planning again gives the same plan, and a blocked plan commits nothing.
\<close>

locale output_sink =
  fixes enqueue :: "write_intent \<Rightarrow> 's \<Rightarrow> 's"
    and plan :: "'s \<Rightarrow> write_plan \<times> 's"
    and commit :: "'s \<Rightarrow> commit_receipt \<times> 's"
    and clear :: "'s \<Rightarrow> 's"
    and stored :: "'s \<Rightarrow> 'e"
    and consistent :: "'s \<Rightarrow> bool"
  assumes enqueue_stored: "stored (enqueue i s) = stored s"
    and clear_stored: "stored (clear s) = stored s"
    and plan_stored: "stored (snd (plan s)) = stored s"
    and plan_stable: "fst (plan (snd (plan s))) = fst (plan s)"
    and consistent_enqueue: "consistent s \<Longrightarrow> consistent (enqueue i s)"
    and consistent_clear: "consistent s \<Longrightarrow> consistent (clear s)"
    and consistent_plan: "consistent s \<Longrightarrow> consistent (snd (plan s))"
    and consistent_commit: "consistent s \<Longrightarrow> consistent (snd (commit s))"
    and blocked_issues: "consistent s \<Longrightarrow>
          plan_status (fst (plan s)) = plan_blocked \<longleftrightarrow> plan_issues (fst (plan s)) \<noteq> []"
    and commit_blocked: "plan_status (fst (plan s)) = plan_blocked \<Longrightarrow> stored (snd (commit s)) = stored s"
    and commit_status: "rcpt_status (fst (commit s)) = rcpt_blocked \<longleftrightarrow>
          plan_status (fst (plan s)) = plan_blocked"
    and commit_plan_id: "rcpt_plan_id (fst (commit s)) = plan_id (fst (plan s))"
begin

lemma enqueue_all_stored: "stored (fold enqueue is s) = stored s"
  by (induction "is" arbitrary: s) (simp_all add: enqueue_stored)

lemma consistent_enqueue_all: "consistent s \<Longrightarrow> consistent (fold enqueue is s)"
  by (induction "is" arbitrary: s) (simp_all add: consistent_enqueue)

lemma composite_issues_Nil:
  "concat (map (\<lambda>(k, p). map (f k) (plan_issues p)) (enumerate n ps)) = [] \<longleftrightarrow>
     (\<forall>p \<in> set ps. plan_issues p = [])"
  by (induction ps arbitrary: n) auto

lemma composite_plan_status:
  "plan_status (fst (composite_plan sha bj plan c)) = plan_blocked \<longleftrightarrow>
     (\<exists>s \<in> set (cs_sinks c). plan_issues (fst (plan s)) \<noteq> [])"
  using composite_issues_Nil [of "\<lambda>k m. sink_label k @ '': '' @ m" 0 "map (fst \<circ> plan) (cs_sinks c)"]
  by (auto simp: composite_plan_def Let_def comp_def)

lemma composite_plan_sinks: "cs_sinks (snd (composite_plan sha bj plan c)) = map (snd \<circ> plan) (cs_sinks c)"
  by (simp add: composite_plan_def Let_def)

lemma composite_plan_again:
  "fst (composite_plan sha bj plan (snd (composite_plan sha bj plan c))) =
     fst (composite_plan sha bj plan c)"
  by (simp add: composite_plan_def Let_def comp_def plan_stable)

lemma composite_commit_simps:
  "plan_status (fst (composite_plan sha bj plan c)) = plan_blocked \<Longrightarrow>
     composite_commit sha bj now plan commit c =
       (make_commit_receipt sha now (fst (composite_plan sha bj plan c)) [] True,
        snd (composite_plan sha bj plan c))"
  "plan_status (fst (composite_plan sha bj plan c)) \<noteq> plan_blocked \<Longrightarrow>
     cs_sinks (snd (composite_commit sha bj now plan commit c)) =
       map (snd \<circ> commit \<circ> snd \<circ> plan) (cs_sinks c)"
  by (simp_all add: composite_commit_def split_def Let_def composite_plan_sinks comp_def)

lemma composite_commit_receipt:
  "rcpt_status (fst (composite_commit sha bj now plan commit c)) = rcpt_blocked \<longleftrightarrow>
     plan_status (fst (composite_plan sha bj plan c)) = plan_blocked"
  "rcpt_plan_id (fst (composite_commit sha bj now plan commit c)) =
     plan_id (fst (composite_plan sha bj plan c))"
  by (simp_all add: composite_commit_def split_def Let_def)

text \<open>A composite of sinks is a sink: its effects are those of its children.\<close>

lemma composite_laws:
  "output_sink (composite_enqueue enqueue) (composite_plan sha bj plan)
     (composite_commit sha bj now plan commit) (composite_clear clear)
     (\<lambda>c. map stored (cs_sinks c)) (\<lambda>c. list_all consistent (cs_sinks c))"
proof (unfold_locales, goal_cases)
  case (1 i s) show ?case by (simp add: composite_enqueue_def enqueue_stored)
next
  case (2 s) show ?case by (simp add: composite_clear_def clear_stored)
next
  case (3 s) show ?case by (simp add: composite_plan_sinks plan_stored)
next
  case (4 s) show ?case by (rule composite_plan_again)
next
  case (5 s i) then show ?case
    by (simp add: composite_enqueue_def list_all_iff consistent_enqueue)
next
  case (6 s) then show ?case by (simp add: composite_clear_def list_all_iff consistent_clear)
next
  case (7 s) then show ?case by (simp add: composite_plan_sinks list_all_iff consistent_plan)
next
  case (8 s) then show ?case
    by (cases "plan_status (fst (composite_plan sha bj plan s)) = plan_blocked")
      (simp_all add: composite_commit_simps composite_plan_sinks list_all_iff consistent_plan
        consistent_commit)
next
  case (9 s) show ?case by (simp add: composite_plan_def Let_def)
next
  case (10 s) then show ?case by (simp add: composite_commit_simps composite_plan_sinks plan_stored)
next
  case (11 s) show ?case by (rule composite_commit_receipt)
next
  case (12 s) show ?case by (rule composite_commit_receipt)
qed

end

subsection \<open>The sinks meet the contract\<close>

definition memory_consistent :: "memory_sink \<Rightarrow> bool" where
  "memory_consistent s \<longleftrightarrow> (case ms_planned s of None \<Rightarrow> True
     | Some p \<Rightarrow> (plan_status p = plan_blocked) = (plan_issues p \<noteq> []))"

lemma memory_plan_facts:
  "ms_storage (snd (memory_plan sha bj s)) = ms_storage s"
  "ms_policy (snd (memory_plan sha bj s)) = ms_policy s"
  "ms_planned (snd (memory_plan sha bj s)) = Some (fst (memory_plan sha bj s))"
  by (auto simp: memory_plan_def Let_def split: option.split prod.split)

lemma memory_plan_consistent:
  "memory_consistent s \<Longrightarrow> plan_status (fst (memory_plan sha bj s)) = plan_blocked \<longleftrightarrow>
     plan_issues (fst (memory_plan sha bj s)) \<noteq> []"
  by (auto simp: memory_plan_def Let_def memory_consistent_def split: option.split prod.split)

lemma memory_commit_facts:
  "fst (memory_commit sha bj now s) = make_commit_receipt sha now (fst (memory_plan sha bj s))
     (if plan_status (fst (memory_plan sha bj s)) = plan_blocked then []
      else fst (memory_commit_loop (pol_mode (ms_policy s)) (plan_entries (fst (memory_plan sha bj s)))
        (ms_storage s))) (plan_status (fst (memory_plan sha bj s)) = plan_blocked)"
  "ms_storage (snd (memory_commit sha bj now s)) =
     (if plan_status (fst (memory_plan sha bj s)) = plan_blocked then ms_storage s
      else snd (memory_commit_loop (pol_mode (ms_policy s)) (plan_entries (fst (memory_plan sha bj s)))
        (ms_storage s)))"
  "ms_planned (snd (memory_commit sha bj now s)) = Some (fst (memory_plan sha bj s))"
  using memory_plan_facts [of sha bj s]
  by (simp_all add: memory_commit_def split_def Let_def)

interpretation mem: output_sink memory_enqueue "memory_plan sha bj" "memory_commit sha bj now"
  memory_clear ms_storage memory_consistent for sha bj now
proof (unfold_locales, goal_cases)
  case (4 s) show ?case
    using memory_plan_facts(3) [of sha bj s] by (simp add: memory_plan_def)
next
  case (7 s) then show ?case
    using memory_plan_consistent [of s sha bj] by (simp add: memory_consistent_def memory_plan_facts)
next
  case (8 s) then show ?case
    using memory_plan_consistent [of s sha bj] by (simp add: memory_consistent_def memory_commit_facts)
next
  case (9 s) then show ?case by (rule memory_plan_consistent)
qed (simp_all add: memory_enqueue_def memory_clear_def memory_plan_facts memory_commit_facts
    memory_consistent_def)

interpretation fan: output_sink "composite_enqueue memory_enqueue"
  "composite_plan sha bj (memory_plan sha bj)"
  "composite_commit sha bj now (memory_plan sha bj) (memory_commit sha bj now)"
  "composite_clear memory_clear" "\<lambda>c. map ms_storage (cs_sinks c)"
  "\<lambda>c. list_all memory_consistent (cs_sinks c)" for sha bj now
  by (rule mem.composite_laws)

subsection \<open>What a committed plan stores\<close>

definition entry_for ::
  "(string \<Rightarrow> string) \<Rightarrow> write_policy \<Rightarrow> (string, string) dict \<Rightarrow> write_intent \<Rightarrow> plan_entry" where
  "entry_for sha pol storage i =
     \<lparr>pe_intent = i, pe_action = fst (memory_decision sha pol storage i),
      existing_hash = map_option (artifact_hash sha) (dget storage (destination i)),
      pe_reason = fst (snd (memory_decision sha pol storage i))\<rparr>"

lemma memory_plan_loop_entries:
  "fst (memory_plan_loop sha pol storage seen is) = map (entry_for sha pol storage) is"
  by (induction "is" arbitrary: seen) (simp_all add: split_def Let_def entry_for_def)

lemma memory_plan_loop_ready:
  "snd (memory_plan_loop sha pol storage seen is) = [] \<Longrightarrow> reject_collisions pol \<Longrightarrow>
     distinct (map destination is) \<and> set seen \<inter> destination ` set is = {} \<and>
     (\<forall>i \<in> set is. snd (snd (memory_decision sha pol storage i)) = [] \<and>
        allowed_root pol (destination i) \<and>
        ra_kind (wi_artifact i) \<in> set (allowed_artifact_kinds pol))"
proof (induction "is" arbitrary: seen)
  case (Cons i "is")
  from Cons.prems(1) have rest: "snd (memory_plan_loop sha pol storage (destination i # seen) is) = []"
    and here: "destination_issues pol seen i = []" "snd (snd (memory_decision sha pol storage i)) = []"
    by (simp_all add: split_def Let_def)
  from Cons.IH [OF rest Cons.prems(2)] here Cons.prems(2) show ?case
    by (auto simp: destination_issues_def split: if_splits)
qed simp

definition writes :: "plan_entry \<Rightarrow> bool" where
  "writes e \<longleftrightarrow> pe_action e \<noteq> act_skip"

lemma memory_commit_loop_storage:
  "snd (memory_commit_loop write_through es storage) =
     fold (\<lambda>e. dput (destination (pe_intent e)) (ra_content (wi_artifact (pe_intent e))))
       (filter writes es) storage"
  by (induction es arbitrary: storage)
    (simp_all add: memory_commit_entry_def split_def Let_def writes_def)

lemma memory_commit_loop_dry: "snd (memory_commit_loop dry_run es storage) = storage"
  by (induction es) (simp_all add: memory_commit_entry_def split_def Let_def)

lemma memory_fresh:
  "fold memory_enqueue is (memory_new pol existing) =
     \<lparr>ms_policy = pol, ms_storage = existing, ms_intents = is, ms_planned = None\<rparr>"
proof -
  have "fold memory_enqueue is \<lparr>ms_policy = pol, ms_storage = existing, ms_intents = js,
      ms_planned = None\<rparr> = \<lparr>ms_policy = pol, ms_storage = existing, ms_intents = js @ is,
      ms_planned = None\<rparr>" for js
    by (induction "is" arbitrary: js) (simp_all add: memory_enqueue_def)
  then show ?thesis by (simp add: memory_new_def)
qed

lemma memory_fresh_plan:
  assumes "s = fold memory_enqueue is (memory_new pol existing)"
  shows "plan_entries (fst (memory_plan sha bj s)) = map (entry_for sha pol existing) is"
    and "plan_status (fst (memory_plan sha bj s)) \<noteq> plan_blocked \<longleftrightarrow>
      limit_issues pol is = [] \<and> snd (memory_plan_loop sha pol existing [] is) = []"
  unfolding assms memory_fresh
  by (simp_all add: memory_plan_def split_def Let_def memory_plan_loop_entries)

definition artifact_valid :: "(string \<Rightarrow> string) \<Rightarrow> rendered_artifact \<Rightarrow> bool" where
  "artifact_valid sha a \<longleftrightarrow> ra_content_hash a = artifact_hash sha (ra_content a)"

lemma make_artifact_valid: "make_artifact sha a = Inr b \<Longrightarrow> artifact_valid sha b"
  by (auto simp: make_artifact_def artifact_valid_def split: sum.splits if_splits)

definition stored_as :: "(string \<Rightarrow> string) \<Rightarrow> (string, string) dict \<Rightarrow> write_intent \<Rightarrow> bool" where
  "stored_as sha storage i \<longleftrightarrow>
     map_option (artifact_hash sha) (dget storage (destination i)) =
       Some (ra_content_hash (wi_artifact i))"

lemma memory_decision_cases:
  "fst (memory_decision sha pol storage i) = act_skip \<Longrightarrow>
     snd (snd (memory_decision sha pol storage i)) = [] \<Longrightarrow> wi_required i \<Longrightarrow> stored_as sha storage i"
  "fst (memory_decision sha pol storage i) \<noteq> act_skip \<Longrightarrow> \<not> allow_overwrite pol \<Longrightarrow>
     dget storage (destination i) = None"
  by (auto simp: memory_decision_def replace_decision_def Let_def stored_as_def split: if_splits)

lemma committed_storage:
  assumes "distinct (map destination is)"
  shows "dget (fold (\<lambda>e. dput (destination (pe_intent e)) (ra_content (wi_artifact (pe_intent e))))
       (filter writes (map (entry_for sha pol existing) is)) existing) d =
     (case find (\<lambda>i. destination i = d \<and> fst (memory_decision sha pol existing i) \<noteq> act_skip) is of
        Some i \<Rightarrow> Some (ra_content (wi_artifact i)) | None \<Rightarrow> dget existing d)"
  using assms
proof (induction "is" rule: rev_induct)
  case (snoc i "is")
  from snoc.prems have "\<forall>j \<in> set is. destination j \<noteq> destination i"
    by (force simp: image_iff)
  then have "find (\<lambda>j. destination j = destination i \<and>
      fst (memory_decision sha pol existing j) \<noteq> act_skip) is = None"
    by (auto simp: find_None_iff)
  with snoc show ?case
    by (auto simp: update_conv' find_snoc writes_def entry_for_def split: option.split)
qed simp


definition sample_policy :: write_policy where
  "sample_policy =
     \<lparr>pol_mode = write_through, allowed_output_roots = [''out''],
      allowed_artifact_kinds = [kind_human_report], allow_overwrite = False,
      require_expected_hash = True, enforce_containment = True, reject_collisions = True,
      atomic_writes = True, maximum_output_count = 10, maximum_output_bytes = 100\<rparr>"

definition sample_intent :: "string \<Rightarrow> string \<Rightarrow> write_intent" where
  "sample_intent dest text =
     \<lparr>wi_artifact = \<lparr>logical_id = ''a'', destination_path = dest, ra_kind = kind_human_report,
        media_type = ''text/plain'', ra_content = text, ra_content_hash = ''sha256:'' @ text,
        ra_semantic_hash = None, ra_source_refs = []\<rparr>,
      expected_existing_hash = None, wi_required = True\<rparr>"



end
