(* ===== verification/Bundle.thy ===== *)
theory Bundle
  imports TopologyPacket OutputSink
begin

text \<open>
  Packet bundles: rendering of a topology bundle (\<open>packets/bundle.py\<close>), the manifest, and the
  loaders that verify what they read (\<open>packets/loader.py\<close>). A bundle directory is a dictionary
  from relative paths to bytes, without symbolic links; the readers of JSON documents (\<open>json\<close> and
  pydantic) are parameters, \<open>None\<close> when the document is refused.
\<close>

subsection \<open>Manifests\<close>

record file_entry =
  fe_path :: string
  fe_media_type :: string
  fe_content_hash :: string
  fe_size :: nat

record bundle_manifest =
  bm_packet_id :: ident
  bm_packet_type :: string
  bm_packet_version :: string
  bm_semantic_hash :: string
  bm_artifact_hash :: string
  bm_files :: "file_entry list"
  bm_created_at :: string

definition file_entry_view :: "file_entry \<Rightarrow> pyval" where
  "file_entry_view e = PModel
     [(''path'', PStr (fe_path e)), (''media_type'', PStr (fe_media_type e)),
      (''content_hash'', PStr (fe_content_hash e)), (''size_bytes'', PInt (int (fe_size e)))]"

definition entries_hash :: "(string \<Rightarrow> string) \<Rightarrow> file_entry list \<Rightarrow> string" where
  "entries_hash sha es = semantic_hash sha (PSeq (map file_entry_view es))"

definition manifest_model :: "bundle_manifest \<Rightarrow> pyval" where
  "manifest_model m = PModel
     [(''manifest_version'', PStr ''1.0.0''), (''packet_id'', PStr (bm_packet_id m)),
      (''packet_type'', PStr (bm_packet_type m)), (''packet_version'', PStr (bm_packet_version m)),
      (''semantic_hash'', PStr (bm_semantic_hash m)), (''artifact_hash'', PStr (bm_artifact_hash m)),
      (''files'', PSeq (map file_entry_view (bm_files m))), (''created_at'', PStr (bm_created_at m))]"

text \<open>One line of canonical JSON.\<close>

definition document :: "pyval \<Rightarrow> string" where
  "document v = canonical_json v @ [CHR 0x0A]"

subsection \<open>Rendering\<close>

datatype render_error = receipt_not_passed | no_payload_hash string | artifact_refused artifact_error

definition bundle_artifact ::
  "(string \<Rightarrow> string) \<Rightarrow> string \<Rightarrow> string \<Rightarrow> artifact_kind \<Rightarrow> string \<Rightarrow> string option \<Rightarrow> string list \<Rightarrow>
   render_error + rendered_artifact" where
  "bundle_artifact sha lid path k content digest refs = map_sum artifact_refused id (make_artifact sha
     \<lparr>logical_id = lid, destination_path = path, ra_kind = k, media_type = ''application/json'',
      ra_content = content, ra_content_hash = artifact_hash sha content, ra_semantic_hash = digest,
      ra_source_refs = refs\<rparr>)"

definition payload_artifact ::
  "(string \<Rightarrow> string) \<Rightarrow> topology_packet \<Rightarrow> string \<times> string \<Rightarrow> render_error + rendered_artifact" where
  "payload_artifact sha p q = (case q of (k, content) \<Rightarrow>
     (case dget (tp_payload_hashes p) k of
        None \<Rightarrow> Inl (no_payload_hash k)
      | Some h \<Rightarrow> bundle_artifact sha (''topology-payload:'' @ k) (topology_payload_path k)
          kind_topology_packet content (Some h) [tp_id p]))"

definition entry_of :: "rendered_artifact \<Rightarrow> file_entry" where
  "entry_of a = \<lparr>fe_path = destination_path a, fe_media_type = media_type a,
     fe_content_hash = ra_content_hash a, fe_size = length (ra_content a)\<rparr>"

definition manifest_of ::
  "(string \<Rightarrow> string) \<Rightarrow> ident \<Rightarrow> string \<Rightarrow> string \<Rightarrow> string \<Rightarrow> rendered_artifact list \<Rightarrow> string \<Rightarrow>
   bundle_manifest" where
  "manifest_of sha pid ptype version digest arts t =
     (let entries = map entry_of (sort_key destination_path arts) in
      \<lparr>bm_packet_id = pid, bm_packet_type = ptype, bm_packet_version = version,
       bm_semantic_hash = digest, bm_artifact_hash = entries_hash sha entries, bm_files = entries,
       bm_created_at = t\<rparr>)"

definition topology_manifest ::
  "(string \<Rightarrow> string) \<Rightarrow> topology_packet \<Rightarrow> rendered_artifact list \<Rightarrow> string \<Rightarrow> bundle_manifest" where
  "topology_manifest sha p arts t =
     manifest_of sha (tp_id p) topology_packet_type (tp_version p) (tp_semantic_hash p) arts t"

definition packet_artifacts ::
  "(string \<Rightarrow> string) \<Rightarrow> (score \<Rightarrow> pyval) \<Rightarrow> topology_packet \<Rightarrow> topology_state \<Rightarrow> validation_receipt \<Rightarrow>
   render_error + rendered_artifact list" where
  "packet_artifacts sha num p s r = collect
     (map (payload_artifact sha p) (sort_key fst (topology_payload_bytes num s)) @
      [bundle_artifact sha ''topology-packet'' ''packet.json'' kind_topology_packet
         (document (packet_model p)) (Some (tp_semantic_hash p))
         (map pr_packet_id (tp_repository_inputs p)),
       bundle_artifact sha ''topology-validation-receipt'' receipt_path kind_validation_receipt
         (document (receipt_model r)) (Some (vr_semantic_hash r)) [tp_id p]])"

definition build_topology_bundle ::
  "(string \<Rightarrow> string) \<Rightarrow> (score \<Rightarrow> pyval) \<Rightarrow> topology_packet \<Rightarrow> topology_state \<Rightarrow> validation_receipt \<Rightarrow>
   string \<Rightarrow> render_error + rendered_artifact list" where
  "build_topology_bundle sha num p s r t =
     (if vr_status r \<noteq> check_passed then Inl receipt_not_passed
      else bind_sum (packet_artifacts sha num p s r) (\<lambda>arts.
        let m = topology_manifest sha p arts t in
        bind_sum (bundle_artifact sha ''topology-bundle-manifest'' ''manifest.json''
          kind_topology_packet (document (manifest_model m)) (Some (bm_artifact_hash m)) [tp_id p])
          (\<lambda>a. Inr (sort_key destination_path (arts @ [a])))))"

text \<open>The directory the artifacts are written to.\<close>

definition bundle_files :: "rendered_artifact list \<Rightarrow> (string, string) dict" where
  "bundle_files arts = fold (\<lambda>a. dput (destination_path a) (ra_content a)) arts []"

subsection \<open>Reading members\<close>

datatype load_error =
    remote_member string
  | member_escapes string
  | member_missing string
  | document_refused string
  | member_hash_mismatch string
  | member_size_mismatch string
  | manifest_hash_mismatch
  | manifest_id_mismatch
  | manifest_semantic_mismatch
  | semantic_mismatch string string
  | payload_hash_missing string
  | payload_mismatch string
  | payload_refused
  | receipt_not_referenced
  | receipt_invalid receipt_error
  | receipt_status check_status
  | receipt_other_packet
  | receipt_other_hash
  | packet_refused ingest_error
  | corpus_ref_missing string

fun contains :: "string \<Rightarrow> string \<Rightarrow> bool" where
  "contains needle [] \<longleftrightarrow> needle = []"
| "contains needle (c # s) \<longleftrightarrow> startswith (c # s) needle \<or> contains needle s"

text \<open>\<open>Path.resolve()\<close> over the components of the bundle root and of the reference.\<close>

fun resolve_parts :: "string list \<Rightarrow> string list \<Rightarrow> string list" where
  "resolve_parts acc [] = acc"
| "resolve_parts acc (p # ps) =
     resolve_parts (if p = ''..'' then butlast acc else acc @ [p]) ps"

definition is_remote :: "string \<Rightarrow> bool" where
  "is_remote rel \<longleftrightarrow> contains ''://'' rel \<or> startswith rel ''urn:''"

definition resolve_member ::
  "string list \<Rightarrow> (string, string) dict \<Rightarrow> string \<Rightarrow> load_error + string" where
  "resolve_member root files rel =
     (if is_remote rel then Inl (remote_member rel)
      else (let parts = resolve_parts (if startswith rel ''/'' then [] else root) (posix_parts rel) in
        if take (length root) parts \<noteq> root then Inl (member_escapes rel)
        else (case dget files (join ''/'' (drop (length root) parts)) of
            None \<Rightarrow> Inl (member_missing rel) | Some c \<Rightarrow> Inr c)))"

text \<open>\<open>_read_json\<close> and model validation.\<close>

definition read_document :: "(string \<Rightarrow> 'a option) \<Rightarrow> (string, string) dict \<Rightarrow> string \<Rightarrow> load_error + 'a" where
  "read_document parse files path = (case dget files path of
       None \<Rightarrow> Inl (document_refused path)
     | Some c \<Rightarrow> (case parse c of None \<Rightarrow> Inl (document_refused path) | Some v \<Rightarrow> Inr v))"

definition read_member ::
  "(string \<Rightarrow> 'a option) \<Rightarrow> string list \<Rightarrow> (string, string) dict \<Rightarrow> string \<Rightarrow> load_error + 'a" where
  "read_member parse root files path = bind_sum (resolve_member root files path) (\<lambda>c.
     case parse c of None \<Rightarrow> Inl (document_refused path) | Some v \<Rightarrow> Inr v)"

definition guard :: "bool \<Rightarrow> load_error \<Rightarrow> load_error + unit" where
  "guard ok e = (if ok then Inr () else Inl e)"

definition verify_entry ::
  "(string \<Rightarrow> string) \<Rightarrow> string list \<Rightarrow> (string, string) dict \<Rightarrow> file_entry \<Rightarrow> load_error + unit" where
  "verify_entry sha root files e = bind_sum (resolve_member root files (fe_path e)) (\<lambda>c.
     if artifact_hash sha c \<noteq> fe_content_hash e then Inl (member_hash_mismatch (fe_path e))
     else if length c \<noteq> fe_size e then Inl (member_size_mismatch (fe_path e)) else Inr ())"

definition verify_bundle_manifest ::
  "(string \<Rightarrow> string) \<Rightarrow> (string \<Rightarrow> bundle_manifest option) \<Rightarrow> string list \<Rightarrow> (string, string) dict \<Rightarrow>
   load_error + bundle_manifest" where
  "verify_bundle_manifest sha parse root files =
     bind_sum (read_document parse files ''manifest.json'') (\<lambda>m.
     bind_sum (collect (map (verify_entry sha root files) (bm_files m))) (\<lambda>_.
     if bm_artifact_hash m \<noteq> entries_hash sha (bm_files m) then Inl manifest_hash_mismatch else Inr m))"

subsection \<open>Topology bundles\<close>

definition topology_payload_fields :: "string list" where
  "topology_payload_fields =
     [''repository_records'', ''artifact_records'', ''capability_records'', ''semantic_claims'',
      ''edge_records'', ''flow_records'', ''graph_records'', ''risks'', ''maturity'', ''impact_indexes'',
      ''corpus_records'', ''root_records'', ''candidate_relations'', ''candidate_clusters'',
      ''readiness_evidence'', ''topology_reasoning_candidates'', ''evidence'', ''diagnostics'',
      ''unknowns'', ''conflicts'']"

text \<open>The bytes of one payload domain, or none when the packet declares no reference for it.\<close>

definition load_records ::
  "(string \<Rightarrow> string) \<Rightarrow> string list \<Rightarrow> (string, string) dict \<Rightarrow> topology_packet \<Rightarrow> string \<Rightarrow>
   load_error + (string \<times> string option)" where
  "load_records sha root files p k =
     (case dget (tp_payload_refs p) k of
        None \<Rightarrow> Inr (k, None)
      | Some ref \<Rightarrow> bind_sum (resolve_member root files ref) (\<lambda>c.
          case dget (tp_payload_hashes p) k of
            None \<Rightarrow> Inl (payload_hash_missing k)
          | Some h \<Rightarrow> if artifact_hash sha c \<noteq> h then Inl (payload_mismatch k) else Inr (k, Some c)))"

definition check_receipt ::
  "(string \<Rightarrow> string) \<Rightarrow> ident \<Rightarrow> string \<Rightarrow> validation_receipt \<Rightarrow> load_error + unit" where
  "check_receipt sha pid digest r =
     (case validate_receipt sha r of
        Some e \<Rightarrow> Inl (receipt_invalid e)
      | None \<Rightarrow>
          if vr_status r \<noteq> check_passed then Inl (receipt_status (vr_status r))
          else if vr_subject_id r \<noteq> pid then Inl receipt_other_packet
          else if vr_subject_hash r \<noteq> digest then Inl receipt_other_hash else Inr ())"

record bundle_readers =
  rd_manifest :: "string \<Rightarrow> bundle_manifest option"
  rd_topology :: "string \<Rightarrow> topology_packet option"
  rd_state :: "(string \<times> string option) list \<Rightarrow> topology_state option"
  rd_receipt :: "string \<Rightarrow> validation_receipt option"
  rd_repository :: "string \<Rightarrow> repository_packet option"
  rd_payload :: "(string, string) dict \<Rightarrow> repository_payload option"

definition check_manifest_names :: "bundle_manifest \<Rightarrow> ident \<Rightarrow> string \<Rightarrow> load_error + unit" where
  "check_manifest_names m pid digest =
     (if pid \<noteq> bm_packet_id m then Inl manifest_id_mismatch
      else if digest \<noteq> bm_semantic_hash m then Inl manifest_semantic_mismatch else Inr ())"

definition load_topology_bundle ::
  "(string \<Rightarrow> string) \<Rightarrow> bundle_readers \<Rightarrow> string list \<Rightarrow> (string, string) dict \<Rightarrow>
   load_error + (topology_packet \<times> topology_state \<times> validation_receipt)" where
  "load_topology_bundle sha rd root files =
     bind_sum (verify_bundle_manifest sha (rd_manifest rd) root files) (\<lambda>m.
     bind_sum (read_document (rd_topology rd) files ''packet.json'') (\<lambda>p.
     bind_sum (check_manifest_names m (tp_id p) (tp_semantic_hash p)) (\<lambda>_.
     let calculated = calculate_topology_semantic_hash sha p in
     if calculated \<noteq> tp_semantic_hash p then Inl (semantic_mismatch (tp_semantic_hash p) calculated)
     else bind_sum (collect (map (load_records sha root files p) topology_payload_fields)) (\<lambda>parts.
       case rd_state rd parts of
         None \<Rightarrow> Inl payload_refused
       | Some s \<Rightarrow>
           (case pv_receipt_ref (tp_validation p) of
              None \<Rightarrow> Inl receipt_not_referenced
            | Some ref \<Rightarrow> bind_sum (read_member (rd_receipt rd) root files ref) (\<lambda>r.
                bind_sum (check_receipt sha (tp_id p) (tp_semantic_hash p) r) (\<lambda>_. Inr (p, s, r))))))))"

subsection \<open>Repository Model bundles\<close>

definition repository_payload_parts :: "string list" where
  "repository_payload_parts =
     [''repositories'', ''artifacts'', ''capabilities'', ''relationships'', ''evidence'', ''diagnostics'']"

text \<open>
  The payload of a packet whose domains are files of their own: every reference is read, and a
  payload is made of the six domains the loader names.
\<close>

definition materialize_repository_payload ::
  "bundle_readers \<Rightarrow> string list \<Rightarrow> (string, string) dict \<Rightarrow> repository_packet \<Rightarrow>
   load_error + repository_packet" where
  "materialize_repository_payload rd root files p =
     (case rp_payload p of
        Some _ \<Rightarrow> Inr p
      | None \<Rightarrow> bind_sum (collect (map (\<lambda>(k, ref). map_sum id (Pair k) (resolve_member root files ref))
          (rp_payload_refs p))) (\<lambda>parts.
          case rd_payload rd (filter (\<lambda>(k, c). k \<in> set repository_payload_parts) parts) of
            None \<Rightarrow> Inl payload_refused
          | Some l \<Rightarrow> Inr (p\<lparr>rp_payload := Some (l\<lparr>pl_assertions := None\<rparr>)\<rparr>)))"

definition load_repository_bundle ::
  "(string \<Rightarrow> string) \<Rightarrow> (string \<Rightarrow> string) \<Rightarrow> bundle_readers \<Rightarrow> string list \<Rightarrow> (string, string) dict \<Rightarrow>
   load_error + (bundle_manifest \<times> repository_packet \<times> validation_receipt)" where
  "load_repository_bundle sha repr rd root files =
     bind_sum (verify_bundle_manifest sha (rd_manifest rd) root files) (\<lambda>m.
     bind_sum (read_document (rd_repository rd) files ''packet.json'') (\<lambda>raw.
     bind_sum (materialize_repository_payload rd root files raw) (\<lambda>p.
     bind_sum (map_sum packet_refused id (validate_repository_packet sha repr p)) (\<lambda>_.
     bind_sum (check_manifest_names m (rp_id p) (rp_semantic_hash p)) (\<lambda>_.
     let ref = (case pv_receipt_ref (rp_validation p) of
         Some (x # xs) \<Rightarrow> if is_remote (x # xs) then receipt_path else x # xs
       | _ \<Rightarrow> receipt_path) in
     bind_sum (read_member (rd_receipt rd) root files ref) (\<lambda>r.
     bind_sum (check_receipt sha (rp_id p) (rp_semantic_hash p) r) (\<lambda>_. Inr (m, p, r))))))))"

subsection \<open>A rendered bundle loads\<close>

definition plain_path :: "string \<Rightarrow> bool" where
  "plain_path p \<longleftrightarrow> normalize_source_path None p = Inr p \<and> \<not> is_remote p \<and> \<not> startswith p ''/'' \<and>
     ''..'' \<notin> set (posix_parts p) \<and> join ''/'' (posix_parts p) = p"

definition member_paths :: "string list" where
  "member_paths = map topology_payload_path topology_payload_fields @ [''packet.json'', receipt_path]"

lemma plain_members: "list_all plain_path member_paths" "plain_path ''manifest.json''"
  by code_simp+

lemma distinct_members: "distinct (''manifest.json'' # member_paths)"
  by code_simp

lemma resolve_parts_plain: "''..'' \<notin> set ps \<Longrightarrow> resolve_parts acc ps = acc @ ps"
  by (induction ps arbitrary: acc) auto

lemma resolve_plain:
  assumes "plain_path p"
  shows "resolve_member root files p =
    (case dget files p of None \<Rightarrow> Inl (member_missing p) | Some c \<Rightarrow> Inr c)"
  using assms by (simp add: resolve_member_def plain_path_def Let_def resolve_parts_plain)

lemma bundle_artifact_plain:
  assumes "plain_path path"
  shows "bundle_artifact sha lid path k content digest refs = Inr
    \<lparr>logical_id = lid, destination_path = path, ra_kind = k, media_type = ''application/json'',
     ra_content = content, ra_content_hash = artifact_hash sha content, ra_semantic_hash = digest,
     ra_source_refs = refs\<rparr>"
  using assms by (simp add: bundle_artifact_def make_artifact_def plain_path_def)

lemma bundle_file:
  assumes "distinct (map destination_path arts)" and "a \<in> set arts"
  shows "dget (bundle_files arts) (destination_path a) = Some (ra_content a)"
  using dict.lookup_fill_distinct [OF assms, of ra_content "[]"] by (simp add: bundle_files_def)

lemma collect_Inr_map: "collect (map Inr xs) = Inr xs"
  by (induction xs) auto

lemma collect_append: "collect (xs @ ys) = bind_sum (collect xs) (\<lambda>as. bind_sum (collect ys) (\<lambda>bs. Inr (as @ bs)))"
proof (induction xs)
  case Nil
  show ?case by (cases "collect ys") simp_all
next
  case (Cons x xs)
  then show ?case by (cases x; cases "collect xs"; cases "collect ys") simp_all
qed

definition rendered :: "(string \<Rightarrow> string) \<Rightarrow> rendered_artifact \<Rightarrow> bool" where
  "rendered sha a \<longleftrightarrow> plain_path (destination_path a) \<and> ra_content_hash a = artifact_hash sha (ra_content a)"

definition file_of :: "rendered_artifact \<Rightarrow> string \<times> string" where
  "file_of a = (destination_path a, ra_content a)"

lemma payload_bytes_keys: "dkeys (topology_payload_bytes num s) = topology_payload_fields"
  by (simp add: topology_payload_bytes_def topology_payload_def topology_payload_fields_def)

lemma plain_payload: "k \<in> set topology_payload_fields \<Longrightarrow> plain_path (topology_payload_path k)"
  using plain_members(1) by (simp add: member_paths_def list_all_iff)

lemma packet_artifacts_rendered:
  assumes "dkeys (tp_payload_hashes p) = topology_payload_fields"
  obtains arts where "packet_artifacts sha num p s r = Inr arts" and "list_all (rendered sha) arts"
    and "map file_of arts = map (\<lambda>(k, c). (topology_payload_path k, c)) (sort_key fst (topology_payload_bytes num s)) @
      [(''packet.json'', document (packet_model p)), (receipt_path, document (receipt_model r))]"
proof -
  let ?qs = "sort_key fst (topology_payload_bytes num s)"
  let ?mk = "\<lambda>(k, c). \<lparr>logical_id = ''topology-payload:'' @ k, destination_path = topology_payload_path k,
     ra_kind = kind_topology_packet, media_type = ''application/json'', ra_content = c,
     ra_content_hash = artifact_hash sha c, ra_semantic_hash = Some (the (dget (tp_payload_hashes p) k)),
     ra_source_refs = [tp_id p]\<rparr>"
  have k: "k \<in> set topology_payload_fields" if "(k, c) \<in> set ?qs" for k c
    using that payload_bytes_keys [of num s] by (force simp flip: payload_bytes_keys [of num s])
  have "payload_artifact sha p q = Inr (?mk q)" if "q \<in> set ?qs" for q
  proof -
    obtain k c where q: "q = (k, c)" by (cases q)
    with that k have m: "k \<in> set topology_payload_fields" by blast
    with assms obtain h where "dget (tp_payload_hashes p) k = Some h"
      by (metis domIff dom_map_of_conv_image_fst list.set_map option.exhaust)
    then show ?thesis by (simp add: payload_artifact_def q bundle_artifact_plain plain_payload [OF m])
  qed
  then have "map (payload_artifact sha p) ?qs = map Inr (map ?mk ?qs)"
    unfolding map_map by (intro map_cong refl) (simp only: comp_def)
  then have c: "collect (map (payload_artifact sha p) ?qs) = Inr (map ?mk ?qs)"
    by (simp only: collect_Inr_map)
  have f: "plain_path ''packet.json''" "plain_path receipt_path"
    using plain_members(1) by (simp_all add: member_paths_def)
  obtain x y where xy: "bundle_artifact sha ''topology-packet'' ''packet.json'' kind_topology_packet
         (document (packet_model p)) (Some (tp_semantic_hash p))
         (map pr_packet_id (tp_repository_inputs p)) = Inr x"
    "bundle_artifact sha ''topology-validation-receipt'' receipt_path kind_validation_receipt
         (document (receipt_model r)) (Some (vr_semantic_hash r)) [tp_id p] = Inr y"
    "rendered sha x" "rendered sha y" "file_of x = (''packet.json'', document (packet_model p))"
    "file_of y = (receipt_path, document (receipt_model r))"
    using f by (auto simp: bundle_artifact_plain rendered_def file_of_def)
  show ?thesis
  proof (rule that [of "map ?mk ?qs @ [x, y]"])
    show "packet_artifacts sha num p s r = Inr (map ?mk ?qs @ [x, y])"
      unfolding packet_artifacts_def collect_append c by (simp add: xy)
    show "list_all (rendered sha) (map ?mk ?qs @ [x, y])"
      using xy k by (auto simp: list_all_iff rendered_def plain_payload)
    show "map file_of (map ?mk ?qs @ [x, y]) = map (\<lambda>(k, c). (topology_payload_path k, c)) ?qs @
      [(''packet.json'', document (packet_model p)), (receipt_path, document (receipt_model r))]"
      using xy(5,6) by (simp add: file_of_def case_prod_unfold)
  qed
qed

text \<open>A rendered artifact is listed as it is written, so the manifest verifies.\<close>

lemma manifest_verifies:
  assumes arts: "list_all (rendered sha) arts" and d: "distinct (''manifest.json'' # map destination_path arts)"
    and m: "m = manifest_of sha pid ptype version digest arts t"
    and a: "file_of a = (''manifest.json'', document (manifest_model m))"
    and parse: "parse (document (manifest_model m)) = Some m"
    and files: "files = bundle_files (sort_key destination_path (arts @ [a]))"
  shows "verify_bundle_manifest sha parse root files = Inr m"
    and "\<And>b. b \<in> set arts \<Longrightarrow> dget files (destination_path b) = Some (ra_content b)"
proof -
  let ?all = "sort_key destination_path (arts @ [a])"
  have "distinct (map destination_path (arts @ [a]))" using a d by (auto simp: file_of_def)
  then have "distinct (map destination_path ?all)"
    by (metis mset_eq_imp_distinct_iff mset_map mset_sort)
  from bundle_file [OF this] have f: "b \<in> set (arts @ [a]) \<Longrightarrow> dget files (destination_path b) = Some (ra_content b)" for b
    by (simp add: files)
  then show g: "\<And>b. b \<in> set arts \<Longrightarrow> dget files (destination_path b) = Some (ra_content b)" by simp
  have "dget files ''manifest.json'' = Some (document (manifest_model m))"
    using f [of a] a by (simp add: file_of_def)
  moreover have "verify_entry sha root files (entry_of b) = Inr ()" if "b \<in> set arts" for b
    using g [OF that] arts that
    by (simp add: verify_entry_def entry_of_def resolve_plain rendered_def list_all_iff)
  then have "collect (map (verify_entry sha root files) (bm_files m)) = Inr (map (\<lambda>_. ()) (bm_files m))"
    unfolding collect_map m
    by (simp add: manifest_of_def Let_def list_all2_map1 list_all2_map2) (rule list.rel_refl_strong, simp)
  moreover have "bm_artifact_hash m = entries_hash sha (bm_files m)"
    by (simp add: m manifest_of_def Let_def)
  ultimately show "verify_bundle_manifest sha parse root files = Inr m"
    by (simp add: verify_bundle_manifest_def read_document_def parse)
qed

text \<open>What the readers must do: give back the documents that were rendered.\<close>

definition reads_back ::
  "(string \<Rightarrow> string) \<Rightarrow> (score \<Rightarrow> pyval) \<Rightarrow> bundle_readers \<Rightarrow> topology_packet \<Rightarrow> topology_state \<Rightarrow>
   validation_receipt \<Rightarrow> string \<Rightarrow> bool" where
  "reads_back sha num rd p s r t \<longleftrightarrow>
     rd_topology rd (document (packet_model p)) = Some p \<and>
     rd_receipt rd (document (receipt_model r)) = Some r \<and>
     rd_state rd (map (\<lambda>(k, b). (k, Some b)) (topology_payload_bytes num s)) = Some s \<and>
     (case packet_artifacts sha num p s r of
        Inl e \<Rightarrow> True
      | Inr arts \<Rightarrow> let m = topology_manifest sha p arts t in
          rd_manifest rd (document (manifest_model m)) = Some m)"

definition member_files ::
  "(score \<Rightarrow> pyval) \<Rightarrow> topology_packet \<Rightarrow> topology_state \<Rightarrow> validation_receipt \<Rightarrow> (string \<times> string) list" where
  "member_files num p s r =
     map (\<lambda>(k, c). (topology_payload_path k, c)) (sort_key fst (topology_payload_bytes num s)) @
      [(''packet.json'', document (packet_model p)), (receipt_path, document (receipt_model r))]"

text \<open>What a compiled packet, its state and its receipt satisfy.\<close>

definition sealed_as ::
  "(string \<Rightarrow> string) \<Rightarrow> (score \<Rightarrow> pyval) \<Rightarrow> topology_packet \<Rightarrow> topology_state \<Rightarrow> validation_receipt \<Rightarrow> bool" where
  "sealed_as sha num p s r \<longleftrightarrow>
     tp_payload_refs p = topology_payload_refs num s \<and>
     tp_payload_hashes p = topology_payload_hashes sha num s \<and>
     calculate_topology_semantic_hash sha p = tp_semantic_hash p \<and>
     pv_receipt_ref (tp_validation p) = Some receipt_path \<and>
     validate_receipt sha r = None \<and> vr_status r = check_passed \<and> vr_subject_id r = tp_id p \<and>
     vr_subject_hash r = tp_semantic_hash p"

lemma compiled_sealed:
  assumes "compile_topology sha repr str_of num schema cf c bundles corpora t = Inr r"
  shows "sealed_as sha num (co_packet r) (co_state r) (co_receipt r)"
proof -
  obtain s where s: "compile_state sha repr str_of cf (map bundle_packet bundles) corpora = Inr s"
    using assms(1)
    by (cases "compile_state sha repr str_of cf (map bundle_packet bundles) corpora")
      (simp_all add: compile_topology_def)
  define p where "p = identify sha (unsealed_packet sha str_of num c (map bundle_packet bundles) corpora s t)"
  define v where "v = validate_topology sha num schema p s bundles corpora t"
  have v: "vr_status v = check_passed" and r: "r = \<lparr>co_packet = seal sha p, co_state = s, co_receipt = v\<rparr>"
    using assms(1) by (auto simp: compile_topology_def s Let_def p_def v_def split: if_splits)
  have "tp_payload_refs p = topology_payload_refs num s" "tp_payload_hashes p = topology_payload_hashes sha num s"
    "calculate_topology_semantic_hash sha p = tp_semantic_hash p"
    by (simp_all add: p_def) (simp_all add: unsealed_packet_def Let_def)
  with v show ?thesis by (simp add: r sealed_as_def v_def)
qed

lemma members_load:
  assumes sealed: "sealed_as sha num p s r" and rd: "reads_back sha num rd p s r t"
    and verified: "verify_bundle_manifest sha (rd_manifest rd) root files = Inr m"
    and names: "bm_packet_id m = tp_id p" "bm_semantic_hash m = tp_semantic_hash p"
    and member: "\<And>k c. (k, c) \<in> set (member_files num p s r) \<Longrightarrow> dget files k = Some c"
  shows "load_topology_bundle sha rd root files = Inr (p, s, r)"
proof -
  let ?bytes = "topology_payload_bytes num s"
  note sealed' = sealed [unfolded sealed_as_def]
  have rec: "load_records sha root files p q = Inr (q, Some c)" if "(q, c) \<in> set ?bytes" for q c
  proof -
    have q: "q \<in> set topology_payload_fields" using that by (force simp flip: payload_bytes_keys [of num s])
    have "dget files (topology_payload_path q) = Some c"
      by (rule member) (use that in \<open>force simp: member_files_def\<close>)
    moreover have "dget (tp_payload_refs p) q = Some (topology_payload_path q)"
    proof -
      have "dkeys (topology_payload num s) = topology_payload_fields"
        by (simp add: topology_payload_def topology_payload_fields_def)
      with q sealed' show ?thesis
        unfolding topology_payload_refs_def
        by (simp only: map_of_map_restrict comp_def restrict_map_def simp_thms if_True)
    qed
    moreover have "dget (tp_payload_hashes p) q = Some (artifact_hash sha c)"
    proof -
      have "dget ?bytes q = Some c"
        using that payload_bytes_keys [of num s]
        by (intro map_of_is_SomeI) (simp_all add: topology_payload_fields_def)
      with sealed' show ?thesis by (simp add: topology_payload_hashes_def dget_map_value)
    qed
    ultimately show ?thesis by (simp add: load_records_def resolve_plain plain_payload [OF q])
  qed
  have parts: "collect (map (load_records sha root files p) topology_payload_fields) =
      Inr (map (\<lambda>(k, b). (k, Some b)) ?bytes)"
    unfolding collect_map payload_bytes_keys [of num s, symmetric]
    by (simp add: list.rel_map case_prod_unfold rec list.rel_refl_strong)
  have "dget files ''packet.json'' = Some (document (packet_model p))"
    "dget files receipt_path = Some (document (receipt_model r))"
    by (rule member; simp add: member_files_def)+
  moreover have "plain_path receipt_path" using plain_members(1) by (simp add: member_paths_def)
  ultimately show ?thesis
    using rd sealed' by (simp add: load_topology_bundle_def verified read_document_def read_member_def
        resolve_plain check_manifest_names_def names Let_def parts reads_back_def check_receipt_def)
qed

lemma sealed_artifacts:
  assumes "sealed_as sha num p s r"
  obtains arts where "packet_artifacts sha num p s r = Inr arts" and "list_all (rendered sha) arts"
    and "map file_of arts = member_files num p s r"
proof -
  have "dkeys (tp_payload_hashes p) = topology_payload_fields"
    using payload_bytes_keys [of num s] assms
    by (simp add: sealed_as_def topology_payload_hashes_def comp_def case_prod_unfold)
  from packet_artifacts_rendered [OF this, of sha num s r] obtain arts where
    "packet_artifacts sha num p s r = Inr arts" "list_all (rendered sha) arts"
    "map file_of arts = member_files num p s r" unfolding member_files_def .
  then show thesis by (rule that)
qed

lemma bundle_builds:
  assumes sealed: "sealed_as sha num p s r" and rd: "reads_back sha num rd p s r t"
  obtains arts m where "build_topology_bundle sha num p s r t = Inr arts"
    and "verify_bundle_manifest sha (rd_manifest rd) root (bundle_files arts) = Inr m"
    and "bm_packet_id m = tp_id p" and "bm_semantic_hash m = tp_semantic_hash p"
    and "\<And>k c. (k, c) \<in> set (member_files num p s r) \<Longrightarrow> dget (bundle_files arts) k = Some c"
proof -
  from sealed_artifacts [OF sealed] obtain arts where
    arts: "packet_artifacts sha num p s r = Inr arts" "list_all (rendered sha) arts"
    and f: "map file_of arts = member_files num p s r" .
  define m where "m = topology_manifest sha p arts t"
  obtain a where a: "bundle_artifact sha ''topology-bundle-manifest'' ''manifest.json''
          kind_topology_packet (document (manifest_model m)) (Some (bm_artifact_hash m)) [tp_id p] = Inr a"
      "file_of a = (''manifest.json'', document (manifest_model m))"
    using plain_members(2) by (auto simp: bundle_artifact_plain file_of_def)
  have dest: "map destination_path arts = map fst (map file_of arts)" by (simp add: file_of_def comp_def)
  have "mset (map destination_path arts) = mset member_paths"
    unfolding dest f member_files_def member_paths_def payload_bytes_keys [of num s, symmetric]
    by (simp add: comp_def case_prod_unfold)
  then have d: "distinct (''manifest.json'' # map destination_path arts)"
    using distinct_members by (metis distinct.simps(2) mset_eq_imp_distinct_iff set_mset_mset)
  have parse: "rd_manifest rd (document (manifest_model m)) = Some m"
    using rd by (simp add: reads_back_def arts(1) Let_def m_def)
  note verified = manifest_verifies [where parse = "rd_manifest rd",
    OF arts(2) d m_def [unfolded topology_manifest_def] a(2) parse refl]
  show thesis
  proof (rule that [OF _ verified(1)])
    show "build_topology_bundle sha num p s r t = Inr (sort_key destination_path (arts @ [a]))"
      using sealed a(1) by (simp add: build_topology_bundle_def sealed_as_def arts(1) Let_def flip: m_def)
    show "bm_packet_id m = tp_id p" "bm_semantic_hash m = tp_semantic_hash p"
      by (simp_all add: m_def topology_manifest_def manifest_of_def Let_def)
    show "dget (bundle_files (sort_key destination_path (arts @ [a]))) k = Some c"
      if "(k, c) \<in> set (member_files num p s r)" for k c
      using that verified(2) by (auto simp: file_of_def simp flip: f)
  qed
qed

text \<open>
  C4: What a compile emits loads. If the readers of JSON documents give back what was rendered,
  the bundle of every sealed compile can be built, and the loader, which recomputes the hash and
  size of every listed member, the manifest's hash, the semantic hash of the packet, the hash of
  every payload domain and the identity of the receipt, accepts it under any root and returns the
  packet, the state and the receipt of the compile.
\<close>
theorem compiled_bundle_round_trip:
  assumes "compile_topology sha repr str_of num schema cf c bundles corpora t = Inr r"
    and "reads_back sha num rd (co_packet r) (co_state r) (co_receipt r) t"
  shows "\<exists>arts. build_topology_bundle sha num (co_packet r) (co_state r) (co_receipt r) t = Inr arts \<and>
    load_topology_bundle sha rd root (bundle_files arts) = Inr (co_packet r, co_state r, co_receipt r)"
proof -
  note sealed = compiled_sealed [OF assms(1)]
  from bundle_builds [OF sealed assms(2), of root] obtain arts m where
    "build_topology_bundle sha num (co_packet r) (co_state r) (co_receipt r) t = Inr arts"
    and "verify_bundle_manifest sha (rd_manifest rd) root (bundle_files arts) = Inr m"
    and "bm_packet_id m = tp_id (co_packet r)" and "bm_semantic_hash m = tp_semantic_hash (co_packet r)"
    and "\<And>k c. (k, c) \<in> set (member_files num (co_packet r) (co_state r) (co_receipt r)) \<Longrightarrow>
      dget (bundle_files arts) k = Some c" by blast
  with members_load [OF sealed assms(2)] show ?thesis by blast
qed

lemma bare_bundle:
  obtains r rd where "compile_topology id id (\<lambda>_. ''x'') (\<lambda>_. PNone) (\<lambda>_ _. []) sample_config
      sample_configuration [\<lparr>bundle_packet = bare_packet id, bundle_receipt = status_passed\<rparr>] [] ''t'' = Inr r"
    and "reads_back id (\<lambda>_. PNone) rd (co_packet r) (co_state r) (co_receipt r) ''t''"
proof -
  let ?c = "compile_topology id id (\<lambda>_. ''x'') (\<lambda>_. PNone) (\<lambda>_ _. []) sample_config sample_configuration
      [\<lparr>bundle_packet = bare_packet id, bundle_receipt = status_passed\<rparr>] [] ''t''"
  have "\<exists>r. ?c = Inr r" by (rule bare_sealed) (simp add: verdict_passed)
  then obtain r where r: "?c = Inr r" by blast
  let ?only = "\<lambda>x y b. if b = x then Some y else None"
  let ?m = "case packet_artifacts id (\<lambda>_. PNone) (co_packet r) (co_state r) (co_receipt r) of
      Inr arts \<Rightarrow> topology_manifest id (co_packet r) arts ''t''"
  let ?rd = "\<lparr>rd_manifest = ?only (document (manifest_model ?m)) ?m,
     rd_topology = ?only (document (packet_model (co_packet r))) (co_packet r),
     rd_state = (\<lambda>_. Some (co_state r)),
     rd_receipt = ?only (document (receipt_model (co_receipt r))) (co_receipt r),
     rd_repository = (\<lambda>_. None), rd_payload = (\<lambda>_. None)\<rparr>"
  have "reads_back id (\<lambda>_. PNone) ?rd (co_packet r) (co_state r) (co_receipt r) ''t''"
    by (simp add: reads_back_def split: sum.split)
  with r show thesis by (rule that)
qed

theorem compiled_bundle_round_trip_witness:
  "\<exists>r rd arts. compile_topology id id (\<lambda>_. ''x'') (\<lambda>_. PNone) (\<lambda>_ _. []) sample_config sample_configuration
      [\<lparr>bundle_packet = bare_packet id, bundle_receipt = status_passed\<rparr>] [] ''t'' = Inr r \<and>
    build_topology_bundle id (\<lambda>_. PNone) (co_packet r) (co_state r) (co_receipt r) ''t'' = Inr arts \<and>
    load_topology_bundle id rd [''tmp'', ''bundle''] (bundle_files arts) =
      Inr (co_packet r, co_state r, co_receipt r)"
proof -
  obtain r rd where r: "compile_topology id id (\<lambda>_. ''x'') (\<lambda>_. PNone) (\<lambda>_ _. []) sample_config
      sample_configuration [\<lparr>bundle_packet = bare_packet id, bundle_receipt = status_passed\<rparr>] [] ''t'' = Inr r"
    "reads_back id (\<lambda>_. PNone) rd (co_packet r) (co_state r) (co_receipt r) ''t''"
    by (rule bare_bundle)
  from compiled_bundle_round_trip [OF this, of "[''tmp'', ''bundle'']"] r(1) show ?thesis by blast
qed

subsection \<open>What a loaded bundle guarantees, and what it does not\<close>

lemma bind_sum_Inr: "bind_sum x f = Inr b \<longleftrightarrow> (\<exists>a. x = Inr a \<and> f a = Inr b)"
  by simp

lemma loaded_packet:
  assumes "load_topology_bundle sha rd root files = Inr (p, s, r)"
  obtains parts where "calculate_topology_semantic_hash sha p = tp_semantic_hash p"
    and "collect (map (load_records sha root files p) topology_payload_fields) = Inr parts"
    and "rd_state rd parts = Some s" and "check_receipt sha (tp_id p) (tp_semantic_hash p) r = Inr ()"
  using assms unfolding load_topology_bundle_def bind_sum_Inr Let_def
  by (auto split: if_splits option.splits)

lemma load_records_determined:
  assumes "inj sha" and "load_records sha root files p k = Inr q" and "load_records sha root' files' p' k = Inr q'"
    and "dget (tp_payload_refs p) k = dget (tp_payload_refs p') k"
    and "dget (tp_payload_hashes p) k = dget (tp_payload_hashes p') k"
  shows "q = q'"
  using assms by (auto simp: load_records_def artifact_hash_def sha256_bytes_def inj_eq
      split: option.splits if_splits)

text \<open>
  C5: The semantic hash of a packet pins its whole state. Two bundles, wherever they lie and
  whatever else they contain, that load with packets of the same semantic hash give the same
  state, provided the digest does not collide and no policy or payload is named like a volatile
  field: not a byte of a payload can change under the same hash.
\<close>
theorem semantic_hash_determines_state:
  assumes "inj sha"
    and "load_topology_bundle sha rd root files = Inr (p, s, r)" and "semantic_keys_sound p"
    and "load_topology_bundle sha rd root' files' = Inr (p', s', r')" and "semantic_keys_sound p'"
    and "tp_semantic_hash p = tp_semantic_hash p'"
  shows "s = s' \<and> map_of (tp_payload_hashes p) = map_of (tp_payload_hashes p') \<and>
    map_of (tp_policy_hashes p) = map_of (tp_policy_hashes p')"
proof -
  from loaded_packet [OF assms(2)] obtain parts where
    l: "calculate_topology_semantic_hash sha p = tp_semantic_hash p"
    "collect (map (load_records sha root files p) topology_payload_fields) = Inr parts"
    "rd_state rd parts = Some s" by blast
  from loaded_packet [OF assms(4)] obtain parts' where
    l': "calculate_topology_semantic_hash sha p' = tp_semantic_hash p'"
    "collect (map (load_records sha root' files' p') topology_payload_fields) = Inr parts'"
    "rd_state rd parts' = Some s'" by blast
  have e: "map_of (tp_payload_refs p) = map_of (tp_payload_refs p')"
    "map_of (tp_payload_hashes p) = map_of (tp_payload_hashes p')"
    "map_of (tp_policy_hashes p) = map_of (tp_policy_hashes p')"
    using semantic_hash_exact [OF assms(1,3,5)] l(1) l'(1) assms(6) by simp_all
  have "list_all2 (=) parts parts'"
  proof (rule list_all2_all_nthI)
    show "length parts = length parts'"
      using l(2) l'(2) unfolding collect_map by (metis list_all2_lengthD)
    fix n assume "n < length parts"
    with l(2) l'(2) have
      "load_records sha root files p (topology_payload_fields ! n) = Inr (parts ! n)"
      "load_records sha root' files' p' (topology_payload_fields ! n) = Inr (parts' ! n)"
      unfolding collect_map by (simp_all add: list_all2_conv_all_nth)
    from load_records_determined [OF assms(1) this] show "parts ! n = parts' ! n" by (simp add: e)
  qed
  then have "parts = parts'" by (simp add: list.rel_eq)
  with l(3) l'(3) e show ?thesis by simp
qed


text \<open>The manifest a packet would have if it listed no file.\<close>

definition empty_manifest :: "(string \<Rightarrow> string) \<Rightarrow> topology_packet \<Rightarrow> string \<Rightarrow> bundle_manifest" where
  "empty_manifest sha p t = topology_manifest sha p [] t"

lemma empty_manifest_simps:
  "bm_files (empty_manifest sha p t) = []"
  "bm_artifact_hash (empty_manifest sha p t) = entries_hash sha []"
  "bm_packet_id (empty_manifest sha p t) = tp_id p"
  "bm_semantic_hash (empty_manifest sha p t) = tp_semantic_hash p"
  by (simp_all add: empty_manifest_def topology_manifest_def manifest_of_def Let_def)

lemma empty_manifest_verifies:
  assumes "rd_manifest rd (document (manifest_model (empty_manifest sha p t))) = Some (empty_manifest sha p t)"
  shows "verify_bundle_manifest sha (rd_manifest rd) root
      (dput ''manifest.json'' (document (manifest_model (empty_manifest sha p t))) files) =
      Inr (empty_manifest sha p t)"
  using assms
  by (simp add: verify_bundle_manifest_def read_document_def update_conv' bind_sum_def empty_manifest_simps)

lemma compiled_keys_sound:
  assumes "compile_topology sha repr str_of num schema cf c bundles corpora t = Inr r"
  shows "semantic_keys_sound (co_packet r)"
proof -
  have "sound_keys (tp_policy_hashes (co_packet r))"
    using assms by (cases "compile_state sha repr str_of cf (map bundle_packet bundles) corpora")
      (auto simp: compile_topology_def Let_def seal_def identify_def unsealed_packet_def
        policy_hashes_def sound_keys_def default_excluded_def split: if_splits)
  moreover have "sound_keys d" if "dkeys d = topology_payload_fields" for d :: "(string, string) dict"
    by (simp add: sound_keys_def that topology_payload_fields_def default_excluded_def)
  moreover have "dkeys (tp_payload_hashes (co_packet r)) = topology_payload_fields"
      "dkeys (tp_payload_refs (co_packet r)) = topology_payload_fields"
    using compiled_sealed [OF assms] payload_bytes_keys [of num "co_state r"]
    by (simp_all add: sealed_as_def topology_payload_hashes_def topology_payload_refs_def comp_def
        case_prod_unfold) (simp add: topology_payload_bytes_def comp_def case_prod_unfold)
  ultimately show ?thesis by (simp add: semantic_keys_sound_def)
qed

lemma unlisted_loads:
  assumes sealed: "sealed_as sha num p s r" and rd: "reads_back sha num rd p s r t"
    and "build_topology_bundle sha num p s r t = Inr arts"
    and m: "rd_manifest rd (document (manifest_model (empty_manifest sha p t))) = Some (empty_manifest sha p t)"
  shows "load_topology_bundle sha rd root (dput ''manifest.json''
    (document (manifest_model (empty_manifest sha p t))) (bundle_files arts)) = Inr (p, s, r)"
proof (rule members_load [OF sealed rd])
  let ?m = "empty_manifest sha p t"
  let ?files = "dput ''manifest.json'' (document (manifest_model ?m)) (bundle_files arts)"
  show "verify_bundle_manifest sha (rd_manifest rd) root ?files = Inr ?m"
    by (rule empty_manifest_verifies) (rule m)
  show "bm_packet_id ?m = tp_id p" "bm_semantic_hash ?m = tp_semantic_hash p"
    by (simp_all add: empty_manifest_simps)
  fix k c assume k: "(k, c) \<in> set (member_files num p s r)"
  then have "k \<in> set (map fst (member_files num p s r))" by force
  also have "\<dots> = set member_paths"
    unfolding member_files_def member_paths_def payload_bytes_keys [of num s, symmetric]
    by (simp add: case_prod_unfold image_image)
  finally have "k \<noteq> ''manifest.json''" using distinct_members by auto
  moreover have "dget (bundle_files arts) k = Some c"
    using bundle_builds [OF sealed rd] assms(3) k by (metis sum.inject(2))
  ultimately show "dget ?files k = Some c" by (simp add: update_conv')
qed

text \<open>
  C40: A manifest need not list what is loaded. Replace the manifest of a compiled bundle by one
  that lists no file: the loader accepts the bundle and returns the same packet, state and
  receipt, although the manifest and its artifact hash no longer say anything about the packet,
  the receipt or a payload. What protects a bundle is its packet, not its manifest.
\<close>
theorem unlisted_members_load:
  assumes "compile_topology sha repr str_of num schema cf c bundles corpora t = Inr r"
    and "reads_back sha num rd (co_packet r) (co_state r) (co_receipt r) t"
    and "build_topology_bundle sha num (co_packet r) (co_state r) (co_receipt r) t = Inr arts"
    and "rd_manifest rd (document (manifest_model (empty_manifest sha (co_packet r) t))) =
      Some (empty_manifest sha (co_packet r) t)"
  shows "bm_files (empty_manifest sha (co_packet r) t) = [] \<and>
    load_topology_bundle sha rd root (dput ''manifest.json''
      (document (manifest_model (empty_manifest sha (co_packet r) t))) (bundle_files arts)) =
    Inr (co_packet r, co_state r, co_receipt r)"
  using unlisted_loads [OF compiled_sealed [OF assms(1)] assms(2-4)] by (simp add: empty_manifest_simps)

lemma document_files:
  assumes "document (manifest_model m) = document (manifest_model m')"
  shows "length (bm_files m) = length (bm_files m')"
proof -
  have "wf_py (manifest_model m)" for m
    by (simp add: manifest_model_def file_entry_view_def list_all_iff)
  with assms have "canonical_data (manifest_model m) = canonical_data (manifest_model m')"
    by (simp add: document_def canonical_json_def dumps_inj canonical_canonical_data)
  moreover have "set kvs = (\<lambda>(k, v). (k, canonical_data v)) ` {q \<in> set fs. snd q \<noteq> PNone}"
    if "canonical_data (PModel fs) = JObj kvs" for fs kvs by (rule model_data_entries [OF that])
  then have f: "(''files'', JArr js) \<in> set kvs \<longleftrightarrow> js = map (\<lambda>e. canonical_data (file_entry_view e)) (bm_files m)"
    if "canonical_data (manifest_model m) = JObj kvs" for m kvs js
    using that unfolding manifest_model_def by (auto simp: image_iff comp_def)
  obtain kvs where "canonical_data (manifest_model m) = JObj kvs"
    unfolding manifest_model_def canonical_data.simps by blast
  ultimately show ?thesis using f [of m kvs] f [of m' kvs] by (metis length_map)
qed

lemma bare_reader:
  obtains r rd arts where "compile_topology id id (\<lambda>_. ''x'') (\<lambda>_. PNone) (\<lambda>_ _. []) sample_config
      sample_configuration [\<lparr>bundle_packet = bare_packet id, bundle_receipt = status_passed\<rparr>] [] ''t'' = Inr r"
    and "reads_back id (\<lambda>_. PNone) rd (co_packet r) (co_state r) (co_receipt r) ''t''"
    and "build_topology_bundle id (\<lambda>_. PNone) (co_packet r) (co_state r) (co_receipt r) ''t'' = Inr arts"
    and "rd_manifest rd (document (manifest_model (empty_manifest id (co_packet r) ''t''))) =
      Some (empty_manifest id (co_packet r) ''t'')"
proof -
  obtain r rd where r: "compile_topology id id (\<lambda>_. ''x'') (\<lambda>_. PNone) (\<lambda>_ _. []) sample_config
      sample_configuration [\<lparr>bundle_packet = bare_packet id, bundle_receipt = status_passed\<rparr>] [] ''t'' = Inr r"
    and rd: "reads_back id (\<lambda>_. PNone) rd (co_packet r) (co_state r) (co_receipt r) ''t''"
    by (rule bare_bundle)
  note sealed = compiled_sealed [OF r]
  obtain arts where arts: "build_topology_bundle id (\<lambda>_. PNone) (co_packet r) (co_state r) (co_receipt r) ''t'' =
      Inr arts" using bundle_builds [OF sealed rd] by metis
  let ?m = "empty_manifest id (co_packet r) ''t''"
  let ?rd = "rd\<lparr>rd_manifest := (\<lambda>b. if b = document (manifest_model ?m) then Some ?m else rd_manifest rd b)\<rparr>"
  show thesis
  proof (rule that [OF r _ arts])
    show "rd_manifest ?rd (document (manifest_model ?m)) = Some ?m" by simp
    show "reads_back id (\<lambda>_. PNone) ?rd (co_packet r) (co_state r) (co_receipt r) ''t''"
    proof -
      obtain as where as: "packet_artifacts id (\<lambda>_. PNone) (co_packet r) (co_state r) (co_receipt r) = Inr as"
          "map file_of as = member_files (\<lambda>_. PNone) (co_packet r) (co_state r) (co_receipt r)"
        by (rule sealed_artifacts [OF sealed])
      then have "as \<noteq> []" by (auto simp: member_files_def)
      then have "length (bm_files ?m) \<noteq> length (bm_files (topology_manifest id (co_packet r) as ''t''))"
        by (simp add: empty_manifest_def topology_manifest_def manifest_of_def Let_def)
      then have "document (manifest_model (topology_manifest id (co_packet r) as ''t'')) \<noteq>
          document (manifest_model ?m)"
        using document_files by metis
      with rd show ?thesis by (simp add: reads_back_def Let_def as(1))
    qed
  qed
qed


theorem unlisted_members_load_witness:
  "\<exists>r rd files. compile_topology id id (\<lambda>_. ''x'') (\<lambda>_. PNone) (\<lambda>_ _. []) sample_config sample_configuration
      [\<lparr>bundle_packet = bare_packet id, bundle_receipt = status_passed\<rparr>] [] ''t'' = Inr r \<and>
    load_topology_bundle id rd [] files = Inr (co_packet r, co_state r, co_receipt r) \<and>
    (\<exists>m. verify_bundle_manifest id (rd_manifest rd) [] files = Inr m \<and> bm_files m = [])"
proof -
  obtain r rd arts where r: "compile_topology id id (\<lambda>_. ''x'') (\<lambda>_. PNone) (\<lambda>_ _. []) sample_config
      sample_configuration [\<lparr>bundle_packet = bare_packet id, bundle_receipt = status_passed\<rparr>] [] ''t'' = Inr r"
    and rd: "reads_back id (\<lambda>_. PNone) rd (co_packet r) (co_state r) (co_receipt r) ''t''"
      "build_topology_bundle id (\<lambda>_. PNone) (co_packet r) (co_state r) (co_receipt r) ''t'' = Inr arts"
      "rd_manifest rd (document (manifest_model (empty_manifest id (co_packet r) ''t''))) =
        Some (empty_manifest id (co_packet r) ''t'')"
    by (rule bare_reader)
  note l = unlisted_members_load [OF r rd, of "[]"]
  then obtain m where "verify_bundle_manifest id (rd_manifest rd) [] (dput ''manifest.json''
      (document (manifest_model (empty_manifest id (co_packet r) ''t''))) (bundle_files arts)) = Inr m"
    by (auto simp: load_topology_bundle_def)
  moreover from this rd(3) have "m = empty_manifest id (co_packet r) ''t''"
    by (auto simp: verify_bundle_manifest_def read_document_def update_conv' bind_sum_def split: sum.splits if_splits)
  ultimately show ?thesis using r l by blast
qed

theorem semantic_hash_determines_state_witness:
  "\<exists>rd files files' p s r p' s' r'.
    load_topology_bundle id rd [] files = Inr (p, s, r) \<and>
    load_topology_bundle id rd [] files' = Inr (p', s', r') \<and>
    (\<exists>m. verify_bundle_manifest id (rd_manifest rd) [] files' = Inr m \<and> bm_files m = []) \<and> s = s'"
proof -
  obtain r rd arts where r: "compile_topology id id (\<lambda>_. ''x'') (\<lambda>_. PNone) (\<lambda>_ _. []) sample_config
      sample_configuration [\<lparr>bundle_packet = bare_packet id, bundle_receipt = status_passed\<rparr>] [] ''t'' = Inr r"
    and rd: "reads_back id (\<lambda>_. PNone) rd (co_packet r) (co_state r) (co_receipt r) ''t''"
      "build_topology_bundle id (\<lambda>_. PNone) (co_packet r) (co_state r) (co_receipt r) ''t'' = Inr arts"
      "rd_manifest rd (document (manifest_model (empty_manifest id (co_packet r) ''t''))) =
        Some (empty_manifest id (co_packet r) ''t'')"
    by (rule bare_reader)
  note sealed = compiled_sealed [OF r]
  have k: "semantic_keys_sound (co_packet r)" by (rule compiled_keys_sound [OF r])
  let ?m = "empty_manifest id (co_packet r) ''t''"
  let ?files = "dput ''manifest.json'' (document (manifest_model ?m)) (bundle_files arts)"
  have l: "load_topology_bundle id rd [] (bundle_files arts) = Inr (co_packet r, co_state r, co_receipt r)"
    using bundle_builds [OF sealed rd(1), of "[]"] members_load [OF sealed rd(1)] rd(2) by (metis sum.inject(2))
  have u: "load_topology_bundle id rd [] ?files = Inr (co_packet r, co_state r, co_receipt r)"
    by (rule unlisted_loads [OF sealed rd])
  have v: "verify_bundle_manifest id (rd_manifest rd) [] ?files = Inr ?m" "bm_files ?m = []"
    by (rule empty_manifest_verifies [OF rd(3)], rule empty_manifest_simps)
  from semantic_hash_determines_state [OF _ l k u k] l u v show ?thesis by blast
qed

end
