(* ===== verification/ExecutionAuthority.thy ===== *)
theory ExecutionAuthority
  imports Packets
begin

text \<open>
  The execution lease of \<open>worker/execution_authority.py\<close> and the packet registry of
  \<open>worker/registry.py\<close>. A table is a dictionary from its primary key to the other columns; one
  call is one immediate transaction, so it is a function of the table. Its argument \<open>db\<close> is the
  message of an SQLite error in that transaction, if there is one; the transaction is then
  rolled back. The tokens of \<open>secrets\<close> are arguments. A registry entry is kept as the record its
  JSON encodes.
\<close>

record worker_error =
  we_code :: string
  we_message :: string
  we_retryable :: bool
  we_blocked :: bool

definition blocked_error :: "string \<Rightarrow> string \<Rightarrow> worker_error" where
  "blocked_error code msg =
     \<lparr>we_code = code, we_message = msg, we_retryable = False, we_blocked = True\<rparr>"

definition retryable_error :: "string \<Rightarrow> string \<Rightarrow> worker_error" where
  "retryable_error code msg =
     \<lparr>we_code = code, we_message = msg, we_retryable = True, we_blocked = False\<rparr>"

subsection \<open>Leases and permits\<close>

datatype lease_state = lease_claimed | lease_published | lease_acknowledged | lease_failed

fun lease_state_value :: "lease_state \<Rightarrow> string" where
  "lease_state_value lease_claimed = ''CLAIMED''"
| "lease_state_value lease_published = ''PUBLISHED''"
| "lease_state_value lease_acknowledged = ''ACKNOWLEDGED''"
| "lease_state_value lease_failed = ''FAILED''"

record permit =
  p_key :: string
  p_nonce :: string
  p_stage :: string
  p_packet :: ident
  p_lease :: string
  p_fence :: string

text \<open>A row of \<open>execution_lease\<close>, without its primary key.\<close>

record lease_row =
  l_nonce :: string
  l_stage :: string
  l_packet :: ident
  l_lease :: string
  l_fence :: string
  l_state :: lease_state
  l_result :: "string option"

type_synonym lease_table = "(string, lease_row) dict"

definition nonce_holder :: "lease_table \<Rightarrow> string \<Rightarrow> string option" where
  "nonce_holder t nonce = map_option fst (find (\<lambda>(k, r). l_nonce r = nonce) t)"

definition claim_row :: "permit \<Rightarrow> lease_row" where
  "claim_row p = \<lparr>l_nonce = p_nonce p, l_stage = p_stage p, l_packet = p_packet p,
     l_lease = p_lease p, l_fence = p_fence p, l_state = lease_claimed, l_result = None\<rparr>"

definition replayed_error :: worker_error where
  "replayed_error = blocked_error ''dispatch-nonce-replayed''
     ''dispatch nonce has already been used for a different stage claim''"

definition new_permit ::
  "string \<Rightarrow> ident \<Rightarrow> string \<Rightarrow> string \<Rightarrow> string \<times> string \<Rightarrow> permit" where
  "new_permit key packet nonce stg tokens =
     \<lparr>p_key = key, p_nonce = nonce, p_stage = stg, p_packet = packet,
      p_lease = fst tokens, p_fence = snd tokens\<rparr>"

definition resume_existing ::
  "string \<Rightarrow> ident \<Rightarrow> string \<Rightarrow> string \<Rightarrow> string \<times> string \<Rightarrow> lease_row \<Rightarrow> lease_table \<Rightarrow>
   (worker_error + permit option) \<times> lease_table" where
  "resume_existing key packet nonce stg tokens row t =
     (case l_state row of
        lease_published \<Rightarrow> (Inr None, t)
      | lease_acknowledged \<Rightarrow> (Inr None, t)
      | lease_claimed \<Rightarrow> (Inl (retryable_error ''execution-lease-contended''
          ''another worker holds an active lease for this idempotency key''), t)
      | lease_failed \<Rightarrow>
          if l_nonce row \<noteq> nonce \<and> (case nonce_holder t nonce of Some k \<Rightarrow> k \<noteq> key | None \<Rightarrow> False)
          then (Inl replayed_error, t)
          else (let p = new_permit key packet nonce stg tokens in
            (Inr (Some p), dput key (claim_row p) t)))"

definition acquire ::
  "string option \<Rightarrow> string \<Rightarrow> ident \<Rightarrow> string \<Rightarrow> string \<Rightarrow> string \<times> string \<Rightarrow> lease_table \<Rightarrow>
   (worker_error + permit option) \<times> lease_table" where
  "acquire db key packet nonce stg tokens t =
     (case db of
        Some msg \<Rightarrow> (Inl (retryable_error ''execution-authority-write-failed'' msg), t)
      | None \<Rightarrow>
          (case dget t key of
             Some row \<Rightarrow> resume_existing key packet nonce stg tokens row t
           | None \<Rightarrow>
               if nonce_holder t nonce \<noteq> None then (Inl replayed_error, t)
               else (let p = new_permit key packet nonce stg tokens in
                 (Inr (Some p), dput key (claim_row p) t))))"

definition load_active :: "permit \<Rightarrow> lease_table \<Rightarrow> worker_error + lease_row" where
  "load_active p t =
     (case dget t (p_key p) of
        Some row \<Rightarrow>
          if l_lease row \<noteq> p_lease p \<or> l_fence row \<noteq> p_fence p
          then Inl (blocked_error ''execution-lease-lost''
            ''execution lease is no longer held by this worker'')
          else Inr row
      | None \<Rightarrow> Inl (blocked_error ''execution-lease-lost''
          ''execution lease is no longer held by this worker''))"

definition assert_active :: "string option \<Rightarrow> permit \<Rightarrow> lease_table \<Rightarrow> worker_error option" where
  "assert_active db p t =
     (case db of
        Some msg \<Rightarrow> Some (retryable_error ''execution-authority-read-failed'' msg)
      | None \<Rightarrow>
          (case load_active p t of
             Inl e \<Rightarrow> Some e
           | Inr row \<Rightarrow>
               if l_state row \<noteq> lease_claimed
               then Some (blocked_error ''execution-lease-lost''
                 (''execution lease is not active: state='' @ lease_state_value (l_state row)))
               else None))"

definition lease_transition ::
  "string option \<Rightarrow> permit \<Rightarrow> lease_state \<Rightarrow> lease_state \<Rightarrow> string option \<Rightarrow> lease_table \<Rightarrow>
   worker_error option \<times> lease_table" where
  "lease_transition db p expected target res t =
     (case db of
        Some msg \<Rightarrow> (Some (retryable_error ''execution-authority-write-failed'' msg), t)
      | None \<Rightarrow>
          (case load_active p t of
             Inl e \<Rightarrow> (Some e, t)
           | Inr row \<Rightarrow>
               if l_state row \<noteq> expected
               then (Some (blocked_error ''execution-lease-invalid-transition''
                 (''cannot move lease from '' @ lease_state_value (l_state row) @ '' to '' @
                  lease_state_value target)), t)
               else (None, dput (p_key p)
                 (case res of None \<Rightarrow> row\<lparr>l_state := target\<rparr>
                  | Some j \<Rightarrow> row\<lparr>l_state := target, l_result := Some j\<rparr>) t)))"

definition finalize ::
  "string option \<Rightarrow> permit \<Rightarrow> packet_ref \<Rightarrow> lease_table \<Rightarrow> worker_error option \<times> lease_table" where
  "finalize db p r t = lease_transition db p lease_claimed lease_published
     (Some (canonical_json (packet_ref_view r))) t"

definition release ::
  "string option \<Rightarrow> permit \<Rightarrow> lease_table \<Rightarrow> worker_error option \<times> lease_table" where
  "release db p t = lease_transition db p lease_published lease_acknowledged None t"

definition fail_lease ::
  "string option \<Rightarrow> permit \<Rightarrow> string \<Rightarrow> lease_table \<Rightarrow> worker_error option \<times> lease_table" where
  "fail_lease db p reason t =
     (case db of
        Some msg \<Rightarrow> (Some (retryable_error ''execution-authority-write-failed''
          (if reason \<noteq> [] then reason @ '': '' @ msg else msg)), t)
      | None \<Rightarrow>
          (case dget t (p_key p) of
             Some row \<Rightarrow>
               if l_lease row \<noteq> p_lease p \<or> l_fence row \<noteq> p_fence p \<or> l_state row \<noteq> lease_claimed
               then (None, t)
               else (None, dput (p_key p) (row\<lparr>l_state := lease_failed\<rparr>) t)
           | None \<Rightarrow> (None, t)))"

subsection \<open>The packet registry\<close>

datatype registry_status = reg_published | reg_acknowledged

record registry_entry =
  re_key :: string
  re_packet_ref :: packet_ref
  re_validation_uri :: string
  re_commit_uri :: string
  re_status :: registry_status
  re_metadata :: "(string, string) dict"

text \<open>A row of \<open>packet_registry\<close>: its packet identity and its entry.\<close>

type_synonym registry_table = "(string, ident \<times> registry_entry) dict"

definition registry_get ::
  "string option \<Rightarrow> string \<Rightarrow> registry_table \<Rightarrow> worker_error + registry_entry option" where
  "registry_get db key t =
     (case db of
        Some msg \<Rightarrow> Inl (retryable_error ''packet-registry-read-failed'' msg)
      | None \<Rightarrow> Inr (map_option snd (dget t key)))"

definition registry_register ::
  "string option \<Rightarrow> registry_entry \<Rightarrow> registry_table \<Rightarrow> worker_error option \<times> registry_table" where
  "registry_register db e t =
     (case db of
        Some msg \<Rightarrow> (Some (retryable_error ''packet-registry-write-failed'' msg), t)
      | None \<Rightarrow>
          if (case dget t (re_key e) of
                Some row \<Rightarrow> fst row \<noteq> pr_packet_id (re_packet_ref e) | None \<Rightarrow> False)
          then (Some (blocked_error ''idempotency-collision''
            ''idempotency key already maps to a different packet''), t)
          else (None, dput (re_key e) (pr_packet_id (re_packet_ref e), e) t))"

definition registry_acknowledge ::
  "string option \<Rightarrow> string \<Rightarrow> registry_table \<Rightarrow>
   (worker_error + registry_entry) \<times> registry_table" where
  "registry_acknowledge db key t =
     (case db of
        Some msg \<Rightarrow> (Inl (retryable_error ''packet-registry-write-failed'' msg), t)
      | None \<Rightarrow>
          (case dget t key of
             None \<Rightarrow> (Inl (blocked_error ''packet-registry-entry-missing''
               (''cannot acknowledge unknown idempotency key: '' @ key)), t)
           | Some (pid, e) \<Rightarrow>
               (let e' = e\<lparr>re_status := reg_acknowledged\<rparr> in
                 (Inr e', dput key (pid, e') t))))"

subsection \<open>What the operations do to a lease\<close>

text \<open>A permit is live when the row of its key carries its tokens and is claimed.\<close>

definition live :: "lease_table \<Rightarrow> permit \<Rightarrow> bool" where
  "live t p \<longleftrightarrow> (case dget t (p_key p) of
     Some row \<Rightarrow> l_lease row = p_lease p \<and> l_fence row = p_fence p \<and> l_state row = lease_claimed
   | None \<Rightarrow> False)"

definition completed :: "lease_table \<Rightarrow> string \<Rightarrow> bool" where
  "completed t key \<longleftrightarrow> (case dget t key of
     Some row \<Rightarrow> l_state row = lease_published \<or> l_state row = lease_acknowledged | None \<Rightarrow> False)"

lemma assert_active_None: "assert_active db p t = None \<longleftrightarrow> db = None \<and> live t p"
  by (auto simp: assert_active_def load_active_def live_def split: option.splits if_splits sum.splits)

lemma acquire_permit:
  assumes "acquire db key packet nonce stg tokens t = (Inr (Some p), t')"
  shows "p = new_permit key packet nonce stg tokens" and "t' = dput key (claim_row p) t"
    and "\<not> completed t key"
    and "dget t key = None \<or> (\<exists>row. dget t key = Some row \<and> l_state row = lease_failed)"
  using assms
  by (auto simp: acquire_def resume_existing_def completed_def Let_def
      split: option.splits if_splits lease_state.splits)

lemma acquire_no_permit:
  "acquire db key packet nonce stg tokens t = (r, t') \<Longrightarrow> (\<forall>p. r \<noteq> Inr (Some p)) \<Longrightarrow> t' = t"
  by (auto simp: acquire_def resume_existing_def Let_def split: option.splits if_splits lease_state.splits)

lemma acquire_reuse:
  "acquire db key packet nonce stg tokens t = (Inr None, t') \<Longrightarrow> completed t key"
  by (auto simp: acquire_def resume_existing_def completed_def Let_def
      split: option.splits if_splits lease_state.splits)

text \<open>The column constraints: one row per key, and no two rows with one nonce.\<close>

definition lease_constraints :: "lease_table \<Rightarrow> bool" where
  "lease_constraints t \<longleftrightarrow> distinct (dkeys t) \<and>
     (\<forall>k k' r r'. dget t k = Some r \<longrightarrow> dget t k' = Some r' \<longrightarrow> l_nonce r = l_nonce r' \<longrightarrow> k = k')"

lemma nonce_holder_None: "nonce_holder t n = None \<Longrightarrow> dget t k = Some r \<Longrightarrow> l_nonce r \<noteq> n"
  by (force simp: nonce_holder_def find_None_iff dest: map_of_SomeD)

lemma nonce_holder_Some:
  assumes "nonce_holder t n = Some k" and "distinct (dkeys t)"
  shows "\<exists>r. dget t k = Some r \<and> l_nonce r = n"
proof -
  obtain r where "find (\<lambda>(k, r). l_nonce r = n) t = Some (k, r)"
    using assms(1) by (auto simp: nonce_holder_def)
  from find_SomeD [OF this] assms(2) show ?thesis by auto
qed

lemma lease_constraints_claim:
  assumes "lease_constraints t" and "\<And>k r. dget t k = Some r \<Longrightarrow> l_nonce r = l_nonce row \<Longrightarrow> k = key"
  shows "lease_constraints (dput key row t)"
  unfolding lease_constraints_def
proof (intro conjI allI impI)
  show "distinct (dkeys (dput key row t))"
    using assms(1) by (simp add: lease_constraints_def distinct_update)
  fix k k' r r'
  assume "dget (dput key row t) k = Some r" "dget (dput key row t) k' = Some r'" "l_nonce r = l_nonce r'"
  then show "k = k'"
    using assms(1) assms(2) [of k r] assms(2) [of k' r']
    by (auto simp: update_conv' lease_constraints_def split: if_splits)
qed

lemma acquire_constraints:
  assumes ok: "lease_constraints t" and a: "acquire db key packet nonce stg tokens t = (r, t')"
  shows "lease_constraints t'"
proof (cases "\<exists>p. r = Inr (Some p)")
  case False
  then show ?thesis using ok acquire_no_permit [OF a] by blast
next
  case True
  then obtain p where p: "acquire db key packet nonce stg tokens t = (Inr (Some p), t')"
    using a by blast
  have n: "l_nonce (claim_row p) = nonce"
    using acquire_permit(1) [OF p] by (simp add: claim_row_def new_permit_def)
  have "k = key" if k: "dget t k = Some row" "l_nonce row = nonce" for k row
  proof (rule ccontr)
    assume ne: "k \<noteq> key"
    have h: "nonce_holder t nonce \<noteq> None" using nonce_holder_None k by blast
    then obtain k0 where k0: "nonce_holder t nonce = Some k0" by blast
    then have "k0 = k"
      using nonce_holder_Some [OF k0] ok k unfolding lease_constraints_def by metis
    with k0 ne h p show False
      using ok k unfolding lease_constraints_def
      by (auto simp: acquire_def resume_existing_def Let_def split: option.splits if_splits
          lease_state.splits)
  qed
  then show ?thesis
    unfolding acquire_permit(2) [OF p] by (intro lease_constraints_claim [OF ok]) (simp add: n)
qed

lemma lease_transition_cases:
  assumes "lease_transition db p ex tg res t = (r, t')"
  shows "(r \<noteq> None \<and> t' = t) \<or> (r = None \<and> (\<exists>row. dget t (p_key p) = Some row \<and>
      l_lease row = p_lease p \<and> l_fence row = p_fence p \<and> l_state row = ex \<and>
      t' = dput (p_key p) (row\<lparr>l_state := tg,
        l_result := (case res of None \<Rightarrow> l_result row | Some j \<Rightarrow> Some j)\<rparr>) t))"
  using assms
  by (auto simp: lease_transition_def load_active_def split: option.splits if_splits sum.splits)

lemma fail_lease_cases:
  assumes "fail_lease db p reason t = (r, t')"
  shows "t' = t \<or> (\<exists>row. dget t (p_key p) = Some row \<and> l_lease row = p_lease p \<and>
      l_state row = lease_claimed \<and> t' = dput (p_key p) (row\<lparr>l_state := lease_failed\<rparr>) t)"
  using assms by (auto simp: fail_lease_def split: option.splits if_splits)

lemma lease_constraints_update:
  assumes "lease_constraints t" and "dget t key = Some row" and "l_nonce row' = l_nonce row"
  shows "lease_constraints (dput key row' t)"
  using assms by (intro lease_constraints_claim) (auto simp: lease_constraints_def)



end
