(* ===== verification/StageRunner.thy ===== *)
theory StageRunner
  imports ExecutionAuthority
begin

text \<open>
  The stage worker, \<open>worker/stage_runner.py\<close>: the protocol by which concurrent workers claim a
  stage, perform its protected effects and record its result. A worker is a program counter at
  one call of the code; \<open>worker_step\<close> performs that call. What the calls to packet loading, the
  compiler, the packet store and the callback return is chosen by the environment, as is every
  SQLite error; a worker that crashes is one that takes no further step.
\<close>

subsection \<open>Workers\<close>

record dispatch =
  d_key :: string
  d_packet :: ident
  d_nonce :: string
  d_stage :: string
  d_callback :: bool

datatype worker_pc =
    at_start
  | at_acquire
  | at_reread
  | at_reuse registry_entry
  | at_reuse_callback
  | at_reuse_ack
  | at_enter permit
  | at_compile permit
  | at_commit permit
  | at_committing permit
  | at_publish permit
  | at_publishing permit
  | at_verify permit packet_ref
  | at_finalize permit packet_ref
  | at_register permit packet_ref
  | at_callback permit
  | at_ack permit
  | at_release permit
  | at_fail permit
  | at_done
  | at_error

datatype stage_effect = eff_commit | eff_publish

record shared =
  sh_leases :: lease_table
  sh_registry :: registry_table
  sh_effects :: "(stage_effect \<times> permit) list"

text \<open>What the environment decides in one step.\<close>

record choice =
  ch_db :: "string option"
  ch_tokens :: "string \<times> string"
  ch_ok :: bool
  ch_ref :: packet_ref
  ch_uris :: "string \<times> string"
  ch_metadata :: "(string, string) dict"

definition reuse_step ::
  "dispatch \<Rightarrow> choice \<Rightarrow> worker_pc \<Rightarrow> shared \<Rightarrow> worker_pc \<times> shared" where
  "reuse_step d c pc s =
     (case pc of
        at_reuse e \<Rightarrow>
          if dget (re_metadata e) ''bundle_manifest_digest'' \<in> {None, Some []} \<or> \<not> ch_ok c
          then (at_error, s)
          else if d_callback d then (at_reuse_callback, s) else (at_done, s)
      | at_reuse_callback \<Rightarrow> (if ch_ok c then at_reuse_ack else at_error, s)
      | at_reuse_ack \<Rightarrow>
          (case registry_acknowledge (ch_db c) (d_key d) (sh_registry s) of
             (Inl e, t) \<Rightarrow> (at_error, s)
           | (Inr e, t) \<Rightarrow> (at_done, s\<lparr>sh_registry := t\<rparr>))
      | _ \<Rightarrow> (pc, s))"

definition assert_then ::
  "choice \<Rightarrow> permit \<Rightarrow> worker_pc \<Rightarrow> shared \<Rightarrow> worker_pc \<times> shared" where
  "assert_then c p pc s =
     (case assert_active (ch_db c) p (sh_leases s) of
        None \<Rightarrow> (pc, s) | Some e \<Rightarrow> (at_fail p, s))"

definition stage_entry :: "dispatch \<Rightarrow> choice \<Rightarrow> packet_ref \<Rightarrow> registry_entry" where
  "stage_entry d c ref =
     \<lparr>re_key = d_key d, re_packet_ref = ref, re_validation_uri = fst (ch_uris c),
      re_commit_uri = snd (ch_uris c), re_status = reg_published, re_metadata = ch_metadata c\<rparr>"

definition execute_step ::
  "dispatch \<Rightarrow> choice \<Rightarrow> worker_pc \<Rightarrow> shared \<Rightarrow> worker_pc \<times> shared" where
  "execute_step d c pc s =
     (case pc of
        at_enter p \<Rightarrow> assert_then c p (at_compile p) s
      | at_compile p \<Rightarrow> (if ch_ok c then at_commit p else at_fail p, s)
      | at_commit p \<Rightarrow> assert_then c p (at_committing p) s
      | at_committing p \<Rightarrow>
          (if ch_ok c then at_publish p else at_fail p,
           s\<lparr>sh_effects := sh_effects s @ [(eff_commit, p)]\<rparr>)
      | at_publish p \<Rightarrow> assert_then c p (at_publishing p) s
      | at_publishing p \<Rightarrow>
          (if ch_ok c then at_verify p (ch_ref c) else at_fail p,
           s\<lparr>sh_effects := sh_effects s @ [(eff_publish, p)]\<rparr>)
      | at_verify p ref \<Rightarrow> (if ch_ok c then at_finalize p ref else at_fail p, s)
      | at_finalize p ref \<Rightarrow>
          (case finalize (ch_db c) p ref (sh_leases s) of
             (None, t) \<Rightarrow> (at_register p ref, s\<lparr>sh_leases := t\<rparr>)
           | (Some e, t) \<Rightarrow> (at_fail p, s))
      | at_register p ref \<Rightarrow>
          (case registry_register (ch_db c) (stage_entry d c ref) (sh_registry s) of
             (None, t) \<Rightarrow> (if d_callback d then at_callback p else at_release p,
               s\<lparr>sh_registry := t\<rparr>)
           | (Some e, t) \<Rightarrow> (at_fail p, s))
      | at_callback p \<Rightarrow> (if ch_ok c then at_ack p else at_fail p, s)
      | at_ack p \<Rightarrow>
          (case registry_acknowledge (ch_db c) (d_key d) (sh_registry s) of
             (Inl e, t) \<Rightarrow> (at_fail p, s)
           | (Inr e, t) \<Rightarrow> (at_release p, s\<lparr>sh_registry := t\<rparr>))
      | at_release p \<Rightarrow>
          (case release (ch_db c) p (sh_leases s) of
             (None, t) \<Rightarrow> (at_done, s\<lparr>sh_leases := t\<rparr>)
           | (Some e, t) \<Rightarrow> (at_fail p, s))
      | _ \<Rightarrow> (pc, s))"

definition lookup_step :: "dispatch \<Rightarrow> choice \<Rightarrow> worker_pc \<Rightarrow> shared \<Rightarrow> worker_pc" where
  "lookup_step d c missing s =
     (case registry_get (ch_db c) (d_key d) (sh_registry s) of
        Inl e \<Rightarrow> at_error
      | Inr None \<Rightarrow> missing
      | Inr (Some e) \<Rightarrow> at_reuse e)"

definition worker_step ::
  "dispatch \<Rightarrow> choice \<Rightarrow> worker_pc \<Rightarrow> shared \<Rightarrow> worker_pc \<times> shared" where
  "worker_step d c pc s =
     (case pc of
        at_start \<Rightarrow> (lookup_step d c at_acquire s, s)
      | at_acquire \<Rightarrow>
          (case acquire (ch_db c) (d_key d) (d_packet d) (d_nonce d) (d_stage d) (ch_tokens c)
             (sh_leases s) of
             (Inl e, t) \<Rightarrow> (at_error, s)
           | (Inr None, t) \<Rightarrow> (at_reread, s\<lparr>sh_leases := t\<rparr>)
           | (Inr (Some p), t) \<Rightarrow> (at_enter p, s\<lparr>sh_leases := t\<rparr>))
      | at_reread \<Rightarrow> (lookup_step d c at_error s, s)
      | at_reuse e \<Rightarrow> reuse_step d c pc s
      | at_reuse_callback \<Rightarrow> reuse_step d c pc s
      | at_reuse_ack \<Rightarrow> reuse_step d c pc s
      | at_fail p \<Rightarrow>
          (at_error, s\<lparr>sh_leases :=
             snd (fail_lease (ch_db c) p ''stage-execution-failed'' (sh_leases s))\<rparr>)
      | _ \<Rightarrow> execute_step d c pc s)"

subsection \<open>Interleavings\<close>

record world =
  w_shared :: shared
  w_workers :: "(dispatch \<times> worker_pc) list"
  w_issued :: "string list"

definition initial_world :: world where
  "initial_world = \<lparr>w_shared = \<lparr>sh_leases = [], sh_registry = [], sh_effects = []\<rparr>,
     w_workers = [], w_issued = []\<rparr>"

text \<open>
  A worker starts, or one of them takes a step. The only fact used of the tokens is that
  \<open>secrets\<close> does not return a lease identity it has returned before.
\<close>

inductive world_step :: "world \<Rightarrow> world \<Rightarrow> bool" where
  spawn: "world_step w (w\<lparr>w_workers := w_workers w @ [(d, at_start)]\<rparr>)"
| run: "i < length (w_workers w) \<Longrightarrow> w_workers w ! i = (d, pc) \<Longrightarrow>
    fst (ch_tokens c) \<notin> set (w_issued w) \<Longrightarrow> worker_step d c pc (w_shared w) = (pc', s') \<Longrightarrow>
    world_step w (w\<lparr>w_shared := s', w_workers := (w_workers w)[i := (d, pc')],
      w_issued := fst (ch_tokens c) # w_issued w\<rparr>)"

inductive world_steps :: "world \<Rightarrow> world \<Rightarrow> bool" where
  refl: "world_steps w w"
| step: "world_steps w w' \<Longrightarrow> world_step w' w'' \<Longrightarrow> world_steps w w''"

definition reachable :: "world \<Rightarrow> bool" where
  "reachable w \<longleftrightarrow> world_steps initial_world w"

fun pc_permit :: "worker_pc \<Rightarrow> permit option" where
  "pc_permit (at_enter p) = Some p"
| "pc_permit (at_compile p) = Some p"
| "pc_permit (at_commit p) = Some p"
| "pc_permit (at_committing p) = Some p"
| "pc_permit (at_publish p) = Some p"
| "pc_permit (at_publishing p) = Some p"
| "pc_permit (at_verify p r) = Some p"
| "pc_permit (at_finalize p r) = Some p"
| "pc_permit (at_register p r) = Some p"
| "pc_permit (at_callback p) = Some p"
| "pc_permit (at_ack p) = Some p"
| "pc_permit (at_release p) = Some p"
| "pc_permit (at_fail p) = Some p"
| "pc_permit _ = None"

text \<open>From the claim to its finalization.\<close>

fun protected :: "worker_pc \<Rightarrow> permit option" where
  "protected (at_enter p) = Some p"
| "protected (at_compile p) = Some p"
| "protected (at_commit p) = Some p"
| "protected (at_committing p) = Some p"
| "protected (at_publish p) = Some p"
| "protected (at_publishing p) = Some p"
| "protected (at_verify p r) = Some p"
| "protected (at_finalize p r) = Some p"
| "protected _ = None"

text \<open>Positions that are reached only once the key is registered.\<close>

fun recorded :: "worker_pc \<Rightarrow> bool" where
  "recorded (at_reuse e) = True"
| "recorded at_reuse_callback = True"
| "recorded at_reuse_ack = True"
| "recorded (at_callback p) = True"
| "recorded (at_ack p) = True"
| "recorded (at_release p) = True"
| "recorded at_done = True"
| "recorded _ = False"

fun registering :: "worker_pc \<Rightarrow> bool" where
  "registering (at_register p r) = True"
| "registering _ = False"

subsection \<open>What one step changes\<close>

text \<open>How a step moves the lease table, with the positions it moves between.\<close>

inductive lease_move ::
  "dispatch \<Rightarrow> string \<times> string \<Rightarrow> worker_pc \<Rightarrow> worker_pc \<Rightarrow> lease_table \<Rightarrow> lease_table \<Rightarrow> bool"
  for d tok where
  keep: "pc_permit pc' \<in> {None, pc_permit pc} \<Longrightarrow> protected pc' \<in> {None, protected pc} \<Longrightarrow>
    \<not> registering pc' \<Longrightarrow> lease_move d tok pc pc' t t"
| claim: "p = new_permit (d_key d) (d_packet d) (d_nonce d) (d_stage d) tok \<Longrightarrow>
    \<not> completed t (d_key d) \<Longrightarrow>
    dget t (d_key d) = None \<or> (\<exists>row. dget t (d_key d) = Some row \<and> l_state row = lease_failed) \<Longrightarrow>
    lease_constraints t \<longrightarrow> lease_constraints (dput (d_key d) (claim_row p) t) \<Longrightarrow>
    lease_move d tok at_acquire (at_enter p) t (dput (d_key d) (claim_row p) t)"
| publish: "dget t (p_key p) = Some row \<Longrightarrow> l_lease row = p_lease p \<Longrightarrow> l_fence row = p_fence p \<Longrightarrow>
    l_state row = lease_claimed \<Longrightarrow>
    lease_move d tok (at_finalize p r) (at_register p r) t
      (dput (p_key p) (row\<lparr>l_state := lease_published, l_result := Some j\<rparr>) t)"
| acknowledge: "dget t (p_key p) = Some row \<Longrightarrow> l_lease row = p_lease p \<Longrightarrow> l_fence row = p_fence p \<Longrightarrow>
    l_state row = lease_published \<Longrightarrow>
    lease_move d tok (at_release p) at_done t
      (dput (p_key p) (row\<lparr>l_state := lease_acknowledged\<rparr>) t)"
| abandon: "dget t (p_key p) = Some row \<Longrightarrow> l_lease row = p_lease p \<Longrightarrow>
    l_state row = lease_claimed \<Longrightarrow>
    lease_move d tok (at_fail p) at_error t (dput (p_key p) (row\<lparr>l_state := lease_failed\<rparr>) t)"

lemma assert_then_cases:
  "assert_then c p pc s = (pc', s') \<Longrightarrow> s' = s \<and> (pc' = at_fail p \<or> pc' = pc \<and> live (sh_leases s) p)"
  by (auto simp: assert_then_def assert_active_None split: option.splits)

lemma acquire_move:
  assumes "worker_step d c at_acquire s = (pc', s')"
  shows "lease_move d (ch_tokens c) at_acquire pc' (sh_leases s) (sh_leases s')"
proof -
  obtain r t where a: "acquire (ch_db c) (d_key d) (d_packet d) (d_nonce d) (d_stage d)
      (ch_tokens c) (sh_leases s) = (r, t)" by fastforce
  show ?thesis
  proof (cases "\<exists>p. r = Inr (Some p)")
    case False
    with acquire_no_permit [OF a] have t: "t = sh_leases s" by blast
    from False consider e where "r = Inl e" | "r = Inr None" by (metis option.exhaust sum.exhaust)
    then show ?thesis
      using assms a t by cases (simp_all add: worker_step_def keep)
  next
    case True
    then obtain p where r: "r = Inr (Some p)" by blast
    note facts = acquire_permit [OF a [unfolded r]]
    have pc: "pc' = at_enter p" and l: "sh_leases s' = dput (d_key d) (claim_row p) (sh_leases s)"
      using assms a r facts(2) by (auto simp: worker_step_def)
    show ?thesis
      unfolding pc l using acquire_constraints [OF _ a] unfolding facts(2)
      by (intro claim [OF facts(1,3,4)] impI)
  qed
qed

lemma finalize_move:
  assumes "worker_step d c (at_finalize p r) s = (pc', s')"
  shows "lease_move d (ch_tokens c) (at_finalize p r) pc' (sh_leases s) (sh_leases s')"
proof -
  obtain e t where f: "finalize (ch_db c) p r (sh_leases s) = (e, t)" by fastforce
  note cases = lease_transition_cases [OF f [unfolded finalize_def]]
  show ?thesis
  proof (cases e)
    case None
    with cases obtain row where "dget (sh_leases s) (p_key p) = Some row" "l_lease row = p_lease p"
      "l_fence row = p_fence p" "l_state row = lease_claimed" and
      t: "t = dput (p_key p) (row\<lparr>l_state := lease_published,
        l_result := Some (canonical_json (packet_ref_view r))\<rparr>) (sh_leases s)" by auto
    moreover have "pc' = at_register p r" "sh_leases s' = t"
      using assms f None by (auto simp: worker_step_def execute_step_def)
    ultimately show ?thesis by (simp add: publish)
  next
    case (Some x)
    with assms f have "pc' = at_fail p" "s' = s" by (simp_all add: worker_step_def execute_step_def)
    then show ?thesis by (simp add: keep)
  qed
qed

lemma release_move:
  assumes "worker_step d c (at_release p) s = (pc', s')"
  shows "lease_move d (ch_tokens c) (at_release p) pc' (sh_leases s) (sh_leases s')"
proof -
  obtain e t where f: "release (ch_db c) p (sh_leases s) = (e, t)" by fastforce
  note cases = lease_transition_cases [OF f [unfolded release_def]]
  show ?thesis
  proof (cases e)
    case None
    with cases obtain row where row: "dget (sh_leases s) (p_key p) = Some row" "l_lease row = p_lease p"
      "l_fence row = p_fence p" "l_state row = lease_published" and
      t: "t = dput (p_key p) (row\<lparr>l_state := lease_acknowledged, l_result := l_result row\<rparr>)
        (sh_leases s)" by auto
    have "row\<lparr>l_state := lease_acknowledged, l_result := l_result row\<rparr> = row\<lparr>l_state := lease_acknowledged\<rparr>"
      by simp
    moreover have "pc' = at_done" "sh_leases s' = t"
      using assms f None by (auto simp: worker_step_def execute_step_def)
    ultimately show ?thesis using acknowledge [OF row] t by simp
  next
    case (Some x)
    with assms f have "pc' = at_fail p" "s' = s" by (simp_all add: worker_step_def execute_step_def)
    then show ?thesis by (simp add: keep)
  qed
qed

lemma fail_move:
  assumes "worker_step d c (at_fail p) s = (pc', s')"
  shows "lease_move d (ch_tokens c) (at_fail p) pc' (sh_leases s) (sh_leases s')"
proof -
  obtain e t where f: "fail_lease (ch_db c) p ''stage-execution-failed'' (sh_leases s) = (e, t)"
    by fastforce
  have "pc' = at_error" "sh_leases s' = t" using assms f by (auto simp: worker_step_def)
  with fail_lease_cases [OF f] show ?thesis by (auto simp: keep intro: abandon)
qed

lemma worker_step_move:
  assumes "worker_step d c pc s = (pc', s')"
  shows "lease_move d (ch_tokens c) pc pc' (sh_leases s) (sh_leases s')"
proof (cases pc)
  case at_acquire with assms show ?thesis by (simp add: acquire_move)
next
  case (at_finalize p r) with assms show ?thesis by (simp add: finalize_move)
next
  case (at_release p) with assms show ?thesis by (simp add: release_move)
next
  case (at_fail p) with assms show ?thesis by (simp add: fail_move)
qed (use assms in \<open>auto simp: worker_step_def execute_step_def reuse_step_def lookup_step_def
      dest!: assert_then_cases intro!: keep split: if_splits prod.splits option.splits sum.splits\<close>)

text \<open>The keys the registry holds.\<close>

definition registered :: "registry_table \<Rightarrow> string set" where
  "registered t = fst ` set t"

lemma worker_step_registry:
  assumes "worker_step d c pc s = (pc', s')"
  shows "registered (sh_registry s') = registered (sh_registry s) \<or>
      (registering pc \<and> registered (sh_registry s') = insert (d_key d) (registered (sh_registry s)))"
    and "recorded pc' \<Longrightarrow> recorded pc \<or> d_key d \<in> registered (sh_registry s')"
proof -
  have ack: "registered t = registered (sh_registry s)"
    if "registry_acknowledge db k (sh_registry s) = (Inr e, t)" for db k e t
  proof -
    from that obtain pid e0 where e0: "dget (sh_registry s) k = Some (pid, e0)"
      and t: "t = dput k (pid, e) (sh_registry s)"
      by (auto simp: registry_acknowledge_def Let_def split: option.splits)
    from map_of_SomeD [OF e0] have "k \<in> fst ` set (sh_registry s)" by force
    then show ?thesis unfolding t registered_def dict.keys_put by (rule insert_absorb)
  qed
  have reg: "registered t = insert (d_key d) (registered (sh_registry s))"
    if "registry_register db (stage_entry d c ref) (sh_registry s) = (None, t)" for db ref t
  proof -
    from that have "t = dput (d_key d) (pr_packet_id ref, stage_entry d c ref) (sh_registry s)"
      by (auto simp: registry_register_def stage_entry_def split: option.splits if_splits)
    then show ?thesis by (simp only: registered_def dict.keys_put)
  qed
  have get: "d_key d \<in> registered t"
    if "registry_get db (d_key d) t = Inr (Some e)" for db e t
    using that by (force simp: registered_def registry_get_def split: option.splits dest: map_of_SomeD)
  show "registered (sh_registry s') = registered (sh_registry s) \<or>
      (registering pc \<and> registered (sh_registry s') = insert (d_key d) (registered (sh_registry s)))"
    using assms
    by (cases pc) (auto simp: worker_step_def execute_step_def reuse_step_def lookup_step_def
        dest: ack reg get dest!: assert_then_cases split: if_splits prod.splits option.splits sum.splits)
  show "recorded pc' \<Longrightarrow> recorded pc \<or> d_key d \<in> registered (sh_registry s')"
    using assms
    by (cases pc) (auto simp: worker_step_def execute_step_def reuse_step_def lookup_step_def
        dest: ack reg get dest!: assert_then_cases split: if_splits prod.splits option.splits sum.splits)
qed

lemma worker_step_effects:
  "worker_step d c pc s = (pc', s') \<Longrightarrow> sh_effects s' = sh_effects s \<or>
     (\<exists>f p. sh_effects s' = sh_effects s @ [(f, p)] \<and> protected pc = Some p)"
  by (cases pc) (auto simp: worker_step_def execute_step_def reuse_step_def lookup_step_def
      dest!: assert_then_cases split: if_splits prod.splits option.splits sum.splits)

subsection \<open>The invariant of all interleavings\<close>

definition lease_inv :: "world \<Rightarrow> bool" where
  "lease_inv w \<longleftrightarrow> lease_constraints (sh_leases (w_shared w)) \<and>
     (\<forall>k row. dget (sh_leases (w_shared w)) k = Some row \<longrightarrow> l_lease row \<in> set (w_issued w))"

definition worker_inv :: "world \<Rightarrow> dispatch \<Rightarrow> worker_pc \<Rightarrow> bool" where
  "worker_inv w d pc \<longleftrightarrow>
     (\<forall>p. pc_permit pc = Some p \<longrightarrow> p_key p = d_key d \<and> p_lease p \<in> set (w_issued w)) \<and>
     (\<forall>p. protected pc = Some p \<longrightarrow> live (sh_leases (w_shared w)) p) \<and>
     (registering pc \<longrightarrow> completed (sh_leases (w_shared w)) (d_key d)) \<and>
     (recorded pc \<longrightarrow> d_key d \<in> registered (sh_registry (w_shared w)))"

definition world_inv :: "world \<Rightarrow> bool" where
  "world_inv w \<longleftrightarrow> lease_inv w \<and>
     (\<forall>k \<in> registered (sh_registry (w_shared w)). completed (sh_leases (w_shared w)) k) \<and>
     (\<forall>i d pc. i < length (w_workers w) \<longrightarrow> w_workers w ! i = (d, pc) \<longrightarrow> worker_inv w d pc) \<and>
     (\<forall>i j p q. i < length (w_workers w) \<longrightarrow> j < length (w_workers w) \<longrightarrow> i \<noteq> j \<longrightarrow>
        pc_permit (snd (w_workers w ! i)) = Some p \<longrightarrow> pc_permit (snd (w_workers w ! j)) = Some q \<longrightarrow>
        p_lease p \<noteq> p_lease q)"

lemma world_invD:
  assumes "world_inv w"
  shows "lease_inv w"
    and "k \<in> registered (sh_registry (w_shared w)) \<Longrightarrow> completed (sh_leases (w_shared w)) k"
    and "i < length (w_workers w) \<Longrightarrow> w_workers w ! i = (d, pc) \<Longrightarrow> worker_inv w d pc"
    and "i < length (w_workers w) \<Longrightarrow> j < length (w_workers w) \<Longrightarrow> i \<noteq> j \<Longrightarrow>
        pc_permit (snd (w_workers w ! i)) = Some p \<Longrightarrow> pc_permit (snd (w_workers w ! j)) = Some q \<Longrightarrow>
        p_lease p \<noteq> p_lease q"
  using assms unfolding world_inv_def by blast+

lemma protected_permit: "protected pc = Some p \<Longrightarrow> pc_permit pc = Some p"
  by (cases pc) simp_all

text \<open>What a move means for leases other than the mover's, and for the mover's own.\<close>

lemma lease_move_completed:
  assumes "lease_move d tok pc pc' t t'" and "completed t k"
  shows "completed t' k" and "\<exists>row row'. dget t k = Some row \<and> dget t' k = Some row' \<and>
      l_result row' = l_result row"
proof -
  obtain row where row: "dget t k = Some row" "l_state row = lease_published \<or> l_state row = lease_acknowledged"
    using assms(2) by (auto simp: completed_def split: option.splits)
  have "completed t' k \<and> (\<exists>row row'. dget t k = Some row \<and> dget t' k = Some row' \<and>
      l_result row' = l_result row)"
    using assms row
    by cases (auto simp: completed_def update_conv' split: if_splits)
  then show "completed t' k" and "\<exists>row row'. dget t k = Some row \<and> dget t' k = Some row' \<and>
      l_result row' = l_result row" by simp_all
qed

lemma lease_move_live:
  assumes "lease_move d tok pc pc' t t'" and "live t q"
    and "\<forall>p. pc_permit pc = Some p \<longrightarrow> p_lease p \<noteq> p_lease q"
  shows "live t' q"
  using assms
  by cases (auto simp: live_def completed_def update_conv' split: option.splits if_splits)

lemma lease_move_inv:
  assumes "lease_move d tok pc pc' t t'" and "lease_constraints t"
    and "\<forall>k row. dget t k = Some row \<longrightarrow> l_lease row \<in> I"
  shows "lease_constraints t'" and "dget t' k = Some row \<Longrightarrow> l_lease row \<in> insert (fst tok) I"
proof -
  show "lease_constraints t'"
    using assms(1)
  proof cases
    case (claim p)
    then show ?thesis using assms(2) by simp
  qed (use assms(2) in \<open>simp_all add: lease_constraints_update\<close>)
  show "dget t' k = Some row \<Longrightarrow> l_lease row \<in> insert (fst tok) I"
    using assms(1,3)
    by cases (auto simp: update_conv' claim_row_def new_permit_def split: if_splits, metis+)
qed

lemma lease_move_permit:
  assumes "lease_move d tok pc pc' t t'" and "pc_permit pc' = Some p"
  shows "pc_permit pc = Some p \<or> (pc_permit pc = None \<and> p_key p = d_key d \<and> p_lease p = fst tok)"
  using assms by cases (auto simp: new_permit_def)

lemma lease_move_protected:
  assumes "lease_move d tok pc pc' t t'" and "protected pc' = Some p"
  shows "(protected pc = Some p \<and> t' = t) \<or> live t' p"
  using assms by cases (auto simp: live_def claim_row_def new_permit_def update_conv')

lemma lease_move_registering:
  assumes "lease_move d tok pc pc' t t'" and "registering pc'"
    and "\<forall>p. pc_permit pc = Some p \<longrightarrow> p_key p = d_key d"
  shows "completed t' (d_key d)"
  using assms by cases (auto simp: completed_def update_conv')

lemma registered_mono:
  "worker_step d c pc s = (pc', s') \<Longrightarrow> registered (sh_registry s) \<subseteq> registered (sh_registry s')"
  using worker_step_registry(1) by fastforce

lemma mover_inv:
  assumes ws: "worker_step d c pc (w_shared w) = (pc', s')" and inv: "worker_inv w d pc"
    and w': "w_shared w' = s'" "set (w_issued w') = insert (fst (ch_tokens c)) (set (w_issued w))"
  shows "worker_inv w' d pc'"
  unfolding worker_inv_def w'
proof (intro conjI allI impI)
  note move = worker_step_move [OF ws]
  show "p_key p = d_key d" if "pc_permit pc' = Some p" for p
    using lease_move_permit [OF move that] inv by (auto simp: worker_inv_def)
  show "p_lease p \<in> insert (fst (ch_tokens c)) (set (w_issued w))" if "pc_permit pc' = Some p" for p
    using lease_move_permit [OF move that] inv by (auto simp: worker_inv_def)
  show "live (sh_leases s') p" if "protected pc' = Some p" for p
    using lease_move_protected [OF move that] inv by (auto simp: worker_inv_def)
  show "completed (sh_leases s') (d_key d)" if "registering pc'"
    using lease_move_registering [OF move that] inv by (auto simp: worker_inv_def)
  show "d_key d \<in> registered (sh_registry s')" if "recorded pc'"
    using worker_step_registry(2) [OF ws that] registered_mono [OF ws] inv
    by (auto simp: worker_inv_def)
qed

lemma bystander_inv:
  assumes ws: "worker_step d c pc (w_shared w) = (pc', s')" and inv: "worker_inv w e qc"
    and apart: "\<And>p q. pc_permit pc = Some p \<Longrightarrow> pc_permit qc = Some q \<Longrightarrow> p_lease p \<noteq> p_lease q"
    and w': "w_shared w' = s'" "set (w_issued w') = insert (fst (ch_tokens c)) (set (w_issued w))"
  shows "worker_inv w' e qc"
  unfolding worker_inv_def w'
proof (intro conjI allI impI)
  note move = worker_step_move [OF ws]
  show "p_key p = d_key e" "p_lease p \<in> insert (fst (ch_tokens c)) (set (w_issued w))"
    if "pc_permit qc = Some p" for p
    using that inv by (auto simp: worker_inv_def)
  show "live (sh_leases s') q" if "protected qc = Some q" for q
  proof (rule lease_move_live [OF move])
    show "live (sh_leases (w_shared w)) q" using that inv by (simp add: worker_inv_def)
    show "\<forall>p. pc_permit pc = Some p \<longrightarrow> p_lease p \<noteq> p_lease q"
      using apart protected_permit [OF that] by blast
  qed
  show "completed (sh_leases s') (d_key e)" if "registering qc"
    using lease_move_completed(1) [OF move] that inv by (simp add: worker_inv_def)
  show "d_key e \<in> registered (sh_registry s')" if "recorded qc"
    using registered_mono [OF ws] that inv by (auto simp: worker_inv_def)
qed

lemma world_inv_run:
  assumes inv: "world_inv w" and i: "i < length (w_workers w)" "w_workers w ! i = (d, pc)"
    and fresh: "fst (ch_tokens c) \<notin> set (w_issued w)"
    and ws: "worker_step d c pc (w_shared w) = (pc', s')"
  shows "world_inv (w\<lparr>w_shared := s', w_workers := (w_workers w)[i := (d, pc')],
    w_issued := fst (ch_tokens c) # w_issued w\<rparr>)"
    (is "world_inv ?w")
proof -
  note move = worker_step_move [OF ws]
  have w: "w_shared ?w = s'" "set (w_issued ?w) = insert (fst (ch_tokens c)) (set (w_issued w))"
    "w_workers ?w = (w_workers w)[i := (d, pc')]" by simp_all
  have own: "worker_inv w d pc" using world_invD(3) [OF inv] i by blast
  have old: "lease_constraints (sh_leases (w_shared w))"
    "\<forall>k row. dget (sh_leases (w_shared w)) k = Some row \<longrightarrow> l_lease row \<in> set (w_issued w)"
    using world_invD(1) [OF inv] by (simp_all add: lease_inv_def)
  have leases: "lease_inv ?w"
    unfolding lease_inv_def w
    using lease_move_inv(1) [OF move old] lease_move_inv(2) [OF move old] by simp
  have recs: "completed (sh_leases s') k" if "k \<in> registered (sh_registry s')" for k
  proof -
    from worker_step_registry(1) [OF ws] that
    consider "k \<in> registered (sh_registry (w_shared w))" | "registering pc" "k = d_key d" by auto
    then have "completed (sh_leases (w_shared w)) k"
      using own world_invD(2) [OF inv] by cases (simp_all add: worker_inv_def)
    then show ?thesis by (rule lease_move_completed(1) [OF move])
  qed
  have workers: "worker_inv ?w e qc" if j: "j < length (w_workers w)"
    "(w_workers w)[i := (d, pc')] ! j = (e, qc)" for j e qc
  proof (cases "j = i")
    case True
    with j have "e = d" "qc = pc'" by simp_all
    with mover_inv [OF ws own w(1,2)] show ?thesis by simp
  next
    case False
    with j have q: "w_workers w ! j = (e, qc)" by simp
    have "p_lease p \<noteq> p_lease q" if "pc_permit pc = Some p" "pc_permit qc = Some q" for p q
      using world_invD(4) [OF inv i(1) j(1) False [symmetric], of p q] that i(2) q by simp
    from bystander_inv [OF ws world_invD(3) [OF inv j(1) q] this w(1,2)] show ?thesis .
  qed
  have new: "p_lease p \<noteq> p_lease q"
    if j: "j < length (w_workers w)" "j \<noteq> i" and p: "pc_permit pc' = Some p"
      and q: "pc_permit (snd (w_workers w ! j)) = Some q" for j p q
  proof -
    obtain e qc where e: "w_workers w ! j = (e, qc)" by fastforce
    have "p_lease q \<in> set (w_issued w)"
      using world_invD(3) [OF inv j(1) e] q e by (simp add: worker_inv_def)
    then show ?thesis
      using lease_move_permit [OF move p] world_invD(4) [OF inv i(1) j(1) j(2) [symmetric], of p q]
        i(2) q fresh by auto
  qed
  have apart: "p_lease p \<noteq> p_lease q"
    if jk: "j < length (w_workers w)" "k < length (w_workers w)" "j \<noteq> k"
      "pc_permit (snd ((w_workers w)[i := (d, pc')] ! j)) = Some p"
      "pc_permit (snd ((w_workers w)[i := (d, pc')] ! k)) = Some q" for j k p q
  proof -
    consider "j = i" "k \<noteq> i" | "j \<noteq> i" "k = i" | "j \<noteq> i" "k \<noteq> i" using jk(3) by blast
    then show ?thesis
    proof cases
      case 1 with jk new [of k p q] show ?thesis by simp
    next
      case 2 with jk new [of j q p] show ?thesis by auto
    next
      case 3 with jk world_invD(4) [OF inv jk(1-3), of p q] show ?thesis by simp
    qed
  qed
  show ?thesis
    unfolding world_inv_def w length_list_update
    using leases recs workers apart by (intro conjI ballI allI impI) simp_all
qed

lemma world_inv_spawn: "world_inv w \<Longrightarrow> world_inv (w\<lparr>w_workers := w_workers w @ [(d, at_start)]\<rparr>)"
  by (auto simp: world_inv_def lease_inv_def worker_inv_def nth_append)

lemma world_inv_step: "world_inv w \<Longrightarrow> world_step w w' \<Longrightarrow> world_inv w'"
  by (erule world_step.cases) (auto intro: world_inv_spawn world_inv_run)

lemma reachable_inv: "reachable w \<Longrightarrow> world_inv w"
proof -
  have "world_steps v w \<Longrightarrow> world_inv v \<Longrightarrow> world_inv w" for v
    by (induction rule: world_steps.induct) (auto intro: world_inv_step)
  moreover have "world_inv initial_world"
    by (simp add: world_inv_def initial_world_def lease_inv_def lease_constraints_def registered_def)
  ultimately show "reachable w \<Longrightarrow> world_inv w" by (simp add: reachable_def)
qed

subsection \<open>Exclusive execution\<close>

lemma protected_live:
  assumes "world_inv w" and "i < length (w_workers w)" and "protected (snd (w_workers w ! i)) = Some p"
  shows "live (sh_leases (w_shared w)) p" and "p_key p = d_key (fst (w_workers w ! i))"
proof -
  obtain d pc where n: "w_workers w ! i = (d, pc)" by fastforce
  from world_invD(3) [OF assms(1,2) n] assms(3) n
  show "live (sh_leases (w_shared w)) p" and "p_key p = d_key (fst (w_workers w ! i))"
    by (simp_all add: worker_inv_def protected_permit)
qed

lemma live_same_key:
  "live t p \<Longrightarrow> live t q \<Longrightarrow> p_key p = p_key q \<Longrightarrow> p_lease p = p_lease q"
  by (auto simp: live_def split: option.splits)

lemma live_not_completed: "live t p \<Longrightarrow> \<not> completed t (p_key p)"
  by (auto simp: live_def completed_def split: option.splits)

text \<open>
  C16: One worker at a time executes a stage. However the workers interleave, and wherever any of
  them fails or stops, a worker between its claim and its finalization holds the live lease of
  its own idempotency key, and no two workers there ever hold the same key. The assumption is
  only that lease identities are not issued twice.
\<close>
theorem exclusive_execution:
  assumes "reachable w"
  shows "(\<forall>i p. i < length (w_workers w) \<longrightarrow> protected (snd (w_workers w ! i)) = Some p \<longrightarrow>
       live (sh_leases (w_shared w)) p \<and> p_key p = d_key (fst (w_workers w ! i))) \<and>
     (\<forall>i j p q. i < length (w_workers w) \<longrightarrow> j < length (w_workers w) \<longrightarrow> i \<noteq> j \<longrightarrow>
       protected (snd (w_workers w ! i)) = Some p \<longrightarrow> protected (snd (w_workers w ! j)) = Some q \<longrightarrow>
       p_key p \<noteq> p_key q)"
proof (intro conjI allI impI)
  note inv = reachable_inv [OF assms]
  fix i p assume i: "i < length (w_workers w)" "protected (snd (w_workers w ! i)) = Some p"
  show "live (sh_leases (w_shared w)) p" and "p_key p = d_key (fst (w_workers w ! i))"
    by (rule protected_live [OF inv i])+
  fix j q assume j: "j < length (w_workers w)" "i \<noteq> j" "protected (snd (w_workers w ! j)) = Some q"
  show "p_key p \<noteq> p_key q"
    using world_invD(4) [OF inv i(1) j(1,2) protected_permit [OF i(2)] protected_permit [OF j(3)]]
      live_same_key [OF protected_live(1) [OF inv i] protected_live(1) [OF inv j(1,3)]] by blast
qed

subsection \<open>Executable runs\<close>

definition run_at :: "nat \<Rightarrow> choice \<Rightarrow> world \<Rightarrow> world" where
  "run_at i c w = (let (d, pc) = w_workers w ! i; (pc', s') = worker_step d c pc (w_shared w) in
     w\<lparr>w_shared := s', w_workers := (w_workers w)[i := (d, pc')],
       w_issued := fst (ch_tokens c) # w_issued w\<rparr>)"

definition spawned :: "dispatch \<Rightarrow> world \<Rightarrow> world" where
  "spawned d w = w\<lparr>w_workers := w_workers w @ [(d, at_start)]\<rparr>"

lemma reachable_step: "reachable w \<Longrightarrow> world_step w w' \<Longrightarrow> reachable w'"
  unfolding reachable_def by (rule world_steps.step)

lemma reachable_run:
  assumes "reachable w" and "i < length (w_workers w)" and "fst (ch_tokens c) \<notin> set (w_issued w)"
  shows "reachable (run_at i c w)"
proof -
  obtain d pc where d: "w_workers w ! i = (d, pc)" by fastforce
  obtain pc' s' where s: "worker_step d c pc (w_shared w) = (pc', s')" by fastforce
  from run [OF assms(2) d assms(3) s] show ?thesis
    using reachable_step [OF assms(1)] by (simp add: run_at_def d s)
qed

lemma reachable_spawned: "reachable w \<Longrightarrow> reachable (spawned d w)"
  unfolding spawned_def by (erule reachable_step) (rule spawn)

lemma reachable_initial: "reachable initial_world"
  by (simp add: reachable_def world_steps.refl)

definition sample_ref :: packet_ref where
  "sample_ref = \<lparr>pr_packet_id = ''packet:1'', pr_packet_type = ''l9.topology'',
     pr_packet_version = ''2.0.0'', pr_uri = ''file:///p'', pr_semantic_hash = ''sha256:1'',
     pr_artifact_hash = None, pr_validation_status = status_passed, pr_subject_id = None,
     pr_source_revision = None\<rparr>"

definition sample_dispatch :: dispatch where
  "sample_dispatch = \<lparr>d_key = ''k'', d_packet = ''packet:0'', d_nonce = ''n'', d_stage = ''s'',
     d_callback = False\<rparr>"

definition sample_choice :: "string \<Rightarrow> string option \<Rightarrow> choice" where
  "sample_choice token db = \<lparr>ch_db = db, ch_tokens = (token, token), ch_ok = True,
     ch_ref = sample_ref, ch_uris = ([], []), ch_metadata = []\<rparr>"

text \<open>A worker that has claimed the stage; and one that stops before the registration.\<close>

definition sample_claimed :: world where
  "sample_claimed = run_at 0 (sample_choice ''b'' None) (run_at 0 (sample_choice ''a'' None)
     (spawned sample_dispatch initial_world))"

definition sample_orphaned :: world where
  "sample_orphaned = foldl (\<lambda>w (t, db). run_at 0 (sample_choice t db) w) sample_claimed
     [(''c'', None), (''d'', None), (''e'', None), (''f'', None), (''g'', None), (''h'', None),
      (''i'', None), (''j'', None), (''k'', Some ''disk I/O error''), (''l'', None)]"

lemmas run_simps = run_at_def spawned_def initial_world_def sample_dispatch_def sample_choice_def
  worker_step_def lookup_step_def registry_get_def acquire_def nonce_holder_def new_permit_def
  claim_row_def execute_step_def assert_then_def assert_active_def load_active_def finalize_def
  lease_transition_def registry_register_def fail_lease_def

lemma sample_claimed_state:
  "sample_claimed = \<lparr>w_shared = \<lparr>sh_leases = [(''k'', claim_row (new_permit ''k'' ''packet:0'' ''n''
       ''s'' (''b'', ''b'')))], sh_registry = [], sh_effects = []\<rparr>,
     w_workers = [(sample_dispatch, at_enter (new_permit ''k'' ''packet:0'' ''n'' ''s'' (''b'', ''b'')))],
     w_issued = [''b'', ''a'']\<rparr>"
  by (simp add: sample_claimed_def run_simps)

lemma sample_claimed_reachable: "reachable sample_claimed"
  unfolding sample_claimed_def
  by (intro reachable_run reachable_spawned reachable_initial) (simp_all add: run_simps)

theorem exclusive_execution_witness:
  "reachable sample_claimed \<and>
   live (sh_leases (w_shared sample_claimed)) (new_permit ''k'' ''packet:0'' ''n'' ''s'' (''b'', ''b''))"
  using sample_claimed_reachable exclusive_execution [OF sample_claimed_reachable]
  by (simp add: sample_claimed_state)

subsection \<open>Completed stages\<close>

definition effects_of :: "string \<Rightarrow> world \<Rightarrow> (stage_effect \<times> permit) list" where
  "effects_of key w = filter (\<lambda>(f, p). p_key p = key) (sh_effects (w_shared w))"

lemma completed_step:
  assumes inv: "world_inv w" and st: "world_step w w'"
    and c: "completed (sh_leases (w_shared w)) key"
  shows "completed (sh_leases (w_shared w')) key \<and>
    map_option l_result (dget (sh_leases (w_shared w')) key) =
      map_option l_result (dget (sh_leases (w_shared w)) key) \<and>
    effects_of key w' = effects_of key w"
  using st
proof cases
  case (spawn d)
  then show ?thesis using c by (simp add: effects_of_def)
next
  case (run i d pc ch pc' s')
  note move = worker_step_move [OF run(5)]
  have "effects_of key w' = effects_of key w"
    using worker_step_effects [OF run(5)]
  proof
    assume "sh_effects s' = sh_effects (w_shared w)"
    then show ?thesis using run(1) by (simp add: effects_of_def)
  next
    assume "\<exists>f p. sh_effects s' = sh_effects (w_shared w) @ [(f, p)] \<and> protected pc = Some p"
    then obtain f p where e: "sh_effects s' = sh_effects (w_shared w) @ [(f, p)]"
      and "protected pc = Some p" by blast
    then have "live (sh_leases (w_shared w)) p" using protected_live(1) [OF inv run(2)] run(3) by simp
    from live_not_completed [OF this] c have "p_key p \<noteq> key" by blast
    then show ?thesis using e run(1) by (simp add: effects_of_def)
  qed
  then show ?thesis
    using lease_move_completed [OF move c] run(1) by auto
qed

text \<open>
  C17: A finalized stage is never executed again. Once the lease of an idempotency key is
  published or acknowledged it stays so, with the result it was finalized with, and no worker
  ever again commits or publishes under that key.
\<close>
theorem completed_is_final:
  assumes "reachable w" and "world_steps w w'" and "completed (sh_leases (w_shared w)) key"
  shows "completed (sh_leases (w_shared w')) key \<and>
    map_option l_result (dget (sh_leases (w_shared w')) key) =
      map_option l_result (dget (sh_leases (w_shared w)) key) \<and>
    effects_of key w' = effects_of key w"
proof -
  have "world_steps v v' \<Longrightarrow> world_inv v \<Longrightarrow> completed (sh_leases (w_shared v)) key \<Longrightarrow>
      world_inv v' \<and> completed (sh_leases (w_shared v')) key \<and>
      map_option l_result (dget (sh_leases (w_shared v')) key) =
        map_option l_result (dget (sh_leases (w_shared v)) key) \<and>
      effects_of key v' = effects_of key v" for v v'
  proof (induction rule: world_steps.induct)
    case (step v v' v'')
    then have "world_inv v'" "completed (sh_leases (w_shared v')) key" by blast+
    from world_inv_step [OF this(1) step.hyps(2)] completed_step [OF this(1) step.hyps(2) this(2)]
    show ?case using step by simp
  qed simp
  then show ?thesis using assms reachable_inv by blast
qed

subsection \<open>A registration that is lost\<close>

text \<open>A finalized key that nobody has registered or is about to.\<close>

definition orphaned :: "world \<Rightarrow> string \<Rightarrow> bool" where
  "orphaned w key \<longleftrightarrow> completed (sh_leases (w_shared w)) key \<and>
     key \<notin> registered (sh_registry (w_shared w)) \<and>
     list_all (\<lambda>(d, pc). d_key d = key \<longrightarrow> \<not> registering pc) (w_workers w)"

lemma lease_move_not_registering:
  assumes "lease_move d tok pc pc' t t'" and "completed t (d_key d)"
    and "\<forall>p. pc_permit pc = Some p \<longrightarrow> p_key p = d_key d"
  shows "\<not> registering pc'"
  using assms by cases (auto simp: completed_def)

lemma orphaned_step:
  assumes inv: "world_inv w" and o: "orphaned w key" and st: "world_step w w'"
  shows "orphaned w' key"
proof -
  have c: "completed (sh_leases (w_shared w')) key"
    using completed_step [OF inv st] o by (simp add: orphaned_def)
  from st show ?thesis
  proof cases
    case (spawn d)
    then show ?thesis using o by (simp add: orphaned_def)
  next
    case (run i d pc ch pc' s')
    have own: "worker_inv w d pc" using world_invD(3) [OF inv] run by blast
    have old: "\<forall>(e, q) \<in> set (w_workers w). d_key e = key \<longrightarrow> \<not> registering q"
      using o by (simp add: orphaned_def list_all_iff)
    have "(d, pc) \<in> set (w_workers w)" using run(2,3) nth_mem by metis
    with old have "d_key d = key \<Longrightarrow> \<not> registering pc" by auto
    with worker_step_registry(1) [OF run(5)] o
    have "key \<notin> registered (sh_registry s')" by (auto simp: orphaned_def)
    moreover have "d_key d = key \<Longrightarrow> \<not> registering pc'"
      using lease_move_not_registering [OF worker_step_move [OF run(5)]] own o
      by (auto simp: orphaned_def worker_inv_def)
    then have "\<forall>(e, q) \<in> set ((w_workers w)[i := (d, pc')]). d_key e = key \<longrightarrow> \<not> registering q"
      using old set_update_subset_insert [of "w_workers w" i "(d, pc')"] by fastforce
    ultimately show ?thesis using c run(1) by (simp add: orphaned_def list_all_iff)
  qed
qed

text \<open>
  C38: Finalization and registration are not one step, and a registration that is lost between
  them is lost for good. When a key is finalized but not registered and no worker is about to
  register it, then it is never registered, and no worker dispatched under that key ever
  completes, however often it is dispatched again.
\<close>
theorem lost_registration_is_permanent:
  assumes "reachable w" and "orphaned w key" and "world_steps w w'"
  shows "orphaned w' key \<and> list_all (\<lambda>(d, pc). d_key d = key \<longrightarrow> pc \<noteq> at_done) (w_workers w')"
proof -
  have "world_steps v v' \<Longrightarrow> world_inv v \<Longrightarrow> orphaned v key \<Longrightarrow> world_inv v' \<and> orphaned v' key" for v v'
    by (induction rule: world_steps.induct) (auto intro: world_inv_step orphaned_step)
  then have o: "world_inv w'" "orphaned w' key" using assms reachable_inv by blast+
  have "d_key d \<noteq> key" if "(d, at_done) \<in> set (w_workers w')" for d
  proof -
    from that obtain i where "i < length (w_workers w')" "w_workers w' ! i = (d, at_done)"
      by (auto simp: in_set_conv_nth)
    from world_invD(3) [OF o(1) this] o(2) show ?thesis by (auto simp: worker_inv_def orphaned_def)
  qed
  then show ?thesis using o(2) by (auto simp: list_all_iff)
qed

lemma reachable_script:
  assumes "reachable w" and "w_workers w \<noteq> []" and "distinct (map fst script)"
    and "fst ` set script \<inter> set (w_issued w) = {}"
  shows "reachable (foldl (\<lambda>w (t, db). run_at 0 (sample_choice t db) w) w script)"
  using assms
proof (induction script arbitrary: w)
  case (Cons td script)
  obtain t db where td: "td = (t, db)" by fastforce
  let ?w = "run_at 0 (sample_choice t db) w"
  have "reachable ?w"
    using Cons.prems td by (intro reachable_run) (auto simp: sample_choice_def)
  moreover have "w_workers ?w \<noteq> []" "w_issued ?w = t # w_issued w"
    using Cons.prems(2) by (simp_all add: run_at_def split_def Let_def sample_choice_def)
  ultimately show ?case
    using Cons.IH [of ?w] Cons.prems td by auto
qed simp

lemma sample_orphaned_reachable: "reachable sample_orphaned"
  unfolding sample_orphaned_def
  by (intro reachable_script sample_claimed_reachable) (simp_all add: sample_claimed_state)

lemma sample_orphaned_state: "orphaned sample_orphaned ''k''"
  by (simp add: sample_orphaned_def sample_claimed_state run_simps orphaned_def completed_def
      registered_def)

theorem lost_registration_is_permanent_witness:
  "orphaned (spawned sample_dispatch sample_orphaned) ''k''"
proof -
  have "world_steps sample_orphaned (spawned sample_dispatch sample_orphaned)"
    unfolding spawned_def by (rule world_steps.step [OF world_steps.refl spawn])
  from lost_registration_is_permanent [OF sample_orphaned_reachable sample_orphaned_state this]
  show ?thesis ..
qed

theorem completed_is_final_witness:
  "completed (sh_leases (w_shared (spawned sample_dispatch sample_orphaned))) ''k''"
proof -
  have "world_steps sample_orphaned (spawned sample_dispatch sample_orphaned)"
    unfolding spawned_def by (rule world_steps.step [OF world_steps.refl spawn])
  moreover have "completed (sh_leases (w_shared sample_orphaned)) ''k''"
    using sample_orphaned_state by (simp add: orphaned_def)
  ultimately show ?thesis
    using completed_is_final [OF sample_orphaned_reachable] by blast
qed

end
