(* ===== verification/ClaimView.thy ===== *)
theory ClaimView
  imports PredicatePolicy ClaimProjection PacketEvidence
begin

text \<open>
  The read model over claims, \<open>topology/claim_view.py\<close>: a view of each claim at its actual
  strength, filters with keyset pagination, and the differential of two snapshots. The sort key
  of a support signature is Python's \<open>repr\<close> of a tuple, the parameter \<open>repr_sig\<close>.
\<close>

subsection \<open>Views\<close>

datatype projection_status = st_projected | st_not_projected | st_not_projectable | st_withheld

record source_location =
  loc_evidence_id :: ident
  loc_path :: "string option"
  loc_line :: "int option"
  loc_content_hash :: "string option"
  loc_revision :: "string option"
  loc_packet_id :: "string option"
  loc_locator :: "pyval option"

record claim_reading =
  cv_id :: ident
  cv_subject :: ident
  cv_subject_kind :: string
  cv_predicate :: string
  cv_value :: string
  cv_value_kind :: "string option"
  cv_interpretation :: predicate_interpretation
  cv_definition_ref :: "string option"
  cv_support :: claim_support
  cv_cardinality :: claim_cardinality
  cv_authority :: authority
  cv_confidence :: confidence_assessment
  cv_conflict_status :: conflict_status
  cv_conflict_ids :: "ident list"
  cv_assertion_ids :: "ident list"
  cv_evidence_refs :: "ident list"
  cv_locations :: "source_location list"
  cv_missing :: "ident list"
  cv_projection :: projection_status
  cv_withheld :: "projection_ineligibility option"
  cv_entity_ids :: "ident list"
  cv_policy_ref :: string

definition interpretation_policy_ref :: "(string \<Rightarrow> string) \<Rightarrow> string" where
  "interpretation_policy_ref sha =
     predicate_policy_id @ ''@'' @ predicate_policy_version @ ''#'' @ predicate_policy_hash sha"

text \<open>\<open>partition(":")\<close>: the part before the first colon, and whether there is one.\<close>

definition subject_kind_of :: "ident \<Rightarrow> string" where
  "subject_kind_of s =
     (let pre = takeWhile (\<lambda>c. c \<noteq> CHR '':'') s in
      if CHR '':'' \<notin> set s \<or> pre = [] then ''unknown''
      else if pre = ''repo'' then ''repository'' else pre)"

definition value_kind :: "string \<Rightarrow> string option" where
  "value_kind p = (case declaration_of p of None \<Rightarrow> None | Some d \<Rightarrow> dget d ''object_type'')"

definition location_of :: "evidence_record \<Rightarrow> source_location" where
  "location_of r = (let ref = source_ref r in
     \<lparr>loc_evidence_id = evidence_id r, loc_path = source_path ref, loc_line = line_number ref,
      loc_content_hash = content_hash ref, loc_revision = ref_source_revision ref,
      loc_packet_id = ref_packet_id ref,
      loc_locator = map_option (\<lambda>l. dumped (py_locator l)) (locator ref)\<rparr>)"

definition projection_status_of :: "semantic_claim \<Rightarrow> projection_status" where
  "projection_status_of c =
     (if projected c then st_projected
      else (case projection_ineligibility c of
          Some predicate_not_projectable \<Rightarrow> st_not_projectable
        | Some _ \<Rightarrow> st_withheld
        | None \<Rightarrow> st_not_projected))"

definition withheld_reason :: "semantic_claim \<Rightarrow> projection_ineligibility option" where
  "withheld_reason c =
     (let reason = projection_ineligibility c in
      if projected c \<or> reason = Some predicate_not_projectable then None else reason)"

definition claim_view ::
  "(string \<Rightarrow> string) \<Rightarrow> semantic_claim \<Rightarrow> (ident, evidence_record) dict \<Rightarrow> string option \<Rightarrow>
   claim_reading" where
  "claim_view sha c evidence policy_ref =
     \<lparr>cv_id = claim_id c, cv_subject = claim_subject c,
      cv_subject_kind = subject_kind_of (claim_subject c), cv_predicate = claim_predicate c,
      cv_value = claim_object c, cv_value_kind = value_kind (claim_predicate c),
      cv_interpretation = predicate_interpretation (claim_predicate c),
      cv_definition_ref = predicate_definition (claim_predicate c),
      cv_support = claim_support c, cv_cardinality = claim_cardinality c,
      cv_authority = claim_authority c, cv_confidence = claim_confidence c,
      cv_conflict_status = claim_conflict_status c, cv_conflict_ids = conflict_ids c,
      cv_assertion_ids = source_assertion_ids c, cv_evidence_refs = claim_evidence_refs c,
      cv_locations = sort_key loc_evidence_id
        (map location_of (List.map_filter (dget evidence) (claim_evidence_refs c))),
      cv_missing = filter (\<lambda>k. dget evidence k = None) (claim_evidence_refs c),
      cv_projection = projection_status_of c, cv_withheld = withheld_reason c,
      cv_entity_ids = projected_entity_ids c,
      cv_policy_ref = (case policy_ref of
          Some (x # xs) \<Rightarrow> x # xs | _ \<Rightarrow> interpretation_policy_ref sha)\<rparr>"

subsection \<open>Queries\<close>

datatype conflict_filter = any_conflict | no_conflict | only_conflicted
datatype projection_filter = any_projection | only_projected | only_unprojected

definition maximum_query_limit :: int where
  "maximum_query_limit = 10000"

definition default_query_limit :: int where
  "default_query_limit = 500"

record claim_query =
  q_subject :: "ident option"
  q_subject_kind :: "string option"
  q_predicate :: "string option"
  q_prefix :: "string option"
  q_value :: "string option"
  q_interpretation :: "predicate_interpretation option"
  q_conflict :: conflict_filter
  q_projection :: projection_filter
  q_source_path :: "string option"
  q_minimum :: int
  q_limit :: int
  q_after :: "ident option"

datatype query_error = limit_out_of_range int | minimum_negative | prefix_empty

definition check_query :: "claim_query \<Rightarrow> query_error option" where
  "check_query q =
     (if \<not> (1 \<le> q_limit q \<and> q_limit q \<le> maximum_query_limit)
      then Some (limit_out_of_range (q_limit q))
      else if q_minimum q < 0 then Some minimum_negative
      else (case q_prefix q of
          None \<Rightarrow> None
        | Some p \<Rightarrow> if list_all (\<lambda>c. c = CHR ''.'') p then Some prefix_empty else None))"

definition locator_key :: "source_location \<Rightarrow> string option" where
  "locator_key l = map_option canonical_json (loc_locator l)"

definition distinct_locations :: "claim_reading \<Rightarrow> nat" where
  "distinct_locations v =
     length (remdups (map (\<lambda>l. (loc_path l, loc_line l, locator_key l)) (cv_locations v)))"

definition rstrip_dots :: "string \<Rightarrow> string" where
  "rstrip_dots s = rev (dropWhile (\<lambda>c. c = CHR ''.'') (rev s))"

definition under_prefix :: "string \<Rightarrow> string \<Rightarrow> bool" where
  "under_prefix p predicate =
     (let pre = rstrip_dots p in predicate = pre \<or> startswith predicate (pre @ ''.''))"

definition matches :: "claim_query \<Rightarrow> claim_reading \<Rightarrow> bool" where
  "matches q v \<longleftrightarrow>
     pred_option (\<lambda>s. cv_subject v = s) (q_subject q) \<and>
     pred_option (\<lambda>k. cv_subject_kind v = k) (q_subject_kind q) \<and>
     pred_option (\<lambda>p. cv_predicate v = p) (q_predicate q) \<and>
     pred_option (\<lambda>p. under_prefix p (cv_predicate v)) (q_prefix q) \<and>
     pred_option (\<lambda>x. cv_value v = x) (q_value q) \<and>
     pred_option (\<lambda>i. cv_interpretation v = i) (q_interpretation q) \<and>
     (case q_conflict q of any_conflict \<Rightarrow> True
      | no_conflict \<Rightarrow> cv_conflict_status v = conflict_none
      | only_conflicted \<Rightarrow> cv_conflict_status v \<noteq> conflict_none) \<and>
     (case q_projection q of any_projection \<Rightarrow> True
      | only_projected \<Rightarrow> cv_projection v = st_projected
      | only_unprojected \<Rightarrow> cv_projection v \<noteq> st_projected) \<and>
     pred_option (\<lambda>p. list_ex (\<lambda>l. loc_path l = Some p) (cv_locations v)) (q_source_path q) \<and>
     (q_minimum q \<noteq> 0 \<longrightarrow> q_minimum q \<le> int (distinct_locations v))"

subsection \<open>The index\<close>

record claim_index =
  ix_views :: "claim_reading list"
  ix_policy_hash :: "string option"

definition make_index :: "claim_reading list \<Rightarrow> string option \<Rightarrow> claim_index option" where
  "make_index views policy_hash =
     (let ordered = sort_key cv_id views in
      if length (index_by cv_id ordered) \<noteq> length ordered then None
      else Some \<lparr>ix_views = ordered, ix_policy_hash = policy_hash\<rparr>)"

definition index_from_state ::
  "(string \<Rightarrow> string) \<Rightarrow> topology_state \<Rightarrow> string option \<Rightarrow> claim_index option" where
  "index_from_state sha s policy_hash =
     (let evidence = index_by evidence_id (state_evidence s);
          policy_ref = interpretation_policy_ref sha in
      make_index (map (\<lambda>c. claim_view sha c evidence (Some policy_ref)) (semantic_claims s))
        policy_hash)"

definition index_get :: "claim_index \<Rightarrow> ident \<Rightarrow> claim_reading option" where
  "index_get ix k = dget (index_by cv_id (ix_views ix)) k"

record query_result =
  total_matched :: nat
  returned :: nat
  truncated :: bool
  next_after :: "ident option"
  claims_of :: "claim_reading list"

definition run_query :: "claim_index \<Rightarrow> claim_query \<Rightarrow> query_result" where
  "run_query ix q =
     (let matched = filter (matches q) (ix_views ix);
          remaining = (case q_after q of
              None \<Rightarrow> matched | Some k \<Rightarrow> filter (\<lambda>v. k < cv_id v) matched);
          page = take (nat (q_limit q)) remaining;
          more = length page < length remaining in
      \<lparr>total_matched = length matched, returned = length page, truncated = more,
       next_after = (if more \<and> page \<noteq> [] then Some (cv_id (last page)) else None),
       claims_of = page\<rparr>)"

subsection \<open>Reading every page\<close>

text \<open>A reader follows \<open>next_after\<close> from page to page.\<close>

definition pending :: "claim_index \<Rightarrow> claim_query \<Rightarrow> claim_reading list" where
  "pending ix q = filter (\<lambda>v. matches q v \<and> pred_option (\<lambda>k. k < cv_id v) (q_after q)) (ix_views ix)"

lemma run_query_pending:
  "run_query ix q =
     (let page = take (nat (q_limit q)) (pending ix q);
          more = length page < length (pending ix q) in
      \<lparr>total_matched = length (filter (matches q) (ix_views ix)), returned = length page,
       truncated = more,
       next_after = (if more \<and> page \<noteq> [] then Some (cv_id (last page)) else None),
       claims_of = page\<rparr>)"
proof -
  have "(case q_after q of None \<Rightarrow> filter (matches q) (ix_views ix)
      | Some k \<Rightarrow> filter (\<lambda>v. k < cv_id v) (filter (matches q) (ix_views ix))) = pending ix q"
    by (simp add: pending_def split: option.split)
  then show ?thesis by (simp add: run_query_def Let_def)
qed

lemma run_query_simps:
  "total_matched (run_query ix q) = length (filter (matches q) (ix_views ix))"
  "returned (run_query ix q) = length (claims_of (run_query ix q))"
  "claims_of (run_query ix q) = take (nat (q_limit q)) (pending ix q)"
  "next_after (run_query ix q) =
     (if nat (q_limit q) < length (pending ix q) \<and> take (nat (q_limit q)) (pending ix q) \<noteq> []
      then Some (cv_id (last (take (nat (q_limit q)) (pending ix q)))) else None)"
  by (auto simp: run_query_pending Let_def min_def split: if_splits)

lemma pending_after:
  "matches (q\<lparr>q_after := k\<rparr>) v = matches q v"
  by (simp add: matches_def)

lemma pending_filter:
  assumes "next_after (run_query ix q) = Some k"
  shows "pending ix (q\<lparr>q_after := Some k\<rparr>) = filter (\<lambda>v. k < cv_id v) (pending ix q)"
proof -
  let ?p = "take (nat (q_limit q)) (pending ix q)"
  have k: "?p \<noteq> []" "k = cv_id (last ?p)"
    using assms by (simp_all add: run_query_simps split: if_splits)
  then have "last ?p \<in> set (pending ix q)" by (meson in_set_takeD last_in_set)
  then have "q_after q = Some j \<Longrightarrow> j < k" for j using k(2) by (simp add: pending_def)
  then show ?thesis
    unfolding pending_def filter_filter pending_after
    by (intro filter_cong [OF refl]) (cases "q_after q"; auto dest: less_trans)
qed

lemma next_after_pending:
  assumes "next_after (run_query ix q) = Some k"
  shows "length (pending ix (q\<lparr>q_after := Some k\<rparr>)) < length (pending ix q)"
proof -
  let ?p = "take (nat (q_limit q)) (pending ix q)"
  have k: "?p \<noteq> []" "k = cv_id (last ?p)"
    using assms by (simp_all add: run_query_simps split: if_splits)
  then have "last ?p \<in> set (pending ix q)" by (meson in_set_takeD last_in_set)
  then show ?thesis
    unfolding pending_filter [OF assms] using k(2) by (intro length_filter_less) auto
qed

function pages :: "claim_index \<Rightarrow> claim_query \<Rightarrow> query_result list" where
  "pages ix q = run_query ix q #
     (case next_after (run_query ix q) of
        None \<Rightarrow> [] | Some k \<Rightarrow> pages ix (q\<lparr>q_after := Some k\<rparr>))"
  by pat_completeness auto

termination
  by (relation "measure (\<lambda>(ix, q). length (pending ix q))") (simp_all add: next_after_pending)

declare pages.simps [simp del]

lemma index_ordered:
  assumes "make_index views h = Some ix"
  shows "sorted (map cv_id (ix_views ix))" and "distinct (map cv_id (ix_views ix))"
proof -
  let ?o = "sort_key cv_id views"
  have o: "ix_views ix = ?o" "length (index_by cv_id ?o) = length ?o"
    using assms by (auto simp: make_index_def Let_def split: if_splits)
  show "sorted (map cv_id (ix_views ix))" by (simp add: o(1))
  have "length (index_by cv_id ?o) = card (cv_id ` set ?o)"
    using distinct_card [OF distinct_index_by [of cv_id ?o]] by (simp add: keys_index_by)
  with o show "distinct (map cv_id (ix_views ix))"
    by (metis card_distinct length_map list.set_map)
qed

lemma filter_after_last:
  fixes f :: "'x \<Rightarrow> 'y::linorder"
  assumes "sorted (map f xs)" and "distinct (map f xs)" and "take n xs \<noteq> []"
  shows "filter (\<lambda>v. f (last (take n xs)) < f v) xs = drop n xs"
proof -
  define ys zs where d: "ys = take n xs" "zs = drop n xs"
  have xs: "xs = ys @ zs" by (simp add: d)
  have ys: "ys \<noteq> []" using assms(3) by (simp add: d)
  have "f y \<le> f (last ys)" if "y \<in> set ys" for y
  proof -
    have "sorted (map f (butlast ys @ [last ys]))" using assms(1) ys by (simp add: xs sorted_append)
    moreover have "y \<in> set (butlast ys @ [last ys])" using that ys by simp
    ultimately show ?thesis by (auto simp: sorted_append)
  qed
  then have "filter (\<lambda>v. f (last ys) < f v) ys = []" by (fastforce simp: filter_empty_conv)
  moreover have "f (last ys) < f z" if "z \<in> set zs" for z
  proof -
    have "last ys \<in> set ys" using ys by simp
    then have "f (last ys) \<le> f z" "f (last ys) \<noteq> f z"
      using assms(1,2) that by (auto simp: xs sorted_append)
    then show ?thesis by simp
  qed
  then have "filter (\<lambda>v. f (last ys) < f v) zs = zs" by simp
  ultimately have "filter (\<lambda>v. f (last ys) < f v) (ys @ zs) = zs" by simp
  then show ?thesis by (simp only: xs [symmetric] d [symmetric])
qed

lemma pending_rest:
  assumes "sorted (map cv_id (ix_views ix))" and "distinct (map cv_id (ix_views ix))"
    and "next_after (run_query ix q) = Some k"
  shows "pending ix (q\<lparr>q_after := Some k\<rparr>) = drop (nat (q_limit q)) (pending ix q)"
proof -
  let ?p = "take (nat (q_limit q)) (pending ix q)"
  have k: "?p \<noteq> []" "k = cv_id (last ?p)"
    using assms(3) by (simp_all add: run_query_simps split: if_splits)
  have "sorted (map cv_id (pending ix q))" "distinct (map cv_id (pending ix q))"
    using assms(1,2) unfolding pending_def by (auto intro: sorted_filter distinct_map_filter)
  from filter_after_last [OF this k(1)] show ?thesis
    unfolding pending_filter [OF assms(3)] by (simp only: k(2))
qed

lemma pages_pending:
  assumes "sorted (map cv_id (ix_views ix))" and "distinct (map cv_id (ix_views ix))"
    and "1 \<le> q_limit q"
  shows "concat (map claims_of (pages ix q)) = pending ix q \<and>
    list_all (\<lambda>r. total_matched r = length (filter (matches q) (ix_views ix)) \<and>
      returned r = length (claims_of r) \<and> int (returned r) \<le> q_limit q) (pages ix q) \<and>
    list_all (\<lambda>r. int (returned r) = q_limit q) (butlast (pages ix q)) \<and>
    next_after (last (pages ix q)) = None"
  using assms
proof (induction ix q rule: pages.induct)
  case (1 ix q)
  have len: "int (returned (run_query ix q)) \<le> q_limit q"
    using 1(4) by (simp add: run_query_simps)
  show ?case
  proof (cases "next_after (run_query ix q)")
    case None
    have "length (pending ix q) \<le> nat (q_limit q)"
      using None 1(4) by (cases "pending ix q") (auto simp: run_query_simps not_less split: if_splits)
    with None len show ?thesis by (subst (1 2 3 4) pages.simps) (simp add: run_query_simps)
  next
    case (Some k)
    let ?q = "q\<lparr>q_after := Some k\<rparr>"
    have m: "matches ?q = matches q" by (rule ext) (rule pending_after)
    have ih: "concat (map claims_of (pages ix ?q)) = pending ix ?q \<and>
        list_all (\<lambda>r. total_matched r = length (filter (matches q) (ix_views ix)) \<and>
          returned r = length (claims_of r) \<and> int (returned r) \<le> q_limit q) (pages ix ?q) \<and>
        list_all (\<lambda>r. int (returned r) = q_limit q) (butlast (pages ix ?q)) \<and>
        next_after (last (pages ix ?q)) = None"
      using 1(1) [OF Some 1(2) 1(3)] 1(4) by (simp add: m)
    have ne: "pages ix ?q \<noteq> []" by (subst pages.simps) simp
    have full: "int (returned (run_query ix q)) = q_limit q"
      using Some 1(4) by (simp add: run_query_simps split: if_splits)
    have p: "pages ix q = run_query ix q # pages ix ?q" by (subst pages.simps) (simp add: Some)
    have "take (nat (q_limit q)) (pending ix q) @ pending ix ?q = pending ix q"
      by (simp add: pending_rest [OF 1(2) 1(3) Some])
    with ih ne full show ?thesis by (simp add: p run_query_simps(1-3))
  qed
qed

definition sample_reading :: "ident \<Rightarrow> string \<Rightarrow> claim_reading" where
  "sample_reading k x =
     \<lparr>cv_id = k, cv_subject = ''repo:a'', cv_subject_kind = ''repository'', cv_predicate = ''p'',
      cv_value = x, cv_value_kind = None, cv_interpretation = unsupported_predicate,
      cv_definition_ref = None, cv_support = support_unsupported, cv_cardinality = card_unknown,
      cv_authority = auth_source, cv_confidence = confidence_unknown,
      cv_conflict_status = conflict_none, cv_conflict_ids = [], cv_assertion_ids = [],
      cv_evidence_refs = [], cv_locations = [], cv_missing = [], cv_projection = st_not_projectable,
      cv_withheld = None, cv_entity_ids = [], cv_policy_ref = ''r''\<rparr>"

definition sample_query :: "int \<Rightarrow> claim_query" where
  "sample_query n =
     \<lparr>q_subject = None, q_subject_kind = None, q_predicate = None, q_prefix = None,
      q_value = Some ''x'', q_interpretation = None, q_conflict = any_conflict,
      q_projection = any_projection, q_source_path = None, q_minimum = 0, q_limit = n,
      q_after = None\<rparr>"

text \<open>
  C21: Paging loses nothing and repeats nothing. From an index and an admitted query, following
  \<open>next_after\<close> ends; the pages read in order are exactly the matching views in order of claim
  identity; every page but the last is full, none is longer than the limit, and every page
  reports the total of all matches.
\<close>
theorem pages_complete:
  assumes "make_index views h = Some ix" and "check_query q = None" and "q_after q = None"
  shows "concat (map claims_of (pages ix q)) = filter (matches q) (ix_views ix) \<and>
    list_all (\<lambda>r. total_matched r = length (filter (matches q) (ix_views ix)) \<and>
      returned r = length (claims_of r) \<and> int (returned r) \<le> q_limit q) (pages ix q) \<and>
    list_all (\<lambda>r. int (returned r) = q_limit q) (butlast (pages ix q)) \<and>
    next_after (last (pages ix q)) = None"
proof -
  have "1 \<le> q_limit q" using assms(2) by (simp add: check_query_def split: if_splits)
  moreover have "pending ix q = filter (matches q) (ix_views ix)"
    by (simp add: pending_def assms(3))
  ultimately show ?thesis using pages_pending [OF index_ordered [OF assms(1)], of q] by simp
qed

theorem pages_complete_witness:
  "\<exists>ix. make_index [sample_reading ''c'' ''x'', sample_reading ''a'' ''x'', sample_reading ''b'' ''y''] None =
      Some ix \<and>
     concat (map claims_of (pages ix (sample_query 1))) =
       [sample_reading ''a'' ''x'', sample_reading ''c'' ''x'']"
proof -
  let ?ix = "\<lparr>ix_views = [sample_reading ''a'' ''x'', sample_reading ''b'' ''y'',
      sample_reading ''c'' ''x''], ix_policy_hash = None\<rparr>"
  have ix: "make_index [sample_reading ''c'' ''x'', sample_reading ''a'' ''x'',
      sample_reading ''b'' ''y''] None = Some ?ix"
    by (simp add: make_index_def sample_reading_def index_by_def)
  have q: "check_query (sample_query 1) = None" "q_after (sample_query 1) = None"
    by (simp_all add: check_query_def sample_query_def maximum_query_limit_def)
  from pages_complete [OF ix q] have "concat (map claims_of (pages ?ix (sample_query 1))) =
      [sample_reading ''a'' ''x'', sample_reading ''c'' ''x'']"
    by (simp add: matches_def sample_query_def sample_reading_def)
  with ix show ?thesis by blast
qed

subsection \<open>The differential of two snapshots\<close>

datatype change_category = cat_evidence | cat_policy | cat_reconciliation | cat_projection

type_synonym support_key =
  "string option \<times> int option \<times> string option \<times> string option \<times> string option"

definition support_keys :: "claim_reading \<Rightarrow> support_key list" where
  "support_keys v = map (\<lambda>l. (loc_path l, loc_line l, locator_key l, loc_content_hash l,
     loc_revision l)) (cv_locations v)"

definition support_signature :: "(support_key \<Rightarrow> string) \<Rightarrow> claim_reading \<Rightarrow> support_key list" where
  "support_signature repr_sig v = sort_key repr_sig (remdups (support_keys v))"

definition changed :: "string \<Rightarrow> bool \<Rightarrow> string list" where
  "changed name b = (if b then [name] else [])"

definition moved ::
  "(support_key \<Rightarrow> string) \<Rightarrow> claim_reading \<Rightarrow> claim_reading \<Rightarrow> change_category \<Rightarrow> string list" where
  "moved repr_sig old new cat = (case cat of
       cat_evidence \<Rightarrow> changed ''source_locations''
         (support_signature repr_sig old \<noteq> support_signature repr_sig new)
     | cat_policy \<Rightarrow>
         changed ''support'' (cv_support old \<noteq> cv_support new) @
         changed ''cardinality'' (cv_cardinality old \<noteq> cv_cardinality new)
     | cat_reconciliation \<Rightarrow>
         changed ''authority'' (cv_authority old \<noteq> cv_authority new) @
         changed ''confidence'' (cv_confidence old \<noteq> cv_confidence new) @
         changed ''conflict_status'' (cv_conflict_status old \<noteq> cv_conflict_status new) @
         changed ''conflict_ids'' (cv_conflict_ids old \<noteq> cv_conflict_ids new)
     | cat_projection \<Rightarrow>
         changed ''projection_status'' (cv_projection old \<noteq> cv_projection new) @
         changed ''projection_withheld_reason'' (cv_withheld old \<noteq> cv_withheld new) @
         changed ''projected_entity_ids'' (cv_entity_ids old \<noteq> cv_entity_ids new))"

definition all_categories :: "change_category list" where
  "all_categories = [cat_evidence, cat_policy, cat_reconciliation, cat_projection]"

record claim_change =
  ch_id :: ident
  ch_before :: claim_reading
  ch_after :: claim_reading
  ch_fields :: "string list"
  ch_categories :: "change_category list"
  ch_by_policy :: bool

record claim_differential =
  df_added :: "claim_reading list"
  df_removed :: "claim_reading list"
  df_changed :: "claim_change list"
  df_before_policy :: "string option"
  df_after_policy :: "string option"
  df_policy_changed :: bool

definition scoped :: "claim_index \<Rightarrow> claim_query option \<Rightarrow> (ident, claim_reading) dict" where
  "scoped ix q = index_by cv_id (filter (\<lambda>v. pred_option (\<lambda>q. matches q v) q) (ix_views ix))"

definition change_of ::
  "(support_key \<Rightarrow> string) \<Rightarrow> bool \<Rightarrow> ident \<Rightarrow> claim_reading \<Rightarrow> claim_reading \<Rightarrow> claim_change option" where
  "change_of repr_sig policy_changed k old new =
     (let fields = concat (map (moved repr_sig old new) all_categories);
          cats = filter (\<lambda>c. moved repr_sig old new c \<noteq> []) all_categories in
      if fields = [] then None
      else Some \<lparr>ch_id = k, ch_before = old, ch_after = new, ch_fields = fields,
        ch_categories = cats, ch_by_policy = (policy_changed \<and> cat_policy \<in> set cats)\<rparr>)"

definition differential ::
  "(support_key \<Rightarrow> string) \<Rightarrow> claim_index \<Rightarrow> claim_index \<Rightarrow> claim_query option \<Rightarrow> claim_differential" where
  "differential repr_sig ix later q =
     (let before = scoped ix q; after = scoped later q;
          pc = (ix_policy_hash ix \<noteq> None \<and> ix_policy_hash later \<noteq> None \<and>
            ix_policy_hash ix \<noteq> ix_policy_hash later);
          keys = (\<lambda>d. filter (\<lambda>k. dget d k = None)) in
      \<lparr>df_added = List.map_filter (dget after) (sort (keys before (dkeys after))),
       df_removed = List.map_filter (dget before) (sort (keys after (dkeys before))),
       df_changed = List.map_filter (\<lambda>k. case (dget before k, dget after k) of
           (Some old, Some new) \<Rightarrow> change_of repr_sig pc k old new | _ \<Rightarrow> None)
         (sort (dkeys before)),
       df_before_policy = ix_policy_hash ix, df_after_policy = ix_policy_hash later,
       df_policy_changed = pc\<rparr>)"

text \<open>What a differential compares: where the support was read, and what was concluded.\<close>

definition same_reading :: "claim_reading \<Rightarrow> claim_reading \<Rightarrow> bool" where
  "same_reading v w \<longleftrightarrow>
     set (support_keys v) = set (support_keys w) \<and>
     cv_support v = cv_support w \<and> cv_cardinality v = cv_cardinality w \<and>
     cv_authority v = cv_authority w \<and> cv_confidence v = cv_confidence w \<and>
     cv_conflict_status v = cv_conflict_status w \<and> cv_conflict_ids v = cv_conflict_ids w \<and>
     cv_projection v = cv_projection w \<and> cv_withheld v = cv_withheld w \<and>
     cv_entity_ids v = cv_entity_ids w"

definition in_scope :: "claim_index \<Rightarrow> claim_query option \<Rightarrow> claim_reading set" where
  "in_scope ix q = {v \<in> set (ix_views ix). pred_option (\<lambda>q. matches q v) q}"

lemma support_signature_eq:
  assumes "inj repr_sig"
  shows "support_signature repr_sig v = support_signature repr_sig w \<longleftrightarrow>
    set (support_keys v) = set (support_keys w)"
proof
  assume "support_signature repr_sig v = support_signature repr_sig w"
  then have "set (support_signature repr_sig v) = set (support_signature repr_sig w)" by simp
  then show "set (support_keys v) = set (support_keys w)" by (simp add: support_signature_def)
next
  assume "set (support_keys v) = set (support_keys w)"
  then have "mset (remdups (support_keys v)) = mset (remdups (support_keys w))"
    by (simp add: set_eq_iff_mset_remdups_eq)
  then show "support_signature repr_sig v = support_signature repr_sig w"
    unfolding support_signature_def
    by (intro sort_key_inj_key_eq) (use assms in \<open>auto intro: inj_on_subset\<close>)
qed

lemma changed_Nil [simp]: "changed n b = [] \<longleftrightarrow> \<not> b"
  by (simp add: changed_def)

lemma moved_Nil:
  assumes "inj repr_sig"
  shows "concat (map (moved repr_sig v w) all_categories) = [] \<longleftrightarrow> same_reading v w"
  by (auto simp: all_categories_def moved_def same_reading_def support_signature_eq [OF assms])

lemma scoped_get:
  assumes "make_index views h = Some ix"
  shows "dget (scoped ix q) k = Some v \<longleftrightarrow> v \<in> in_scope ix q \<and> cv_id v = k"
proof -
  let ?f = "filter (\<lambda>v. pred_option (\<lambda>q. matches q v) q) (ix_views ix)"
  have d: "distinct (map cv_id ?f)" using index_ordered(2) [OF assms] by (rule distinct_map_filter)
  have s: "v \<in> set ?f \<longleftrightarrow> v \<in> in_scope ix q" for v by (auto simp: in_scope_def)
  have "dget (index_by cv_id ?f) (cv_id v) = Some v" if "v \<in> set ?f" for v
    unfolding index_by_def using dict.lookup_fill_distinct [OF d that, of "\<lambda>v. v"] by simp
  moreover have "v \<in> set ?f \<and> cv_id v = k" if "dget (index_by cv_id ?f) k = Some v"
    using index_by_entry [OF map_of_SomeD [OF that]] by simp
  ultimately show ?thesis unfolding scoped_def s [symmetric] by blast
qed

lemma scoped_key: "k \<in> fst ` set (scoped ix q) \<longleftrightarrow> (\<exists>v. dget (scoped ix q) k = Some v)"
  by (simp add: map_of_eq_None_iff flip: not_None_eq)

lemma both_Some:
  "(case a of None \<Rightarrow> None | Some v \<Rightarrow> (case b of None \<Rightarrow> None | Some w \<Rightarrow> f v w)) = Some c \<longleftrightarrow>
     (\<exists>v w. a = Some v \<and> b = Some w \<and> f v w = Some c)"
  by (auto split: option.splits)

lemma change_of_Some:
  assumes "inj repr_sig"
  shows "change_of repr_sig pc k v w = Some c \<longleftrightarrow> \<not> same_reading v w \<and>
    c = \<lparr>ch_id = k, ch_before = v, ch_after = w,
      ch_fields = concat (map (moved repr_sig v w) all_categories),
      ch_categories = filter (\<lambda>c. moved repr_sig v w c \<noteq> []) all_categories,
      ch_by_policy = (pc \<and> (cv_support v \<noteq> cv_support w \<or> cv_cardinality v \<noteq> cv_cardinality w))\<rparr>"
proof -
  have "cat_policy \<in> set (filter (\<lambda>c. moved repr_sig v w c \<noteq> []) all_categories) \<longleftrightarrow>
      cv_support v \<noteq> cv_support w \<or> cv_cardinality v \<noteq> cv_cardinality w"
    by (auto simp: all_categories_def moved_def)
  then show ?thesis
    by (auto simp only: change_of_def Let_def moved_Nil [OF assms] split: if_splits)
qed

lemma change_of_facts:
  assumes "inj repr_sig"
  shows "change_of repr_sig pc k v w = Some c \<Longrightarrow> \<not> same_reading v w \<and> ch_before c = v \<and> ch_after c = w \<and>
      ch_by_policy c = (pc \<and> (cv_support v \<noteq> cv_support w \<or> cv_cardinality v \<noteq> cv_cardinality w))"
    and "\<not> same_reading v w \<Longrightarrow> \<exists>c. change_of repr_sig pc k v w = Some c"
  by (auto simp: change_of_Some [OF assms])

text \<open>
  C22: The differential of two snapshots is exact. A view is added when only the later snapshot
  has its claim, removed when only the earlier one has it, and a claim of both is reported changed
  exactly when its support was read elsewhere or one of the compared conclusions differs; the
  change is attributed to the policy exactly when both recorded policies are known and differ
  and a field that depends on the policy alone moved. No limit cuts the report short.
\<close>
theorem differential_exact:
  assumes "make_index views h = Some ix" and "make_index views' h' = Some ix'" and "inj repr_sig"
    and d_def: "d = differential repr_sig ix ix' q"
  shows "set (df_added d) = {w \<in> in_scope ix' q. cv_id w \<notin> cv_id ` in_scope ix q} \<and>
    set (df_removed d) = {v \<in> in_scope ix q. cv_id v \<notin> cv_id ` in_scope ix' q} \<and>
    (\<lambda>c. (ch_before c, ch_after c, ch_by_policy c)) ` set (df_changed d) =
      {(v, w, p). v \<in> in_scope ix q \<and> w \<in> in_scope ix' q \<and> cv_id v = cv_id w \<and>
        \<not> same_reading v w \<and>
        (p \<longleftrightarrow> h \<noteq> None \<and> h' \<noteq> None \<and> h \<noteq> h' \<and>
          (cv_support v \<noteq> cv_support w \<or> cv_cardinality v \<noteq> cv_cardinality w))}"
proof -
  note g = scoped_get [OF assms(1)] scoped_get [OF assms(2)]
  have n: "dget (scoped ix q) k = None \<longleftrightarrow> k \<notin> cv_id ` in_scope ix q"
    "dget (scoped ix' q) k = None \<longleftrightarrow> k \<notin> cv_id ` in_scope ix' q" for k
    using g(1) [of q k] g(2) [of q k] by (auto simp: image_iff simp flip: not_Some_eq)
  have p: "ix_policy_hash ix = h" "ix_policy_hash ix' = h'"
    using assms(1,2) by (auto simp: make_index_def Let_def split: if_splits)
  have added: "set (df_added d) = {w \<in> in_scope ix' q. cv_id w \<notin> cv_id ` in_scope ix q}"
    by (auto simp: d_def differential_def Let_def map_filter_set scoped_key g n)
  have removed: "set (df_removed d) = {v \<in> in_scope ix q. cv_id v \<notin> cv_id ` in_scope ix' q}"
    by (auto simp: d_def differential_def Let_def map_filter_set scoped_key g n)
  have m: "c \<in> set (df_changed d) \<longleftrightarrow> (\<exists>v w. v \<in> in_scope ix q \<and> w \<in> in_scope ix' q \<and>
      cv_id v = cv_id w \<and> change_of repr_sig (h \<noteq> None \<and> h' \<noteq> None \<and> h \<noteq> h') (cv_id v) v w = Some c)"
    for c
  proof -
    have "c \<in> set (df_changed d) \<longleftrightarrow> (\<exists>k v w. dget (scoped ix q) k = Some v \<and>
        dget (scoped ix' q) k = Some w \<and>
        change_of repr_sig (h \<noteq> None \<and> h' \<noteq> None \<and> h \<noteq> h') k v w = Some c)"
      by (simp add: d_def differential_def Let_def map_filter_set p both_Some Bex_def scoped_key)
        blast
    then show ?thesis by (simp only: g) metis
  qed
  have pt: "(v, w, p) \<in> (\<lambda>c. (ch_before c, ch_after c, ch_by_policy c)) ` set (df_changed d) \<longleftrightarrow>
      v \<in> in_scope ix q \<and> w \<in> in_scope ix' q \<and> cv_id v = cv_id w \<and> \<not> same_reading v w \<and>
      (p \<longleftrightarrow> (h \<noteq> None \<and> h' \<noteq> None \<and> h \<noteq> h') \<and>
        (cv_support v \<noteq> cv_support w \<or> cv_cardinality v \<noteq> cv_cardinality w))" for v w p
  proof
    assume "(v, w, p) \<in> (\<lambda>c. (ch_before c, ch_after c, ch_by_policy c)) ` set (df_changed d)"
    then obtain c where c: "c \<in> set (df_changed d)" "ch_before c = v" "ch_after c = w" "ch_by_policy c = p"
      by auto
    obtain v' w' where s: "v' \<in> in_scope ix q" "w' \<in> in_scope ix' q" "cv_id v' = cv_id w'"
      "change_of repr_sig (h \<noteq> None \<and> h' \<noteq> None \<and> h \<noteq> h') (cv_id v') v' w' = Some c"
      using c(1) unfolding m by blast
    from change_of_facts(1) [OF assms(3) s(4)] c(2-4) s(1-3) show "v \<in> in_scope ix q \<and>
      w \<in> in_scope ix' q \<and> cv_id v = cv_id w \<and> \<not> same_reading v w \<and>
      (p \<longleftrightarrow> (h \<noteq> None \<and> h' \<noteq> None \<and> h \<noteq> h') \<and>
        (cv_support v \<noteq> cv_support w \<or> cv_cardinality v \<noteq> cv_cardinality w))" by simp
  next
    assume a: "v \<in> in_scope ix q \<and> w \<in> in_scope ix' q \<and> cv_id v = cv_id w \<and> \<not> same_reading v w \<and>
      (p \<longleftrightarrow> (h \<noteq> None \<and> h' \<noteq> None \<and> h \<noteq> h') \<and>
        (cv_support v \<noteq> cv_support w \<or> cv_cardinality v \<noteq> cv_cardinality w))"
    then obtain c where c: "change_of repr_sig (h \<noteq> None \<and> h' \<noteq> None \<and> h \<noteq> h') (cv_id v) v w = Some c"
      using change_of_facts(2) [OF assms(3)] by blast
    with a have "c \<in> set (df_changed d)" unfolding m by blast
    moreover from change_of_facts(1) [OF assms(3) c] a
    have "(v, w, p) = (ch_before c, ch_after c, ch_by_policy c)" by simp
    ultimately show "(v, w, p) \<in> (\<lambda>c. (ch_before c, ch_after c, ch_by_policy c)) ` set (df_changed d)"
      by (rule rev_image_eqI)
  qed
  have "(\<lambda>c. (ch_before c, ch_after c, ch_by_policy c)) ` set (df_changed d) =
      {(v, w, p). v \<in> in_scope ix q \<and> w \<in> in_scope ix' q \<and> cv_id v = cv_id w \<and>
        \<not> same_reading v w \<and>
        (p \<longleftrightarrow> h \<noteq> None \<and> h' \<noteq> None \<and> h \<noteq> h' \<and>
          (cv_support v \<noteq> cv_support w \<or> cv_cardinality v \<noteq> cv_cardinality w))}"
    (is "?L = ?R")
  proof (rule set_eqI)
    fix t :: "claim_reading \<times> claim_reading \<times> bool"
    obtain v w p where t: "t = (v, w, p)" by (rule prod_cases3)
    show "t \<in> ?L \<longleftrightarrow> t \<in> ?R" unfolding t pt by (simp only: mem_Collect_eq prod.case conj_assoc)
  qed
  with added removed show ?thesis by (intro conjI)
qed

text \<open>An injective key of support signatures, as Python's \<open>repr\<close> is.\<close>

definition opt_json :: "('a \<Rightarrow> json) \<Rightarrow> 'a option \<Rightarrow> json" where
  "opt_json f v = (case v of None \<Rightarrow> JNull | Some x \<Rightarrow> f x)"

lemma opt_json_inj:
  "opt_json JStr a = opt_json JStr b \<longleftrightarrow> a = b" "opt_json JInt m = opt_json JInt n \<longleftrightarrow> m = n"
  "canonical (opt_json JStr a)" "canonical (opt_json JInt m)"
  by (auto simp: opt_json_def split: option.splits)

definition sample_repr :: "support_key \<Rightarrow> string" where
  "sample_repr k = (case k of (p, n, l, c, r) \<Rightarrow> dumps (JArr
     [opt_json JStr p, opt_json JInt n, opt_json JStr l, opt_json JStr c, opt_json JStr r]))"

lemma sample_repr_inj: "inj sample_repr"
proof (rule injI)
  fix x y assume e: "sample_repr x = sample_repr y"
  obtain p n l c r where x: "x = (p, n, l, c, r)" by (rule prod_cases5)
  obtain p' n' l' c' r' where y: "y = (p', n', l', c', r')" by (rule prod_cases5)
  have "dumps (JArr [opt_json JStr p, opt_json JInt n, opt_json JStr l, opt_json JStr c, opt_json JStr r]) =
      dumps (JArr [opt_json JStr p', opt_json JInt n', opt_json JStr l', opt_json JStr c', opt_json JStr r'])"
    using e by (simp only: x y sample_repr_def prod.case)
  then show "x = y" by (subst (asm) dumps_inj) (simp_all add: opt_json_inj x y)
qed

theorem differential_exact_witness:
  "set (df_added (differential sample_repr
      \<lparr>ix_views = [sample_reading ''a'' ''x''], ix_policy_hash = None\<rparr>
      \<lparr>ix_views = [sample_reading ''a'' ''x'', sample_reading ''b'' ''x''], ix_policy_hash = None\<rparr> None)) =
    {sample_reading ''b'' ''x''}"
proof -
  have a: "make_index [sample_reading ''a'' ''x''] None =
      Some \<lparr>ix_views = [sample_reading ''a'' ''x''], ix_policy_hash = None\<rparr>"
    and b: "make_index [sample_reading ''a'' ''x'', sample_reading ''b'' ''x''] None =
      Some \<lparr>ix_views = [sample_reading ''a'' ''x'', sample_reading ''b'' ''x''], ix_policy_hash = None\<rparr>"
    by (simp_all add: make_index_def sample_reading_def index_by_def)
  have "cv_id (sample_reading k x) = k" for k x by (simp add: sample_reading_def)
  with differential_exact [OF a b sample_repr_inj refl, of None] show ?thesis
    by (simp add: in_scope_def) auto
qed

end
