(* ===== verification/Qualification.thy ===== *)
theory Qualification
  imports WorkProjection CorpusDomain
begin

text \<open>
  Evidence-qualified relation publication, \<open>publication/qualification.py\<close>: the producer of an
  edge is read off its own record, and its rule decides whether the evidence behind the edge
  proves the relation. \<open>str_of\<close> is Python's \<open>str\<close> of a value that is no string.
\<close>

subsection \<open>Origins and reasons\<close>

datatype relation_origin =
    or_work | or_claim | or_duplicate | or_corpus | or_declared | or_upstream | or_owner
  | or_capability | or_artifact_capability | or_containment | or_classification | or_unrecognized

fun origin_value :: "relation_origin \<Rightarrow> string" where
  "origin_value or_work = ''work-projector''"
| "origin_value or_claim = ''claim-projector''"
| "origin_value or_duplicate = ''exact-duplicate''"
| "origin_value or_corpus = ''corpus-scope''"
| "origin_value or_declared = ''producer-declared''"
| "origin_value or_upstream = ''repository-upstream''"
| "origin_value or_owner = ''repository-owner''"
| "origin_value or_capability = ''capability-record''"
| "origin_value or_artifact_capability = ''artifact-capability''"
| "origin_value or_containment = ''artifact-containment''"
| "origin_value or_classification = ''artifact-classification''"
| "origin_value or_unrecognized = ''unrecognized''"

datatype unqualified_reason =
    type_unrecognized | origin_unsupported | evidence_missing | classification_only
  | claim_not_projectable | endpoint_unresolved | endpoint_mismatch | work_target_unresolved

fun unqualified_value :: "unqualified_reason \<Rightarrow> string" where
  "unqualified_value type_unrecognized = ''qualification.relation_type_unrecognized''"
| "unqualified_value origin_unsupported = ''qualification.evidence_origin_unsupported''"
| "unqualified_value evidence_missing = ''qualification.relation_evidence_missing''"
| "unqualified_value classification_only = ''qualification.artifact_classification_only''"
| "unqualified_value claim_not_projectable = ''qualification.originating_claim_not_projectable''"
| "unqualified_value endpoint_unresolved = ''qualification.endpoint_unresolved''"
| "unqualified_value endpoint_mismatch = ''qualification.endpoint_kind_mismatch''"
| "unqualified_value work_target_unresolved = ''relation.work_target_not_exactly_resolved''"

definition direct_evidence_classes :: "evidence_class list" where
  "direct_evidence_classes = [class_observed, class_declared, class_validated, class_committed]"

definition admissible_origins :: "(edge_type, relation_origin list) dict" where
  "admissible_origins =
     [(CONTAINS, [or_containment, or_corpus, or_declared]),
      (DEPENDS_ON, [or_work, or_claim, or_upstream, or_declared]),
      (BLOCKED_BY, [or_work, or_declared]), (REFERENCES, [or_work, or_declared]),
      (SUPERSEDES, [or_work, or_claim, or_declared]), (GOVERNED_BY, [or_claim, or_declared]),
      (DOCUMENTED_BY, [or_declared]), (VALIDATED_BY, [or_declared]),
      (IMPLEMENTS, [or_capability, or_artifact_capability, or_declared]),
      (EXPOSES, [or_capability, or_declared]), (OWNED_BY, [or_owner, or_declared]),
      (DUPLICATE_OF, [or_duplicate]), (DERIVED_FROM, [or_declared]), (PRODUCES, [or_declared]),
      (CONSUMES, [or_declared]), (ROUTES_TO, [or_declared]), (PUBLISHES_TO, [or_declared]),
      (MEMBER_OF, [or_declared])]"

definition claim_projector_endpoint :: "(edge_type, string) dict" where
  "claim_projector_endpoint =
     [(DEPENDS_ON, external_package_endpoint), (GOVERNED_BY, ''declared-contract-reference''),
      (SUPERSEDES, ''declared-repository-reference'')]"

definition classification_promoted_types :: "edge_type list" where
  "classification_promoted_types = [GOVERNED_BY, DOCUMENTED_BY, VALIDATED_BY]"

definition projected_from_claim_property :: string where
  "projected_from_claim_property = ''projected_from_claim_id''"

subsection \<open>The index\<close>

record qualification_index =
  qx_evidence :: "(ident, evidence_record) dict"
  qx_claims :: "(ident, semantic_claim) dict"
  qx_repositories :: "(ident, repository_record) dict"
  qx_artifacts :: "(ident, artifact_record) dict"
  qx_capabilities :: "(ident, capability_record) dict"
  qx_scope :: "ident list"

definition qualification_index_of :: "topology_state \<Rightarrow> qualification_index" where
  "qualification_index_of s =
     \<lparr>qx_evidence = index_by evidence_id (state_evidence s),
      qx_claims = index_by claim_id (semantic_claims s),
      qx_repositories = index_by repo_id (repository_records s),
      qx_artifacts = index_by art_id (artifact_records s),
      qx_capabilities = index_by cap_id (capability_records s),
      qx_scope = map corpus_id (corpus_records s) @ map root_id (root_records s)\<rparr>"

subsection \<open>The producer of an edge\<close>

definition relation_field :: "edge_type \<Rightarrow> string" where
  "relation_field t = str_lower (edge_type_value t)"

definition resolved_evidence :: "edge_record \<Rightarrow> qualification_index \<Rightarrow> evidence_record list" where
  "resolved_evidence e ix = List.map_filter (dget (qx_evidence ix)) (usort (edge_evidence_refs e))"

definition relation_field_evidence ::
  "edge_record \<Rightarrow> evidence_record list \<Rightarrow> evidence_record list" where
  "relation_field_evidence e evs =
     filter (\<lambda>r. ev_field r = Some (relation_field (edge_type_of e)) \<and>
       evidence_class r \<in> set direct_evidence_classes \<and>
       ev_subject_id r \<in> {edge_source e, edge_target e}) evs"

definition recorded_origin :: "edge_record \<Rightarrow> qualification_index \<Rightarrow> relation_origin option" where
  "recorded_origin e ix =
     (let ps = dkeys (edge_properties e) in
      if target_resolution_property \<in> set ps then Some or_work
      else if projected_from_claim_property \<in> set ps \<and> endpoint_kind_property \<in> set ps
      then Some or_claim
      else if edge_type_of e = DUPLICATE_OF \<and> ''method'' \<in> set ps then Some or_duplicate
      else if edge_type_of e = CONTAINS \<and> edge_source e \<in> set (qx_scope ix) then Some or_corpus
      else if relation_field_evidence e (resolved_evidence e ix) \<noteq> [] then Some or_declared
      else None)"

definition repository_origin :: "edge_record \<Rightarrow> qualification_index \<Rightarrow> relation_origin option" where
  "repository_origin e ix = (case dget (qx_repositories ix) (edge_source e) of
       None \<Rightarrow> None
     | Some r \<Rightarrow>
         (let owned = (case dget (qx_artifacts ix) (edge_target e) of
              None \<Rightarrow> False | Some a \<Rightarrow> art_repository_id a = repo_id r) in
          if owned \<and> edge_type_of e = CONTAINS then Some or_containment
          else if owned \<and> edge_type_of e \<in> set classification_promoted_types
          then Some or_classification
          else if edge_type_of e = DEPENDS_ON \<and> edge_target e \<in> set (upstream_ids r)
          then Some or_upstream
          else if edge_type_of e = OWNED_BY \<and> edge_target e \<in> set (owner_ids r)
          then Some or_owner
          else None))"

definition capability_origin :: "edge_record \<Rightarrow> qualification_index \<Rightarrow> relation_origin option" where
  "capability_origin e ix = (case dget (qx_capabilities ix) (edge_target e) of
       None \<Rightarrow> None
     | Some c \<Rightarrow>
         if edge_type_of e = IMPLEMENTS \<and> edge_source e \<in> set (implemented_by c)
         then Some or_capability
         else if edge_type_of e = EXPOSES \<and> edge_source e \<in> set (exposed_by c)
         then Some or_capability
         else (case dget (qx_artifacts ix) (edge_source e) of
             Some a \<Rightarrow> if edge_type_of e = IMPLEMENTS \<and> edge_target e \<in> set (art_capabilities a)
               then Some or_artifact_capability else None
           | None \<Rightarrow> None))"

definition relation_origin_of :: "edge_record \<Rightarrow> qualification_index \<Rightarrow> relation_origin" where
  "relation_origin_of e ix = (case recorded_origin e ix of
       Some k \<Rightarrow> k
     | None \<Rightarrow>
         if edge_properties e \<noteq> [] then or_unrecognized
         else (case repository_origin e ix of
             Some k \<Rightarrow> k
           | None \<Rightarrow> (case capability_origin e ix of Some k \<Rightarrow> k | None \<Rightarrow> or_unrecognized)))"

subsection \<open>The rules\<close>

text \<open>\<open>str(properties.get(key))\<close>.\<close>

definition text_property :: "(pyval \<Rightarrow> string) \<Rightarrow> properties \<Rightarrow> string \<Rightarrow> string" where
  "text_property str_of ps k = (case dget ps k of
       None \<Rightarrow> ''None'' | Some (PStr s) \<Rightarrow> s | Some v \<Rightarrow> str_of v)"

definition claim_gate ::
  "(pyval \<Rightarrow> string) \<Rightarrow> edge_record \<Rightarrow> qualification_index \<Rightarrow> unqualified_reason option" where
  "claim_gate str_of e ix =
     (case dget (qx_claims ix) (text_property str_of (edge_properties e) projected_from_claim_property) of
        None \<Rightarrow> Some evidence_missing
      | Some c \<Rightarrow> if projection_ineligibility c \<noteq> None then Some claim_not_projectable else None)"

type_synonym verdict = "unqualified_reason + string"

definition work_projector_rule ::
  "(pyval \<Rightarrow> string) \<Rightarrow> edge_record \<Rightarrow> qualification_index \<Rightarrow> verdict" where
  "work_projector_rule str_of e ix = (case claim_gate str_of e ix of
       Some r \<Rightarrow> Inl r
     | None \<Rightarrow>
         if dget (edge_properties e) target_resolution_property \<noteq>
             Some (PStr resolved_target_resolution)
         then Inl work_target_unresolved else Inr ''exact-artifact-resolution'')"

definition claim_projector_rule ::
  "(pyval \<Rightarrow> string) \<Rightarrow> edge_record \<Rightarrow> qualification_index \<Rightarrow> verdict" where
  "claim_projector_rule str_of e ix =
     (if get_value (edge_properties e) endpoint_kind_property \<noteq>
         map_option PStr (dget claim_projector_endpoint (edge_type_of e))
      then Inl endpoint_mismatch
      else (case claim_gate str_of e ix of
          Some r \<Rightarrow> Inl r | None \<Rightarrow> Inr ''projection-eligible-claim''))"

definition carries_hash :: "qualification_index \<Rightarrow> pyval \<Rightarrow> ident \<Rightarrow> bool" where
  "carries_hash ix h k = (case dget (qx_artifacts ix) k of
       None \<Rightarrow> False | Some a \<Rightarrow> PStr (art_content_hash a) = h)"

definition exact_duplicate_rule :: "edge_record \<Rightarrow> qualification_index \<Rightarrow> verdict" where
  "exact_duplicate_rule e ix =
     (if dget (edge_properties e) ''method'' \<noteq> Some (PStr exact_duplicate_method)
      then Inl evidence_missing
      else (case dget (edge_properties e) ''content_hash'' of
          None \<Rightarrow> Inl evidence_missing
        | Some h \<Rightarrow>
            if \<not> truthy h then Inl evidence_missing
            else if \<not> (carries_hash ix h (edge_source e) \<and> carries_hash ix h (edge_target e))
            then Inl evidence_missing
            else Inr ''content-hash-equality''))"

definition repository_upstream_rule :: "edge_record \<Rightarrow> qualification_index \<Rightarrow> verdict" where
  "repository_upstream_rule e ix =
     (if dget (qx_repositories ix) (edge_target e) = None then Inl endpoint_unresolved
      else Inr ''observed-repository-target'')"

fun origin_rule ::
  "(pyval \<Rightarrow> string) \<Rightarrow> relation_origin \<Rightarrow>
   (edge_record \<Rightarrow> qualification_index \<Rightarrow> verdict) option" where
  "origin_rule str_of or_work = Some (work_projector_rule str_of)"
| "origin_rule str_of or_claim = Some (claim_projector_rule str_of)"
| "origin_rule str_of or_duplicate = Some exact_duplicate_rule"
| "origin_rule str_of or_declared = Some (\<lambda>e ix. Inr ''relation-field-evidence'')"
| "origin_rule str_of or_upstream = Some repository_upstream_rule"
| "origin_rule str_of or_owner = Some (\<lambda>e ix. Inr ''record-membership'')"
| "origin_rule str_of or_capability = Some (\<lambda>e ix. Inr ''record-membership'')"
| "origin_rule str_of or_artifact_capability = Some (\<lambda>e ix. Inr ''record-membership'')"
| "origin_rule str_of or_containment = Some (\<lambda>e ix. Inr ''inventory'')"
| "origin_rule str_of or_corpus = Some (\<lambda>e ix. Inr ''inventory'')"
| "origin_rule str_of or_classification = None"
| "origin_rule str_of or_unrecognized = None"

definition qualification_admission ::
  "edge_record \<Rightarrow> relation_origin \<Rightarrow> qualification_index \<Rightarrow> unqualified_reason option" where
  "qualification_admission e k ix = (case dget admissible_origins (edge_type_of e) of
       None \<Rightarrow> Some type_unrecognized
     | Some ks \<Rightarrow>
         if k = or_classification then Some classification_only
         else if k \<notin> set ks \<or> Option.is_none (origin_rule (\<lambda>_. []) k) then Some origin_unsupported
         else if resolved_evidence e ix = [] then Some evidence_missing
         else None)"

record relation_qualification =
  rq_edge_id :: ident
  rq_edge_type :: string
  rq_origin :: relation_origin
  rq_verdict :: verdict

definition qualify_relation ::
  "(pyval \<Rightarrow> string) \<Rightarrow> edge_record \<Rightarrow> qualification_index \<Rightarrow> relation_qualification" where
  "qualify_relation str_of e ix =
     (let k = relation_origin_of e ix in
      \<lparr>rq_edge_id = edge_id e, rq_edge_type = edge_type_value (edge_type_of e), rq_origin = k,
       rq_verdict = (case qualification_admission e k ix of
           Some r \<Rightarrow> Inl r
         | None \<Rightarrow> (case origin_rule str_of k of
             Some rule \<Rightarrow> rule e ix | None \<Rightarrow> Inl origin_unsupported))\<rparr>)"

definition is_qualified :: "relation_qualification \<Rightarrow> bool" where
  "is_qualified q \<longleftrightarrow> \<not> isl (rq_verdict q)"


subsection \<open>What qualifies\<close>

lemma admission_None:
  "qualification_admission e k ix = None \<longleftrightarrow>
     (\<exists>ks. dget admissible_origins (edge_type_of e) = Some ks \<and> k \<in> set ks) \<and>
     resolved_evidence e ix \<noteq> []"
proof -
  have "k \<in> set ks \<Longrightarrow> dget admissible_origins t = Some ks \<Longrightarrow>
      k \<noteq> or_classification \<and> \<not> Option.is_none (origin_rule (\<lambda>_. []) k)" for k ks t
    by (cases t) (auto simp: admissible_origins_def)
  then show ?thesis by (auto simp: qualification_admission_def split: option.split)
qed

lemma qualified_iff:
  "is_qualified (qualify_relation str_of e ix) \<longleftrightarrow>
     qualification_admission e (relation_origin_of e ix) ix = None \<and>
     (\<exists>rule basis. origin_rule str_of (relation_origin_of e ix) = Some rule \<and> rule e ix = Inr basis)"
  by (auto simp: is_qualified_def qualify_relation_def Let_def isl_def split: option.split)
    (metis sum.exhaust_sel)

text \<open>The evidence a qualified edge of each producer rests on.\<close>

definition claim_backed :: "(pyval \<Rightarrow> string) \<Rightarrow> edge_record \<Rightarrow> topology_state \<Rightarrow> bool" where
  "claim_backed str_of e s \<longleftrightarrow> list_ex (\<lambda>c. claim_id c =
     text_property str_of (edge_properties e) projected_from_claim_property \<and>
     eligible_for_canonical_projection c) (semantic_claims s)"

definition backed :: "(pyval \<Rightarrow> string) \<Rightarrow> edge_record \<Rightarrow> topology_state \<Rightarrow> relation_origin \<Rightarrow> bool" where
  "backed str_of e s k = (case k of
       or_work \<Rightarrow> claim_backed str_of e s \<and>
         dget (edge_properties e) target_resolution_property = Some (PStr resolved_target_resolution)
     | or_claim \<Rightarrow> claim_backed str_of e s
     | or_duplicate \<Rightarrow> list_ex (\<lambda>a. list_ex (\<lambda>b. art_id a = edge_source e \<and> art_id b = edge_target e \<and>
         art_content_hash a = art_content_hash b \<and> art_content_hash a \<noteq> []) (artifact_records s))
         (artifact_records s)
     | or_corpus \<Rightarrow> edge_source e \<in> corpus_id ` set (corpus_records s) \<union> root_id ` set (root_records s)
     | or_declared \<Rightarrow> list_ex (\<lambda>r. evidence_id r \<in> set (edge_evidence_refs e) \<and>
         ev_field r = Some (relation_field (edge_type_of e)) \<and>
         evidence_class r \<in> set direct_evidence_classes \<and>
         ev_subject_id r \<in> {edge_source e, edge_target e}) (state_evidence s)
     | or_upstream \<Rightarrow> {edge_source e, edge_target e} \<subseteq> repo_id ` set (repository_records s)
     | or_owner \<Rightarrow> list_ex (\<lambda>r. repo_id r = edge_source e \<and> edge_target e \<in> set (owner_ids r))
         (repository_records s)
     | or_capability \<Rightarrow> list_ex (\<lambda>c. cap_id c = edge_target e \<and>
         edge_source e \<in> set (implemented_by c) \<union> set (exposed_by c)) (capability_records s)
     | or_artifact_capability \<Rightarrow> list_ex (\<lambda>a. art_id a = edge_source e \<and>
         edge_target e \<in> set (art_capabilities a)) (artifact_records s)
     | or_containment \<Rightarrow> list_ex (\<lambda>a. art_id a = edge_target e \<and> art_repository_id a = edge_source e)
         (artifact_records s)
     | _ \<Rightarrow> False)"

lemma index_by_Some: "dget (index_by key xs) k = Some x \<Longrightarrow> x \<in> set xs \<and> key x = k"
  by (metis index_by_entry map_of_SomeD)

lemma claim_gate_backed:
  "claim_gate str_of e (qualification_index_of s) = None \<Longrightarrow> claim_backed str_of e s"
  by (auto simp: claim_gate_def claim_backed_def qualification_index_of_def list_ex_iff
      eligible_for_canonical_projection_def dest!: index_by_Some split: option.splits if_splits)

lemma resolved_evidence_mem:
  "r \<in> set (resolved_evidence e (qualification_index_of s)) \<Longrightarrow>
     r \<in> set (state_evidence s) \<and> evidence_id r \<in> set (edge_evidence_refs e)"
  by (auto simp: resolved_evidence_def qualification_index_of_def map_filter_set
      dest!: index_by_Some)

lemma recorded_originD:
  assumes "relation_origin_of e (qualification_index_of s) = k"
  shows "k = or_corpus \<Longrightarrow> edge_source e \<in> corpus_id ` set (corpus_records s) \<union> root_id ` set (root_records s)"
    and "k = or_declared \<Longrightarrow>
      relation_field_evidence e (resolved_evidence e (qualification_index_of s)) \<noteq> []"
    and "k \<in> {or_upstream, or_owner, or_containment} \<Longrightarrow>
      repository_origin e (qualification_index_of s) = Some k"
    and "k \<in> {or_capability, or_artifact_capability} \<Longrightarrow>
      capability_origin e (qualification_index_of s) = Some k"
proof -
  let ?ix = "qualification_index_of s"
  have scope: "set (qx_scope ?ix) = corpus_id ` set (corpus_records s) \<union> root_id ` set (root_records s)"
    by (simp add: qualification_index_of_def)
  have rec: "recorded_origin e ?ix \<in> {None, Some or_work, Some or_claim, Some or_duplicate,
      Some or_corpus, Some or_declared}"
    by (simp add: recorded_origin_def Let_def)
  have rep: "repository_origin e ?ix \<in> {None, Some or_containment, Some or_classification,
      Some or_upstream, Some or_owner}"
    by (simp add: repository_origin_def Let_def split: option.split)
  have cap: "capability_origin e ?ix \<in> {None, Some or_capability, Some or_artifact_capability}"
    by (simp add: capability_origin_def split: option.split)
  show "k = or_corpus \<Longrightarrow> edge_source e \<in> corpus_id ` set (corpus_records s) \<union> root_id ` set (root_records s)"
    using assms rep cap unfolding scope [symmetric]
    by (auto simp: relation_origin_of_def recorded_origin_def Let_def split: option.splits if_splits)
  show "k = or_declared \<Longrightarrow> relation_field_evidence e (resolved_evidence e ?ix) \<noteq> []"
    using assms rep cap
    by (auto simp: relation_origin_of_def recorded_origin_def Let_def split: option.splits if_splits)
  show "k \<in> {or_upstream, or_owner, or_containment} \<Longrightarrow> repository_origin e ?ix = Some k"
    using assms rec cap by (auto simp: relation_origin_of_def split: option.splits if_splits)
  show "k \<in> {or_capability, or_artifact_capability} \<Longrightarrow> capability_origin e ?ix = Some k"
    using assms rec rep by (auto simp: relation_origin_of_def split: option.splits if_splits)
qed

lemma rule_backed:
  assumes "origin_rule str_of k = Some rule" and "rule e (qualification_index_of s) = Inr basis"
    and "relation_origin_of e (qualification_index_of s) = k"
  shows "backed str_of e s k"
proof -
  note o = recorded_originD [OF assms(3)]
  have rec: "dget (index_by repo_id (repository_records s)) r = Some x \<Longrightarrow>
      x \<in> set (repository_records s) \<and> repo_id x = r" for r x by (rule index_by_Some)
  show ?thesis
  proof (cases k)
    case or_work
    with assms show ?thesis
      by (auto simp: backed_def work_projector_rule_def dest: claim_gate_backed split: option.splits if_splits)
  next
    case or_claim
    with assms show ?thesis
      by (auto simp: backed_def claim_projector_rule_def dest: claim_gate_backed split: option.splits if_splits)
  next
    case or_duplicate
    with assms obtain h where h: "truthy h" "carries_hash (qualification_index_of s) h (edge_source e)"
        "carries_hash (qualification_index_of s) h (edge_target e)"
      by (auto simp: exact_duplicate_rule_def split: option.splits if_splits)
    then obtain a b where "dget (index_by art_id (artifact_records s)) (edge_source e) = Some a"
        "PStr (art_content_hash a) = h" "PStr (art_content_hash b) = h"
        "dget (index_by art_id (artifact_records s)) (edge_target e) = Some b"
      by (auto simp: carries_hash_def qualification_index_of_def split: option.splits)
    with h(1) show ?thesis unfolding or_duplicate
      by (auto simp: backed_def list_ex_iff dest!: index_by_Some) metis
  next
    case or_corpus
    with o(1) show ?thesis by (simp add: backed_def)
  next
    case or_declared
    with o(2) obtain r where "r \<in> set (relation_field_evidence e (resolved_evidence e (qualification_index_of s)))"
      by (meson last_in_set)
    with or_declared show ?thesis
      by (auto simp: backed_def relation_field_evidence_def list_ex_iff dest!: resolved_evidence_mem)
  next
    case or_upstream
    with o(3) have "repository_origin e (qualification_index_of s) \<noteq> None" by simp
    then obtain r where "dget (index_by repo_id (repository_records s)) (edge_source e) = Some r"
      by (auto simp: repository_origin_def qualification_index_of_def split: option.splits)
    then have "edge_source e \<in> repo_id ` set (repository_records s)" by (metis imageI index_by_Some)
    moreover have "edge_target e \<in> repo_id ` set (repository_records s)"
      using or_upstream assms(1,2)
      by (auto simp: repository_upstream_rule_def qualification_index_of_def split: if_splits)
        (metis imageI index_by_Some)
    ultimately show ?thesis by (simp add: or_upstream backed_def)
  next
    case or_owner
    with o(3) show ?thesis
      by (auto simp: repository_origin_def backed_def qualification_index_of_def list_ex_iff Let_def
          dest!: index_by_Some split: option.splits if_splits)
  next
    case or_capability
    with o(4) show ?thesis
      by (auto simp: capability_origin_def backed_def qualification_index_of_def list_ex_iff
          dest!: index_by_Some split: option.splits if_splits)
  next
    case or_artifact_capability
    with o(4) show ?thesis
      by (auto simp: capability_origin_def backed_def qualification_index_of_def list_ex_iff
          dest!: index_by_Some split: option.splits if_splits)
  next
    case or_containment
    with o(3) show ?thesis
      by (auto simp: repository_origin_def backed_def qualification_index_of_def list_ex_iff Let_def
          dest!: index_by_Some split: option.splits if_splits)
  qed (use assms(1) in simp_all)
qed


subsection \<open>What the projectors emit\<close>

lemma projection_edges:
  assumes "e \<in> set (proj_edges (project_claims sha repr claims))"
  shows "\<exists>c caps es ns. c \<in> set claims \<and> project_claim sha repr c = Some (caps, es, ns) \<and> e \<in> set es"
proof -
  have step: "(k, x) \<in> set (ps_edges (project_step sha repr c st)) \<Longrightarrow>
      (k, x) \<in> set (ps_edges st) \<or>
      (\<exists>caps es ns. project_claim sha repr c = Some (caps, es, ns) \<and> x \<in> set es)" for k x c st
    by (auto simp: project_step_def dest!: fill_entry split: option.splits)
  have "(k, x) \<in> set (ps_edges (fold (project_step sha repr) cs st)) \<Longrightarrow>
      (k, x) \<in> set (ps_edges st) \<or> (\<exists>c caps es ns. c \<in> set cs \<and>
        project_claim sha repr c = Some (caps, es, ns) \<and> x \<in> set es)" for k x cs st
  proof (induction cs arbitrary: st)
    case (Cons c cs)
    from Cons.prems have "(k, x) \<in> set (ps_edges (fold (project_step sha repr) cs (project_step sha repr c st)))"
      by simp
    from Cons.IH [OF this] step [of k x c st] show ?case by (elim disjE exE conjE) auto
  qed simp
  from this [where cs = "sort_key claim_id claims"] assms show ?thesis
    by (fastforce simp: project_claims_def Let_def)
qed

lemma work_projection_edges:
  assumes "e \<in> set (wp_edges (project_work_relations sha claims arts))"
  shows "\<exists>c ns us. c \<in> set claims \<and> work_outcome sha (work_target_index_build arts) c = Some (e, ns, us)"
proof -
  let ?ix = "work_target_index_build arts"
  have step: "(k, x) \<in> set (ws_edges (work_step sha ?ix c st)) \<Longrightarrow>
      (k, x) \<in> set (ws_edges st) \<or> (\<exists>ns us. work_outcome sha ?ix c = Some (x, ns, us))" for k x c st
    by (auto simp: work_step_def dest!: set_dput_entry split: option.splits)
  have "(k, x) \<in> set (ws_edges (fold (work_step sha ?ix) cs st)) \<Longrightarrow>
      (k, x) \<in> set (ws_edges st) \<or> (\<exists>c ns us. c \<in> set cs \<and> work_outcome sha ?ix c = Some (x, ns, us))"
    for k x cs st
  proof (induction cs arbitrary: st)
    case (Cons c cs)
    from Cons.prems have "(k, x) \<in> set (ws_edges (fold (work_step sha ?ix) cs (work_step sha ?ix c st)))"
      by simp
    from Cons.IH [OF this] step [of k x c st] show ?case by (elim disjE exE conjE) auto
  qed simp
  from this [where cs = "sort_key claim_id claims"] assms show ?thesis
    by (fastforce simp: project_work_relations_def Let_def)
qed

text \<open>The index finds the claim an edge names, stamped or not.\<close>

lemma stamped_claim:
  assumes "semantic_claims s = sort_key claim_id (apply_projection claims entities)"
    and "distinct (map claim_id claims)" and "c \<in> set claims"
    and "eligible_for_canonical_projection c"
    and "text_property str_of (edge_properties e) projected_from_claim_property = claim_id c"
  shows "claim_gate str_of e (qualification_index_of s) = None"
proof -
  let ?c = "c\<lparr>projected := dget entities (claim_id c) \<noteq> None,
    projected_entity_ids := dget_default [] entities (claim_id c)\<rparr>"
  have "?c \<in> set (semantic_claims s)" using assms(1,3) by (simp add: apply_projection_def)
  moreover have "distinct (map claim_id (semantic_claims s))"
    using assms(2) by (simp add: assms(1) apply_projection_def distinct_map comp_def inj_on_def)
      (metis (mono_tags, lifting) semantic_claim.select_convs(1) semantic_claim.surjective semantic_claim.update_convs(13,14))
  ultimately have "dget (index_by claim_id (semantic_claims s)) (claim_id ?c) = Some ?c"
    unfolding index_by_def using dict.lookup_fill_distinct [of claim_id _ ?c "\<lambda>c. c"] by blast
  then show ?thesis
    using assms(4,5) by (simp add: claim_gate_def qualification_index_of_def
        eligible_for_canonical_projection_def projection_ineligibility_def split: if_splits)
qed

lemma project_claim_eligible: "project_claim sha repr c = Some out \<Longrightarrow> eligible_for_canonical_projection c"
  by (auto simp: project_claim_def split: option.splits if_splits)

lemma claim_edge_form:
  assumes "project_claim sha repr c = Some (caps, es, ns)" and "e \<in> set es"
  obtains a b ty ek k v where "e = claim_edge sha a b ty c (claim_properties c @
      [(endpoint_kind_property, PStr ek), (k, PStr v)])"
    and "(ty, ek) \<in> set claim_projector_endpoint" and "k \<noteq> target_resolution_property"
    and "k \<noteq> endpoint_kind_property"
proof -
  have g: "(DEPENDS_ON, external_package_endpoint) \<in> set claim_projector_endpoint"
    "(GOVERNED_BY, ''declared-contract-reference'') \<in> set claim_projector_endpoint"
    "(SUPERSEDES, ''declared-repository-reference'') \<in> set claim_projector_endpoint"
    by (simp_all add: claim_projector_endpoint_def)
  have k: "''package_name'' \<noteq> target_resolution_property" "''contract_reference'' \<noteq> target_resolution_property"
    "''declared_by'' \<noteq> target_resolution_property" "''package_name'' \<noteq> endpoint_kind_property"
    "''contract_reference'' \<noteq> endpoint_kind_property" "''declared_by'' \<noteq> endpoint_kind_property"
    by (simp_all add: target_resolution_property_def endpoint_kind_property_def)
  show ?thesis
    using assms(1)
  proof (cases rule: project_claim_cases)
    case 1
    then show ?thesis using that [OF _ g(2) k(2,5)] assms(2) by (simp add: project_canonical_contract_def Let_def)
  next
    case 3
    then show ?thesis using that [OF _ g(1) k(1,4)] assms(2) by (simp add: project_dependency_def Let_def)
  next
    case 4
    then show ?thesis using that [OF _ g(3) k(3,6)] assms(2) by (simp add: project_replaced_by_def Let_def)
  qed (use assms(2) in \<open>simp_all add: project_http_route_def project_service_action_def\<close>)
qed

lemma claim_edge_facts:
  assumes "project_claim sha repr c = Some (caps, es, ns)" and "e \<in> set es"
  shows "relation_origin_of e ix = or_claim" and "edge_evidence_refs e = claim_evidence_refs c"
    and "text_property str_of (edge_properties e) projected_from_claim_property = claim_id c"
    and "get_value (edge_properties e) endpoint_kind_property =
      map_option PStr (dget claim_projector_endpoint (edge_type_of e))"
    and "\<exists>ks. dget admissible_origins (edge_type_of e) = Some ks \<and> or_claim \<in> set ks"
    and "dget (edge_properties e) target_resolution_property = None"
proof -
  obtain a b ty ek k v where e: "e = claim_edge sha a b ty c (claim_properties c @
      [(endpoint_kind_property, PStr ek), (k, PStr v)])"
    and t: "(ty, ek) \<in> set claim_projector_endpoint" and k: "k \<noteq> target_resolution_property"
      "k \<noteq> endpoint_kind_property"
    by (rule claim_edge_form [OF assms])
  have n: "dkeys (claim_properties c) = [projected_from_claim_property, ''assertion_predicate'', ''assertion_object'']"
    by (simp add: claim_properties_def projected_from_claim_property_def)
  have d: "target_resolution_property \<notin> set (dkeys (claim_properties c))"
    "endpoint_kind_property \<notin> set (dkeys (claim_properties c))"
    "target_resolution_property \<noteq> endpoint_kind_property"
    by (simp_all only: n) (simp_all add: target_resolution_property_def endpoint_kind_property_def
        projected_from_claim_property_def)
  have p: "edge_properties e = claim_properties c @ [(endpoint_kind_property, PStr ek), (k, PStr v)]"
    "edge_evidence_refs e = claim_evidence_refs c" "edge_type_of e = ty"
    by (simp_all add: e claim_edge_def)
  have keys: "set (dkeys (edge_properties e)) = set (dkeys (claim_properties c)) \<union> {endpoint_kind_property, k}"
    by (auto simp: p(1))
  show tr: "dget (edge_properties e) target_resolution_property = None"
    using d k by (simp add: map_of_eq_None_iff keys [simplified])
  have "projected_from_claim_property \<in> set (dkeys (edge_properties e))"
    unfolding keys n by simp
  then show "relation_origin_of e ix = or_claim"
    using tr keys by (simp add: relation_origin_of_def recorded_origin_def Let_def map_of_eq_None_iff)
  show "edge_evidence_refs e = claim_evidence_refs c" by (rule p(2))
  show "text_property str_of (edge_properties e) projected_from_claim_property = claim_id c"
    by (simp add: p(1) text_property_def claim_properties_def projected_from_claim_property_def)
  have "dget (claim_properties c) endpoint_kind_property = None"
    using d(2) by (simp add: map_of_eq_None_iff)
  then have "get_value (edge_properties e) endpoint_kind_property = Some (PStr ek)"
    by (simp add: p(1) get_value_def map_add_def)
  moreover have "dget claim_projector_endpoint ty = Some ek"
    using t by (auto simp: claim_projector_endpoint_def)
  ultimately show "get_value (edge_properties e) endpoint_kind_property =
      map_option PStr (dget claim_projector_endpoint (edge_type_of e))" by (simp add: p(3))
  show "\<exists>ks. dget admissible_origins (edge_type_of e) = Some ks \<and> or_claim \<in> set ks"
    using t by (auto simp: p(3) claim_projector_endpoint_def admissible_origins_def)
qed

lemma work_edge_facts:
  assumes "work_outcome sha ix c = Some (e, ns, us)"
  shows "relation_origin_of e qx = or_work" and "edge_evidence_refs e = claim_evidence_refs c"
    and "text_property str_of (edge_properties e) projected_from_claim_property = claim_id c"
    and "\<exists>ks. dget admissible_origins (edge_type_of e) = Some ks \<and> or_work \<in> set ks"
    and "eligible_for_canonical_projection c"
    and "dget (edge_properties e) target_resolution_property \<noteq> None"
proof -
  obtain t ty rv res where e: "e = relation_edge sha c t ty rv res"
      "dget work_edge_projections (claim_predicate c) = Some (ty, rv)"
    using assms by (auto simp: work_outcome_def Let_def split: option.splits if_splits prod.splits)
  have p: "edge_properties e = claim_properties c @ [(target_resolution_property, PStr res),
      (''declared_by'', PStr (claim_subject c))]" "edge_evidence_refs e = claim_evidence_refs c"
      "edge_type_of e = ty"
    by (simp_all add: e relation_edge_def claim_edge_def Let_def split: prod.split)
  show "relation_origin_of e qx = or_work"
    by (simp add: relation_origin_of_def recorded_origin_def p)
  show "edge_evidence_refs e = claim_evidence_refs c" by (rule p(2))
  show "text_property str_of (edge_properties e) projected_from_claim_property = claim_id c"
    by (simp add: p text_property_def claim_properties_def projected_from_claim_property_def)
  have "(ty, rv) \<in> snd ` set work_edge_projections" using map_of_SomeD [OF e(2)] by force
  then show "\<exists>ks. dget admissible_origins (edge_type_of e) = Some ks \<and> or_work \<in> set ks"
    by (auto simp: p work_edge_projections_def admissible_origins_def)
  show "eligible_for_canonical_projection c"
    using assms by (auto simp: work_outcome_def split: option.splits if_splits)
  show "dget (edge_properties e) target_resolution_property \<noteq> None"
    by (simp add: p claim_properties_def target_resolution_property_def)
qed

lemma evidence_resolves:
  assumes "list_ex (\<lambda>r. evidence_id r \<in> set (edge_evidence_refs e)) (state_evidence s)"
  shows "resolved_evidence e (qualification_index_of s) \<noteq> []"
proof -
  obtain r where r: "r \<in> set (state_evidence s)" "evidence_id r \<in> set (edge_evidence_refs e)"
    using assms by (auto simp: list_ex_iff)
  then have "evidence_id r \<in> fst ` set (index_by evidence_id (state_evidence s))"
    by (simp add: keys_index_by)
  then obtain x where "dget (index_by evidence_id (state_evidence s)) (evidence_id r) = Some x"
    by (metis map_of_eq_None_iff option.exhaust)
  with r(2) have "x \<in> set (resolved_evidence e (qualification_index_of s))"
    by (auto simp: resolved_evidence_def qualification_index_of_def map_filter_set)
  then show ?thesis by (auto dest: length_pos_if_in_set)
qed


subsection \<open>A sample state\<close>

definition sample_evidence_record :: "ident \<Rightarrow> evidence_record" where
  "sample_evidence_record k =
     \<lparr>evidence_id = k, ev_subject_id = ''repo:a'', ev_field = None, stage = ''s'',
      evidence_class = class_observed, source_type = type_file,
      source_ref = \<lparr>uri = None, source_path = Some ''a.py'', line_number = Some 1,
        content_hash = None, ref_packet_id = None, ref_source_revision = None, locator = None\<rparr>,
      ev_value = PNone, ev_confidence = confidence_unknown, producer = ''p'',
      producer_version = ''1'', created_at = ''t''\<rparr>"

definition sample_owned_artifact :: artifact_record where
  "sample_owned_artifact =
     \<lparr>art_id = ''artifact:1'', art_repository_id = ''repo:a'', art_source_path = ''a.py'',
      art_type = ''source'', art_family = None, art_content_hash = ''h'', art_body_hash = None,
      art_capabilities = [], art_dependencies = [], art_evidence_refs = [],
      art_packet_ref = ''packet:1'', art_confidence = confidence_unknown\<rparr>"

definition sample_state :: "semantic_claim list \<Rightarrow> topology_state" where
  "sample_state claims =
     \<lparr>repository_records = [sample_repository ''repo:a'' []],
      artifact_records = [sample_owned_artifact], capability_records = [],
      semantic_claims = claims, edge_records = [], flow_records = [], graph_records = [],
      risks = [], maturity = [], impact_indexes = [], corpus_records = [], root_records = [],
      candidate_relations = [], candidate_clusters = [], readiness_evidence = [],
      reasoning_candidates = [], state_evidence = [sample_evidence_record ''e1''],
      diagnostics = [], unknowns = [], conflicts = []\<rparr>"

definition sample_containment :: edge_record where
  "sample_containment =
     \<lparr>edge_id = ''edge:1'', edge_source = ''repo:a'', edge_target = ''artifact:1'',
      edge_type_of = CONTAINS, edge_direction = outbound, edge_properties = [],
      edge_evidence_refs = [''e1''], edge_confidence = confidence_unknown\<rparr>"



end
