(* ===== verification/PublicationPolicy.thy ===== *)
theory PublicationPolicy
  imports PredicatePolicy CorpusDomain Aggregate
begin

text \<open>
  The publication policy (\<open>publication/policy.py\<close>), its vocabulary (\<open>publication/contracts.py\<close>)
  and the identities of facts, writes and plans (\<open>publication/identity.py\<close>). Confidence scores
  are finite doubles; \<open>num\<close> is the JSON number of one.
\<close>

subsection \<open>Vocabulary\<close>

datatype memory_class =
    mem_identity | mem_preference | mem_constraint | mem_decision | mem_episodic | mem_semantic
  | mem_procedural | mem_observation | mem_insight | mem_meta

fun memory_class_value :: "memory_class \<Rightarrow> string" where
  "memory_class_value mem_identity = ''identity''"
| "memory_class_value mem_preference = ''preference''"
| "memory_class_value mem_constraint = ''constraint''"
| "memory_class_value mem_decision = ''decision''"
| "memory_class_value mem_episodic = ''episodic''"
| "memory_class_value mem_semantic = ''semantic''"
| "memory_class_value mem_procedural = ''procedural''"
| "memory_class_value mem_observation = ''observation''"
| "memory_class_value mem_insight = ''insight''"
| "memory_class_value mem_meta = ''meta''"

datatype evidence_kind =
    ek_explicit | ek_source_excerpt | ek_test | ek_observation | ek_inference | ek_aggregation
  | ek_governance

fun evidence_kind_value :: "evidence_kind \<Rightarrow> string" where
  "evidence_kind_value ek_explicit = ''explicit''"
| "evidence_kind_value ek_source_excerpt = ''source_excerpt''"
| "evidence_kind_value ek_test = ''test''"
| "evidence_kind_value ek_observation = ''observation''"
| "evidence_kind_value ek_inference = ''inference''"
| "evidence_kind_value ek_aggregation = ''aggregation''"
| "evidence_kind_value ek_governance = ''governance_approval''"

datatype confidence_method = cm_explicit | cm_extracted | cm_inferred | cm_aggregated | cm_calibrated

fun confidence_method_value :: "confidence_method \<Rightarrow> string" where
  "confidence_method_value cm_explicit = ''explicit''"
| "confidence_method_value cm_extracted = ''extracted''"
| "confidence_method_value cm_inferred = ''inferred''"
| "confidence_method_value cm_aggregated = ''aggregated''"
| "confidence_method_value cm_calibrated = ''calibrated''"

datatype candidate_kind = kind_entity | kind_relationship | kind_claim

fun candidate_kind_value :: "candidate_kind \<Rightarrow> string" where
  "candidate_kind_value kind_entity = ''entity''"
| "candidate_kind_value kind_relationship = ''relationship''"
| "candidate_kind_value kind_claim = ''claim''"

definition derivation_evidence_kinds :: "evidence_kind list" where
  "derivation_evidence_kinds = [ek_inference, ek_aggregation, ek_source_excerpt]"

definition evidence_requiring_methods :: "confidence_method list" where
  "evidence_requiring_methods = [cm_inferred, cm_aggregated]"

definition lowering_contract_version :: string where
  "lowering_contract_version = ''lowering/v2''"

definition memory_ingest_operation :: string where
  "memory_ingest_operation = ''memory.ingest''"

subsection \<open>The policy\<close>

record publication_policy =
  pol_id :: string
  pol_version :: string
  pol_namespace_root :: string
  pol_entity_kinds :: "string list"
  pol_edge_types :: "string list"
  pol_entity_class :: memory_class
  pol_relationship_class :: memory_class
  pol_claim_class :: memory_class
  pol_score_by_level :: "(string, score) dict"
  pol_conflict_ceiling :: "(string, score) dict"
  pol_method_by_derivation :: "(string, confidence_method) dict"
  pol_kind_by_class :: "(string, evidence_kind) dict"
  pol_trust :: "(string, score) dict"
  pol_require_validated :: bool
  pol_require_lineage :: bool
  pol_hold_conflict :: bool
  pol_hold_unknown :: bool
  pol_hold_missing_evidence :: bool
  pol_hold_unsupported :: bool
  pol_maximum_refs :: nat
  pol_strict :: bool
  pol_selective :: bool
  pol_claim_predicates :: "string list"
  pol_declaration_predicates :: "string list"

datatype policy_error =
    selection_ignored
  | predicates_repeated "string list"
  | predicates_unknown "string list"
  | declaration_only_listed "string list"
  | not_declaration_only "string list"

definition claim_selection_is_explicit :: "publication_policy \<Rightarrow> policy_error option" where
  "claim_selection_is_explicit p =
     (let selected = pol_claim_predicates p @ pol_declaration_predicates p;
          twice = usort (filter (\<lambda>x. 1 < count_list selected x) selected);
          undeclared = usort (filter (\<lambda>x. x \<notin> set supported_predicates) selected);
          metadata = usort (filter (\<lambda>x. x \<in> set declaration_only_predicates) (pol_claim_predicates p));
          plain = usort (filter (\<lambda>x. x \<notin> set declaration_only_predicates)
            (pol_declaration_predicates p)) in
      if \<not> pol_selective p \<and> selected \<noteq> [] then Some selection_ignored
      else if twice \<noteq> [] then Some (predicates_repeated twice)
      else if undeclared \<noteq> [] then Some (predicates_unknown undeclared)
      else if metadata \<noteq> [] then Some (declaration_only_listed metadata)
      else if plain \<noteq> [] then Some (not_declaration_only plain)
      else None)"

definition policy_identity :: "publication_policy \<Rightarrow> string" where
  "policy_identity p = pol_id p @ ''/'' @ pol_version p"

definition confidence_policy_version :: "publication_policy \<Rightarrow> string" where
  "confidence_policy_version p = ''l9-topology-publication/'' @ pol_version p"

definition claim_predicate_selection :: "publication_policy \<Rightarrow> string \<Rightarrow> bool option" where
  "claim_predicate_selection p predicate =
     (if \<not> pol_selective p then Some True
      else if predicate \<notin> set supported_predicates then None
      else if predicate \<in> set declaration_only_predicates
      then Some (predicate \<in> set (pol_declaration_predicates p))
      else Some (predicate \<in> set (pol_claim_predicates p)))"

definition str_values :: "string list \<Rightarrow> pyval" where
  "str_values xs = PSeq (map PStr xs)"

definition dict_values :: "('v \<Rightarrow> pyval) \<Rightarrow> (string, 'v) dict \<Rightarrow> pyval" where
  "dict_values f d = PDict (map (\<lambda>(k, v). (k, f v)) d)"

definition qualification_fields :: "publication_policy \<Rightarrow> (string, pyval) dict" where
  "qualification_fields p =
     [(''relation_qualification'', PStr (if pol_strict p then ''strict'' else ''legacy'')),
      (''claim_publication'', PStr (if pol_selective p then ''selective'' else ''all'')),
      (''eligible_claim_predicates'', str_values (pol_claim_predicates p)),
      (''declaration_only_claim_predicates'', str_values (pol_declaration_predicates p))]"

definition pre_qualification_defaults :: "(string, pyval) dict" where
  "pre_qualification_defaults =
     [(''relation_qualification'', PStr ''legacy''), (''claim_publication'', PStr ''all''),
      (''eligible_claim_predicates'', PSeq []), (''declaration_only_claim_predicates'', PSeq [])]"

definition policy_raw :: "(score \<Rightarrow> pyval) \<Rightarrow> publication_policy \<Rightarrow> pyval" where
  "policy_raw num p = PDict
     ([(''id'', PStr (pol_id p)), (''version'', PStr (pol_version p)),
       (''namespace_root'', PStr (pol_namespace_root p)),
       (''eligible_entity_kinds'', str_values (pol_entity_kinds p)),
       (''eligible_edge_types'', str_values (pol_edge_types p)),
       (''entity_memory_class'', PStr (memory_class_value (pol_entity_class p))),
       (''relationship_memory_class'', PStr (memory_class_value (pol_relationship_class p))),
       (''claim_memory_class'', PStr (memory_class_value (pol_claim_class p))),
       (''confidence_score_by_level'', dict_values num (pol_score_by_level p)),
       (''confidence_conflict_ceiling'', dict_values num (pol_conflict_ceiling p)),
       (''confidence_method_by_derivation'',
          dict_values (\<lambda>m. PStr (confidence_method_value m)) (pol_method_by_derivation p)),
       (''evidence_kind_by_class'',
          dict_values (\<lambda>k. PStr (evidence_kind_value k)) (pol_kind_by_class p)),
       (''source_trust_by_authority'', dict_values num (pol_trust p)),
       (''require_validated_topology'', PBool (pol_require_validated p)),
       (''require_resolved_lineage'', PBool (pol_require_lineage p)),
       (''hold_on_material_conflict'', PBool (pol_hold_conflict p)),
       (''hold_on_material_unknown'', PBool (pol_hold_unknown p)),
       (''hold_on_missing_required_evidence'', PBool (pol_hold_missing_evidence p)),
       (''hold_on_unsupported_predicate'', PBool (pol_hold_unsupported p)),
       (''maximum_evidence_refs_per_candidate'', PInt (int (pol_maximum_refs p)))] @
      (if qualification_fields p = pre_qualification_defaults then [] else qualification_fields p))"

definition policy_hash :: "(string \<Rightarrow> string) \<Rightarrow> (score \<Rightarrow> pyval) \<Rightarrow> publication_policy \<Rightarrow> string" where
  "policy_hash sha num p = semantic_hash sha (policy_raw num p)"

subsection \<open>Identities\<close>

definition volatile_publication_fields :: "string list" where
  "volatile_publication_fields =
     [''calibrated_at'', ''observed_at'', ''published_at'', ''source_observed_at'',
      ''transformed_at'', ''valid_from'', ''plan_id'']"

definition publication_excluded_fields :: "string list" where
  "publication_excluded_fields = default_excluded @ volatile_publication_fields"

definition publication_semantic_hash :: "(string \<Rightarrow> string) \<Rightarrow> pyval \<Rightarrow> string" where
  "publication_semantic_hash sha v = semantic_hash_excluding sha (Some publication_excluded_fields) v"

text \<open>\<open>str.strip()\<close> on the 8-bit characters, and the pattern of a bare digest.\<close>

definition py_space :: "char \<Rightarrow> bool" where
  "py_space c \<longleftrightarrow> (let n = (of_char c :: nat) in
     n \<in> {9..13} \<union> {28..31} \<or> n = 32 \<or> n = 133 \<or> n = 160)"

definition py_strip :: "string \<Rightarrow> string" where
  "py_strip s = rev (dropWhile py_space (rev (dropWhile py_space s)))"

definition hex_digit :: "char \<Rightarrow> bool" where
  "hex_digit c \<longleftrightarrow> c \<in> set ''0123456789abcdef''"

definition bare_digest :: "string option \<Rightarrow> string option" where
  "bare_digest v = (case v of
       None \<Rightarrow> None
     | Some s \<Rightarrow>
         (let d = str_lower (py_strip (removeprefix s sha_prefix)) in
          if length d = 64 \<and> list_all hex_digit d then Some d else None))"

type_synonym memory_assertion = "string \<times> string \<times> string"

definition assertion_dict :: "memory_assertion \<Rightarrow> pyval" where
  "assertion_dict a = (case a of (s, p, ob) \<Rightarrow>
     PDict [(''subject'', PStr s), (''predicate'', PStr p), (''object'', PStr ob)])"

record publication_fact =
  fact_kind :: candidate_kind
  fact_namespace :: string
  fact_class :: memory_class
  fact_content :: string
  fact_assertion :: "memory_assertion option"
  fact_entities :: "ident list"

definition candidate_identity :: "publication_fact \<Rightarrow> pyval" where
  "candidate_identity f = PDict
     [(''operation'', PStr memory_ingest_operation),
      (''candidate_kind'', PStr (candidate_kind_value (fact_kind f))),
      (''namespace'', PStr (fact_namespace f)),
      (''memory_class'', PStr (memory_class_value (fact_class f))),
      (''content'', PStr (fact_content f)),
      (''assertion'', py_opt assertion_dict (fact_assertion f)),
      (''source_topology_entity_ids'', str_values (fact_entities f))]"

definition candidate_id :: "(string \<Rightarrow> string) \<Rightarrow> publication_fact \<Rightarrow> ident" where
  "candidate_id sha f = ''publication-candidate:'' @
     removeprefix (publication_semantic_hash sha (candidate_identity f)) sha_prefix"

record confidence_claim =
  cf_score :: score
  cf_method :: confidence_method
  cf_count :: nat
  cf_policy_version :: string

definition confidence_semantics :: "(score \<Rightarrow> pyval) \<Rightarrow> confidence_claim \<Rightarrow> pyval" where
  "confidence_semantics num c = PDict
     [(''score'', num (cf_score c)), (''method'', PStr (confidence_method_value (cf_method c))),
      (''evidence_count'', PInt (int (cf_count c))),
      (''confidence_policy_version'', PStr (cf_policy_version c))]"

type_synonym evidence_support = "evidence_kind \<times> string option \<times> string option"

definition evidence_semantics :: "evidence_support \<Rightarrow> pyval" where
  "evidence_semantics s = (case s of (k, d, l) \<Rightarrow> PDict
     [(''evidence_kind'', PStr (evidence_kind_value k)),
      (''source_content_digest'', py_opt PStr d), (''stable_source_locator'', py_opt PStr l)])"

definition effect_identity ::
  "(string \<Rightarrow> string) \<Rightarrow> (score \<Rightarrow> pyval) \<Rightarrow> publication_fact \<Rightarrow> string \<Rightarrow> evidence_support list \<Rightarrow>
   confidence_claim \<Rightarrow> evidence_kind option \<Rightarrow> pyval" where
  "effect_identity sha num f contract support conf derivation = PDict
     [(''domain'', PStr ''l9.memory-effect-id/v3''), (''candidate_id'', PStr (candidate_id sha f)),
      (''lowering_contract_version'', PStr contract),
      (''local_evidence_semantics'', PSeq (sort_key (publication_semantic_hash sha)
         (map evidence_semantics support))),
      (''derivation_kind'', py_opt (\<lambda>k. PStr (evidence_kind_value k)) derivation),
      (''confidence_semantics'', confidence_semantics num conf)]"

definition idempotency_key ::
  "(string \<Rightarrow> string) \<Rightarrow> (score \<Rightarrow> pyval) \<Rightarrow> publication_fact \<Rightarrow> string \<Rightarrow> evidence_support list \<Rightarrow>
   confidence_claim \<Rightarrow> evidence_kind option \<Rightarrow> string" where
  "idempotency_key sha num f contract support conf derivation =
     ''l9-topology-publication/v3:'' @ removeprefix (publication_semantic_hash sha
       (effect_identity sha num f contract support conf derivation)) sha_prefix"

definition publication_plan_id :: "string \<Rightarrow> ident" where
  "publication_plan_id digest = ''publication-plan:'' @ removeprefix digest sha_prefix"

subsection \<open>What the identities identify\<close>

definition published :: "pyval \<Rightarrow> json" where
  "published v = strip_data publication_excluded_fields (canonical_data v)"

lemma excluded_publication: "excluded_or_default (Some publication_excluded_fields) = publication_excluded_fields"
  by (simp add: excluded_or_default_def publication_excluded_fields_def default_excluded_def)

lemma publication_hash_eq:
  assumes "inj sha" and "wf_py v" and "wf_py w"
  shows "publication_semantic_hash sha v = publication_semantic_hash sha w \<longleftrightarrow> published v = published w"
  using semantic_bytes_eq_iff [OF assms(2,3), of "Some publication_excluded_fields"] assms(1)
  by (simp add: publication_semantic_hash_def semantic_hash_bytes sha256_bytes_def excluded_publication
      published_def inj_eq)

lemma removeprefix_hash:
  "removeprefix (publication_semantic_hash sha v) sha_prefix =
     removeprefix (publication_semantic_hash sha w) sha_prefix \<longleftrightarrow>
   publication_semantic_hash sha v = publication_semantic_hash sha w"
  by (simp add: publication_semantic_hash_def semantic_hash_bytes sha256_bytes_def removeprefix_def)

lemma value_inj:
  "memory_class_value m = memory_class_value m' \<longleftrightarrow> m = m'"
  "evidence_kind_value k = evidence_kind_value k' \<longleftrightarrow> k = k'"
  "confidence_method_value c = confidence_method_value c' \<longleftrightarrow> c = c'"
  "candidate_kind_value t = candidate_kind_value t' \<longleftrightarrow> t = t'"
proof -
  show "memory_class_value m = memory_class_value m' \<longleftrightarrow> m = m'" by (cases m; cases m') simp_all
  show "evidence_kind_value k = evidence_kind_value k' \<longleftrightarrow> k = k'" by (cases k; cases k') simp_all
  show "confidence_method_value c = confidence_method_value c' \<longleftrightarrow> c = c'" by (cases c; cases c') simp_all
  show "candidate_kind_value t = candidate_kind_value t' \<longleftrightarrow> t = t'" by (cases t; cases t') simp_all
qed

lemma wf_str_values [simp]: "wf_py (str_values xs)"
  by (simp add: str_values_def list_all_iff)

lemma wf_candidate_identity: "wf_py (candidate_identity f)"
  by (auto simp: candidate_identity_def assertion_dict_def pred_option_def split: prod.split)

lemma published_opt_str:
  "published (py_opt PStr a) = published (py_opt PStr b) \<longleftrightarrow> a = b"
  unfolding published_def by (rule strip_py_opt_str)

lemma published_assertion:
  "published (py_opt assertion_dict a) = published (py_opt assertion_dict b) \<longleftrightarrow> a = b"
  by (cases a; cases b)
    (auto simp: py_opt_def assertion_dict_def published_def publication_excluded_fields_def
      default_excluded_def volatile_publication_fields_def split: prod.splits)

lemma published_strs: "published (str_values xs) = published (str_values ys) \<longleftrightarrow> xs = ys"
proof -
  have "inj JStr" by (simp add: inj_def)
  then show ?thesis by (simp add: str_values_def published_def comp_def inj_map_eq_map)
qed

lemma published_candidate_identity:
  "published (candidate_identity f) = JObj
     [(''assertion'', published (py_opt assertion_dict (fact_assertion f))),
      (''candidate_kind'', JStr (candidate_kind_value (fact_kind f))),
      (''content'', JStr (fact_content f)),
      (''memory_class'', JStr (memory_class_value (fact_class f))),
      (''namespace'', JStr (fact_namespace f)),
      (''operation'', JStr memory_ingest_operation),
      (''source_topology_entity_ids'', published (str_values (fact_entities f)))]"
  by (simp add: published_def candidate_identity_def publication_excluded_fields_def
      default_excluded_def volatile_publication_fields_def)

lemma candidate_id_eq:
  assumes "inj sha"
  shows "candidate_id sha f = candidate_id sha g \<longleftrightarrow> f = g"
  using publication_hash_eq [OF assms wf_candidate_identity wf_candidate_identity, of f g]
  by (auto simp: candidate_id_def removeprefix_hash published_candidate_identity published_assertion
      published_strs value_inj)

lemma wf_evidence_semantics: "wf_py (evidence_semantics s)"
  by (auto simp: evidence_semantics_def pred_option_def split: prod.split)

lemma published_evidence_semantics:
  "published (evidence_semantics s) = published (evidence_semantics t) \<longleftrightarrow> s = t"
proof -
  have "published (evidence_semantics (k, d, l)) = JObj
     [(''evidence_kind'', JStr (evidence_kind_value k)),
      (''source_content_digest'', published (py_opt PStr d)),
      (''stable_source_locator'', published (py_opt PStr l))]" for k d l
    by (simp add: published_def evidence_semantics_def publication_excluded_fields_def
        default_excluded_def volatile_publication_fields_def)
  then show ?thesis by (cases s; cases t) (simp add: value_inj published_opt_str)
qed

lemma support_order:
  assumes "inj sha"
  shows "map published (sort_key (publication_semantic_hash sha) (map evidence_semantics xs)) =
      map published (sort_key (publication_semantic_hash sha) (map evidence_semantics ys)) \<longleftrightarrow>
    mset xs = mset ys"
proof
  assume "map published (sort_key (publication_semantic_hash sha) (map evidence_semantics xs)) =
      map published (sort_key (publication_semantic_hash sha) (map evidence_semantics ys))"
  then have "mset (map published (sort_key (publication_semantic_hash sha) (map evidence_semantics xs))) =
      mset (map published (sort_key (publication_semantic_hash sha) (map evidence_semantics ys)))" by simp
  then have "image_mset (\<lambda>s. published (evidence_semantics s)) (mset xs) =
      image_mset (\<lambda>s. published (evidence_semantics s)) (mset ys)"
    by (simp add: multiset.map_comp comp_def)
  then show "mset xs = mset ys"
    using injD [OF multiset.inj_map [of "\<lambda>s. published (evidence_semantics s)"]]
    by (simp add: inj_def published_evidence_semantics)
next
  assume m: "mset xs = mset ys"
  have "inj_on (publication_semantic_hash sha) (set (map evidence_semantics xs))"
    using publication_hash_eq [OF assms wf_evidence_semantics wf_evidence_semantics]
    by (auto intro!: inj_onI simp: published_evidence_semantics)
  then have "sort_key (publication_semantic_hash sha) (map evidence_semantics xs) =
      sort_key (publication_semantic_hash sha) (map evidence_semantics ys)"
    using m by (intro sort_key_inj_key_eq) simp_all
  then show "map published (sort_key (publication_semantic_hash sha) (map evidence_semantics xs)) =
      map published (sort_key (publication_semantic_hash sha) (map evidence_semantics ys))" by simp
qed

lemma wf_effect_identity:
  assumes "\<And>q. wf_py (num q)"
  shows "wf_py (effect_identity sha num f contract support conf derivation)"
  using assms
  by (auto simp: effect_identity_def confidence_semantics_def list_all_iff pred_option_def
      wf_evidence_semantics)

lemma published_effect_identity:
  "published (effect_identity sha num f contract support conf derivation) = JObj
     [(''candidate_id'', JStr (candidate_id sha f)),
      (''confidence_semantics'', JObj
         [(''confidence_policy_version'', JStr (cf_policy_version conf)),
          (''evidence_count'', JInt (int (cf_count conf))),
          (''method'', JStr (confidence_method_value (cf_method conf))),
          (''score'', published (num (cf_score conf)))]),
      (''derivation_kind'', published (py_opt (\<lambda>k. PStr (evidence_kind_value k)) derivation)),
      (''domain'', JStr ''l9.memory-effect-id/v3''),
      (''local_evidence_semantics'', JArr (map published
         (sort_key (publication_semantic_hash sha) (map evidence_semantics support)))),
      (''lowering_contract_version'', JStr contract)]"
  by (simp add: published_def effect_identity_def confidence_semantics_def
      publication_excluded_fields_def default_excluded_def volatile_publication_fields_def comp_def)

lemma published_kind:
  "published (py_opt (\<lambda>k. PStr (evidence_kind_value k)) a) =
     published (py_opt (\<lambda>k. PStr (evidence_kind_value k)) b) \<longleftrightarrow> a = b"
  by (cases a; cases b) (auto simp: py_opt_def published_def value_inj)

text \<open>
  C20: The idempotency key names the exact write. Under a digest without collisions two writes
  carry one key exactly when they state the same fact under the same lowering contract, rest on
  the same local evidence in whatever order it was resolved, were derived alike and claim the
  same confidence, its score compared by the JSON number it is written as.
\<close>
theorem idempotency_key_exact:
  assumes "inj sha" and "\<And>q. wf_py (num q)"
  shows "idempotency_key sha num f contract support conf derivation =
      idempotency_key sha num f' contract' support' conf' derivation' \<longleftrightarrow>
    f = f' \<and> contract = contract' \<and> mset support = mset support' \<and>
    derivation = derivation' \<and> published (num (cf_score conf)) = published (num (cf_score conf')) \<and>
    cf_method conf = cf_method conf' \<and> cf_count conf = cf_count conf' \<and>
    cf_policy_version conf = cf_policy_version conf'" (is "_ \<longleftrightarrow> ?rhs")
proof -
  let ?e = "effect_identity sha num f contract support conf derivation"
  let ?e' = "effect_identity sha num f' contract' support' conf' derivation'"
  have "idempotency_key sha num f contract support conf derivation =
      idempotency_key sha num f' contract' support' conf' derivation' \<longleftrightarrow> published ?e = published ?e'"
    by (simp add: idempotency_key_def removeprefix_hash
        publication_hash_eq [OF assms(1) wf_effect_identity [OF assms(2)] wf_effect_identity [OF assms(2)]])
  also have "\<dots> \<longleftrightarrow> ?rhs"
    by (auto simp: published_effect_identity candidate_id_eq [OF assms(1)] support_order [OF assms(1)]
        published_kind value_inj)
  finally show ?thesis .
qed

definition sample_fact :: "string \<Rightarrow> publication_fact" where
  "sample_fact s =
     \<lparr>fact_kind = kind_entity, fact_namespace = ''ns/a'', fact_class = mem_semantic, fact_content = s,
      fact_assertion = None, fact_entities = [''repo:a'']\<rparr>"

definition sample_confidence :: "score \<Rightarrow> confidence_claim" where
  "sample_confidence q =
     \<lparr>cf_score = q, cf_method = cm_extracted, cf_count = 1, cf_policy_version = ''v''\<rparr>"

text \<open>A recalibrated score is another write; a different order of the evidence is not.\<close>

theorem idempotency_key_exact_witness:
  "\<exists>num. idempotency_key id num (sample_fact ''x'') ''lowering/v2''
       [(ek_test, None, Some ''a''), (ek_test, None, Some ''b'')] (sample_confidence (1, 1)) None =
     idempotency_key id num (sample_fact ''x'') ''lowering/v2''
       [(ek_test, None, Some ''b''), (ek_test, None, Some ''a'')] (sample_confidence (1, 1)) None \<and>
     idempotency_key id num (sample_fact ''x'') ''lowering/v2'' [] (sample_confidence (1, 1)) None \<noteq>
     idempotency_key id num (sample_fact ''x'') ''lowering/v2'' [] (sample_confidence (3, 2)) None"
proof -
  let ?num = "\<lambda>q :: score. PSeq [PInt (fst q), PInt (int (snd q))]"
  show ?thesis
    by (intro exI [of _ ?num])
      (simp add: idempotency_key_exact sample_confidence_def published_def add_mset_commute)
qed

end
