(* ===== verification/Spec2Isabelle.thy ===== *)
theory Spec2Isabelle
  imports BridgeGaps Bundle StageRunner ClaimView Qualification PublicationPolicy
    ReasoningRouter Assessment Payloads
begin

text \<open>
  A verification development for the L9 constellation topology compiler
  (\<open>src/l9_constellation_topology\<close>). The compiler ingests repository and corpus packets,
  reconciles what their producers state, aggregates repositories and capabilities, builds one
  canonical graph, projects claims into it, assesses it and writes the result through a
  controlled sink. Every component is a shallow embedding: records for the pydantic models,
  functions for the pure stages, state passing for the stateful sinks, option and sum types for
  what the code refuses.

  Conventions. A Python dictionary is an association list in insertion order (\<open>dput\<close> replaces in
  place or appends, as Python does), \<open>tuple(sorted(set(xs)))\<close> is \<open>usort\<close>, a stable \<open>sorted\<close> with
  a key is \<open>sort_key\<close>, strings are character lists over the 8-bit characters. SHA-256 is the
  parameter \<open>sha\<close> of every definition that hashes; a fact that needs it not to collide says so,
  for the values at hand or as the idealization \<open>inj sha\<close>. Lowering and raising of case is that of ASCII.

  The theories, in the order the code uses them:

  \<^item> \<open>Prelude\<close>: sorted tuples, the \<open>keyed_store\<close> interface with its interpretation on
    dictionaries, grouping and indexing of records.
  \<^item> \<open>Confidence\<close> (\<open>domain/confidence.py\<close>): the graded vocabularies, their rank orders as
    \<open>linorder\<close> instances, and the weakest of several grades.
  \<^item> \<open>Canonical\<close> (\<open>run/evidence.py\<close>): canonical data, JSON serialization, field stripping,
    semantic hashes, stable identities. The lemmas show that the serialization is injective on
    canonical data, so equal hashes mean equal data unless the digest collides.
  \<^item> \<open>Evidence\<close> (\<open>run/evidence.py\<close>): source paths, locators, source references, evidence
    identity.
  \<^item> \<open>Domain\<close> (\<open>domain/\<close>): the records of the canonical state and their validators.
  \<^item> \<open>CorpusDomain\<close> (\<open>domain/corpus.py\<close>, \<open>candidate.py\<close>, \<open>readiness.py\<close>, \<open>reasoning.py\<close>,
    \<open>topology.py\<close>) and \<open>Packets\<close> (\<open>packets/common.py\<close>, \<open>refs.py\<close>, \<open>repository_model.py\<close>,
    \<open>corpus_intelligence.py\<close>): the corpus records, the topology state, the two input packets and
    the validators their models declare.
  \<^item> \<open>CorpusValidator\<close> (\<open>packets/corpus_validator.py\<close>): referential integrity of a corpus packet
    against the packets it analyses; acceptance is characterized.
  \<^item> \<open>PacketEvidence\<close> (\<open>packets/assertion_evidence.py\<close>, \<open>document_signal_evidence.py\<close>,
    \<open>corpus_evidence.py\<close>): the evidence records every statement, duplicate, root and corpus gets.
  \<^item> \<open>Cardinality\<close> (\<open>cardinality.py\<close>, \<open>reconciliation/cardinality.py\<close>) and \<open>Predicates\<close>
    (\<open>reconciliation/predicates.py\<close>): the two field contracts and the predicate registry.
  \<^item> \<open>ReconcileEvidence\<close> (\<open>stages/reconcile_evidence.py\<close>, \<open>stages/derive_unknowns.py\<close>) and
    \<open>ReconcileAssertions\<close> (\<open>stages/reconcile_assertions.py\<close>): divergent evidence, and claims with
    their conflicts, unknowns and diagnostics. The lemmas give conservation of statements, exact
    conflicts, downward-only grading and independence of the order of arrival.
  \<^item> \<open>Aggregate\<close> (\<open>stages/aggregate_*.py\<close>, \<open>topology/capability_builder.py\<close>): merging by identity
    and resolution of dependency names.
  \<^item> \<open>GraphBuilder\<close> (\<open>topology/graph_builder.py\<close>, \<open>flow_builder.py\<close>, \<open>duplicates.py\<close>,
    \<open>classifier.py\<close>): the graph, its flows, the duplicate stars, the role of a repository.
  \<^item> \<open>Impact\<close> (\<open>topology/impact.py\<close>): resolution of dependency edges and bounded impact
    traversal. The search is the code's queue loop; it terminates because every step removes a
    queue entry or marks a new vertex, and its result is bounded reachability.
  \<^item> \<open>ClaimProjection\<close> (\<open>topology/claim_projection.py\<close>) and \<open>WorkProjection\<close>
    (\<open>topology/work_projection.py\<close>): what claims become in the graph, and when they may.
  \<^item> \<open>BridgeGaps\<close> (\<open>topology/bridge_gaps.py\<close>): missing lifecycle transitions and intent.
  \<^item> \<open>CorpusScope\<close> (\<open>topology/corpus_model.py\<close>, \<open>readiness.py\<close>), \<open>Candidates\<close>
    (\<open>topology/candidates.py\<close>) and \<open>ReasoningRouter\<close> (\<open>topology/reasoning_router.py\<close>): corpora and
    roots above repositories, candidates measured against the compiled graph and graded downward
    only, and the routing of candidates to a later reasoner.
  \<^item> \<open>Assessment\<close> (\<open>topology/maturity.py\<close>, \<open>topology/risk.py\<close>): profile-driven maturity and risk.
  \<^item> \<open>Payloads\<close> (\<open>packets/payloads.py\<close>): the JSON views of the records, payload bytes and hashes.
  \<^item> \<open>OutputSink\<close> (\<open>io/\<close>): write plans and receipts, the \<open>output_sink\<close> interface, the in-memory
    sink and the composite sink, which satisfies the interface whenever its children do.
  \<^item> \<open>DependencyCycles\<close> and \<open>Validation\<close> (\<open>validation/topology_validator.py\<close>): the cycle scan,
    which finds every elementary cycle once, and the checks on a materialized state, whose
    verdict is characterized by three predicates on the state and its inputs.
  \<^item> \<open>Ingest\<close> (\<open>packets/validator.py\<close>, \<open>run/diagnostics.py\<close>, \<open>stages/ingest_packets.py\<close>,
    \<open>normalize_models.py\<close>): admission of Repository Model Packets. \<open>Compiler\<close> (\<open>compiler.py\<close>): the
    stages composed into \<open>compile_state\<close>. \<open>Pipeline\<close>: when a compile is refused, that the state
    of an accepted one passes the conservation checks of \<open>Validation\<close>, and that candidates do
    not reach canonical topology.
  \<^item> \<open>TopologyPacket\<close> (\<open>packets/topology_packet.py\<close>, \<open>validation_receipt.py\<close>, \<open>config.py\<close>, the
    end of \<open>compiler.py\<close>): the sealed packet, its identity and its receipt. The lemmas say when a
    compiled state is refused, that time moves only the bytes, and what the identity binds.
    \<open>Bundle\<close> (\<open>packets/bundle.py\<close>, \<open>packets/loader.py\<close>): the bundle of a packet and the loaders that
    verify it; what is compiled, rendered and loaded is what was compiled.
  \<^item> \<open>ExecutionAuthority\<close> (\<open>worker/execution_authority.py\<close>, \<open>worker/registry.py\<close>) and
    \<open>StageRunner\<close> (\<open>worker/stage_runner.py\<close>): leases and their compare-and-set transitions, the
    packet registry, and the protocol of concurrent workers as a step relation on the shared
    tables; a worker is a program counter, and it may fail or stop at every call. The lemmas give
    an invariant of the reachable worlds, exclusive execution and finality.

  \<^item> \<open>PredicatePolicy\<close> (\<open>reconciliation/predicates.py\<close>): the registry as plain data and its hash.
    \<open>ClaimView\<close> (\<open>topology/claim_view.py\<close>): claims read through the registry, queries whose pages
    partition what matches, and the exact differential of two snapshots.
  \<^item> \<open>Qualification\<close> (\<open>publication/qualification.py\<close>): what a relation must carry to be
    published; a qualified relation is backed, and what the two projectors emit qualifies.
    \<open>PublicationPolicy\<close> (\<open>publication/policy.py\<close>, \<open>identity.py\<close>, \<open>contracts.py\<close>): the policy, and the
    identities of facts and writes, characterized by what they identify.

  Interfaces. \<open>keyed_store\<close> is interpreted on dictionaries (\<open>dict\<close>), \<open>output_sink\<close> on the
  in-memory sink (\<open>mem\<close>) and, through a lemma proved in the locale, on the composite of
  in-memory sinks (\<open>fan\<close>).

  Bounds. No fuel is used: the breadth-first search is a \<open>function\<close> with a proved measure, every
  other loop is a fold or structural recursion.

  Not modelled: the parsers of the wire formats (files, third-party schema validation), which are
  parameters of the loaders, the legacy v4 records and scanners, the command line, the renderers, the worker's networking and
  signatures, and publication. Length constraints on the strings
  of a packet (\<open>min_length\<close>) are checks of the wire model and are left out.
\<close>

end
